(* ===== verification/Prelude.thy ===== *)
theory Prelude
  imports Main "HOL-Library.State_Monad"
begin

text \<open>
  The prelude of the development: how effects and errors are written, and the generic
  facts the components share.

  A Go method with effects is a value of \<open>('w, 'a) state\<close> (HOL-Library.State_Monad): it
  takes the world \<open>'w\<close> (database, clock, identifier source, broker, ...) and returns its
  result and the new world. A Go function that returns \<open>(T, error)\<close> returns
  \<open>'e + 'a\<close>: \<open>Inl e\<close> when the error is not nil, \<open>Inr x\<close> otherwise. Every
  function of the program returns a zero value beside a non-nil error, and no caller looks at it,
  so the sum type loses nothing.

  \<open>ebind m k\<close> is the idiom \<open>x, err := m(); if err != nil { return err }; k(x)\<close>.
  \<open>state_io_rel R m\<close> (from the library) says that \<open>m\<close> moves every world along
  \<open>R\<close>; for a reflexive and transitive \<open>R\<close> it is proved by following the structure
  of \<open>m\<close> with the collection \<open>io_rules\<close>, which is how invariants and frame
  properties are carried through the services.
\<close>

section \<open>Collections\<close>

named_theorems io_rules \<open>structural rules for properties of effectful operations\<close>
named_theorems wf_defs \<open>definitions of the invariants\<close>

section \<open>Effects and errors\<close>

abbreviation ret :: "'a \<Rightarrow> ('w, 'a) state" where
  "ret x \<equiv> State_Monad.return x"

abbreviation ok :: "'a \<Rightarrow> ('w, 'e + 'a) state" where
  "ok x \<equiv> State_Monad.return (Inr x)"

abbreviation fail :: "'e \<Rightarrow> ('w, 'e + 'a) state" where
  "fail e \<equiv> State_Monad.return (Inl e)"

definition ebind :: "('w, 'e + 'a) state \<Rightarrow> ('a \<Rightarrow> ('w, 'e + 'b) state) \<Rightarrow> ('w, 'e + 'b) state" where
  "ebind m k = State_Monad.bind m (\<lambda>r. case r of Inl e \<Rightarrow> fail e | Inr x \<Rightarrow> k x)"

lemma run_ebind [simp]:
  "run_state (ebind m k) w =
     (case run_state m w of (Inl e, w') \<Rightarrow> (Inl e, w') | (Inr x, w') \<Rightarrow> run_state (k x) w')"
  by (auto simp: ebind_def split: sum.splits prod.splits)

text \<open>A pure check, as in \<open>if err := Validate(x); err != nil { return err }\<close>.\<close>

definition check :: "'e + 'a \<Rightarrow> ('w, 'e + 'a) state" where
  "check r = State_Monad.return r"

lemma run_check [simp]: "run_state (check r) w = (r, w)"
  by (simp add: check_def)

text \<open>An effect that cannot fail, inside a function that can.\<close>

definition lift :: "('w, 'a) state \<Rightarrow> ('w, 'e + 'a) state" where
  "lift m = State_Monad.bind m (\<lambda>x. ok x)"

lemma run_lift [simp]:
  "run_state (lift m) w = (case run_state m w of (x, w') \<Rightarrow> (Inr x, w'))"
  by (simp add: lift_def)

text \<open>The assignment \<open>_ = f()\<close>: the result and the error are dropped.\<close>

definition discard :: "('w, 'a) state \<Rightarrow> ('w, unit) state" where
  "discard m = State_Monad.bind m (\<lambda>_. ret ())"

lemma run_discard [simp]:
  "run_state (discard m) w = ((), snd (run_state m w))"
  by (simp add: discard_def split: prod.splits)

section \<open>Relations kept by effects\<close>

definition preorder_rel :: "('w \<Rightarrow> 'w \<Rightarrow> bool) \<Rightarrow> bool" where
  "preorder_rel R \<longleftrightarrow> reflp R \<and> transp R"

lemma preorder_relI: "(\<And>w. R w w) \<Longrightarrow> (\<And>a b c. R a b \<Longrightarrow> R b c \<Longrightarrow> R a c) \<Longrightarrow> preorder_rel R"
  by (auto simp: preorder_rel_def intro: reflpI transpI)

lemma preorder_refl: "preorder_rel R \<Longrightarrow> R w w"
  by (auto simp: preorder_rel_def dest: reflpD)

lemma preorder_trans: "preorder_rel R \<Longrightarrow> R a b \<Longrightarrow> R b c \<Longrightarrow> R a c"
  by (auto simp: preorder_rel_def dest: transpD)

text \<open>The two shapes used: an invariant is kept, and a part of the world is left alone.\<close>

lemma preorder_invariant [intro]: "preorder_rel (\<lambda>w w'. I w \<longrightarrow> I w')"
  by (rule preorder_relI) auto

lemma preorder_frame [intro]: "preorder_rel (\<lambda>w w'. f w' = f w)"
  by (rule preorder_relI) auto

lemma rel_return [io_rules]: "preorder_rel R \<Longrightarrow> state_io_rel R (State_Monad.return x)"
  by (auto simp: state_io_rel_def preorder_refl)

lemma rel_check [io_rules]: "preorder_rel R \<Longrightarrow> state_io_rel R (check x)"
  by (auto simp: state_io_rel_def preorder_refl)

lemma rel_bind [io_rules]:
  assumes "preorder_rel R" "state_io_rel R m" "\<And>x. state_io_rel R (k x)"
  shows "state_io_rel R (State_Monad.bind m k)"
proof (unfold state_io_rel_def, rule allI)
  fix w
  obtain x w1 where m: "run_state m w = (x, w1)" by (cases "run_state m w")
  from m assms(2) have "R w w1" by (metis state_io_rel_def snd_conv)
  moreover from assms(3) have "R w1 (snd (run_state (k x) w1))" by (simp add: state_io_rel_def)
  ultimately show "R w (snd (run_state (State_Monad.bind m k) w))"
    using m assms(1) by (auto intro: preorder_trans)
qed

lemma rel_ebind [io_rules]:
  assumes "preorder_rel R" "state_io_rel R m" "\<And>x. state_io_rel R (k x)"
  shows "state_io_rel R (ebind m k)"
  unfolding ebind_def using assms
  by (auto intro!: rel_bind rel_return split: sum.split)

lemma rel_lift [io_rules]: "preorder_rel R \<Longrightarrow> state_io_rel R m \<Longrightarrow> state_io_rel R (lift m)"
  unfolding lift_def by (auto intro!: rel_bind rel_return)

lemma rel_discard [io_rules]: "preorder_rel R \<Longrightarrow> state_io_rel R m \<Longrightarrow> state_io_rel R (discard m)"
  unfolding discard_def by (auto intro!: rel_bind rel_return)

lemma rel_if [io_rules]:
  "(b \<Longrightarrow> state_io_rel R m) \<Longrightarrow> (\<not> b \<Longrightarrow> state_io_rel R n) \<Longrightarrow> state_io_rel R (if b then m else n)"
  by auto

lemma rel_case_sum [io_rules]:
  "(\<And>e. r = Inl e \<Longrightarrow> state_io_rel R (f e)) \<Longrightarrow> (\<And>x. r = Inr x \<Longrightarrow> state_io_rel R (g x)) \<Longrightarrow>
   state_io_rel R (case r of Inl e \<Rightarrow> f e | Inr x \<Rightarrow> g x)"
  by (cases r) auto

lemma rel_case_option [io_rules]:
  "state_io_rel R m \<Longrightarrow> (\<And>x. r = Some x \<Longrightarrow> state_io_rel R (g x)) \<Longrightarrow>
   state_io_rel R (case r of None \<Rightarrow> m | Some x \<Rightarrow> g x)"
  by (cases r) auto

lemma rel_let [io_rules]: "state_io_rel R (f x) \<Longrightarrow> state_io_rel R (let y = x in f y)"
  by simp

lemma state_io_rel_run: "state_io_rel R m \<Longrightarrow> run_state m w = (x, w') \<Longrightarrow> R w w'"
  by (metis state_io_rel_def snd_conv)

text \<open>An operation \<open>m\<close> keeps the invariant \<open>I\<close>; it leaves the part \<open>f\<close> alone.\<close>

abbreviation keeps :: "('w \<Rightarrow> bool) \<Rightarrow> ('w, 'a) state \<Rightarrow> bool" where
  "keeps I m \<equiv> state_io_rel (\<lambda>w w'. I w \<longrightarrow> I w') m"

abbreviation leaves :: "('w \<Rightarrow> 'b) \<Rightarrow> ('w, 'a) state \<Rightarrow> bool" where
  "leaves f m \<equiv> state_io_rel (\<lambda>w w'. f w' = f w) m"

lemma keepsD: "keeps I m \<Longrightarrow> run_state m w = (x, w') \<Longrightarrow> I w \<Longrightarrow> I w'"
  by (drule state_io_rel_run) auto

lemma leavesD: "leaves f m \<Longrightarrow> run_state m w = (x, w') \<Longrightarrow> f w' = f w"
  by (drule state_io_rel_run) auto

section \<open>Triples\<close>

text \<open>
  \<open>hoare P m Q E\<close>: from a world that satisfies \<open>P\<close>, a result \<open>x\<close> of \<open>m\<close> comes with a world that satisfies
  \<open>Q x\<close>, and an error with one that satisfies \<open>E\<close>.
\<close>

definition hoare :: "('w \<Rightarrow> bool) \<Rightarrow> ('w, 'e + 'a) state \<Rightarrow> ('a \<Rightarrow> 'w \<Rightarrow> bool) \<Rightarrow> ('w \<Rightarrow> bool) \<Rightarrow> bool" where
  "hoare P m Q E \<longleftrightarrow>
     (\<forall>w. P w \<longrightarrow> (case run_state m w of (Inl e, w') \<Rightarrow> E w' | (Inr x, w') \<Rightarrow> Q x w'))"

lemma hoareI:
  assumes "\<And>w x w'. P w \<Longrightarrow> run_state m w = (Inr x, w') \<Longrightarrow> Q x w'"
    and "\<And>w e w'. P w \<Longrightarrow> run_state m w = (Inl e, w') \<Longrightarrow> E w'"
  shows "hoare P m Q E"
  using assms by (auto simp: hoare_def split: sum.split prod.split)

lemma hoareD:
  assumes "hoare P m Q E" "P w"
  shows "run_state m w = (Inr x, w') \<Longrightarrow> Q x w'" "run_state m w = (Inl e, w') \<Longrightarrow> E w'"
  using assms by (force simp: hoare_def)+

lemma hoare_ebind:
  assumes "hoare P m Q E" "\<And>x. hoare (Q x) (k x) R E"
  shows "hoare P (ebind m k) R E"
  using assms by (fastforce simp: hoare_def split: sum.splits prod.splits)

lemma hoare_ok: "(\<And>w. P w \<Longrightarrow> Q x w) \<Longrightarrow> hoare P (ok x) Q E"
  by (simp add: hoare_def)

lemma hoare_keeps: "hoare I m (\<lambda>_. I) I \<longleftrightarrow> keeps I m"
  by (fastforce simp: hoare_def state_io_rel_def split: sum.splits prod.splits)

section \<open>Lists used as tables\<close>

lemma map_key_update:
  assumes "\<And>x. k (g x) = k x"
  shows "map k (map (\<lambda>x. if P x then g x else x) xs) = map k xs"
  using assms by (induction xs) auto

lemma filter_key_unique:
  assumes "distinct (map k xs)" "x \<in> set xs"
  shows "filter (\<lambda>y. k y = k x) xs = [x]"
  using assms
proof (induction xs)
  case (Cons y ys)
  show ?case
  proof (cases "x = y")
    case True
    with Cons.prems have "\<forall>z \<in> set ys. k z \<noteq> k x" by (auto simp: image_iff)
    then have "filter (\<lambda>z. k z = k x) ys = []" by (simp add: filter_empty_conv)
    with True show ?thesis by simp
  next
    case False
    with Cons have "k y \<noteq> k x" by (auto simp: image_iff)
    with False Cons show ?thesis by simp
  qed
qed simp

lemma find_key_unique:
  assumes "distinct (map k xs)" "x \<in> set xs"
  shows "find (\<lambda>y. k y = k x) xs = Some x"
  using assms by (induction xs) (auto simp: image_iff)

lemma find_SomeD: "find P xs = Some x \<Longrightarrow> x \<in> set xs \<and> P x"
  by (induction xs) (auto split: if_splits)

lemma find_None_iff': "find P xs = None \<longleftrightarrow> (\<forall>x \<in> set xs. \<not> P x)"
  by (induction xs) auto

end
