(* ===== verification/Utf8.thy ===== *)
theory Utf8
  imports Prelude
begin

text \<open>
  What the program uses of Go's \<open>unicode/utf8\<close>. A Go string is a sequence of bytes, here an
  Isabelle \<open>string\<close> (each \<open>char\<close> is one byte). \<open>decode_rune\<close> is
  \<open>utf8.DecodeRune\<close>: the code point and its width, (U+FFFD, 1) on an ill-formed sequence and
  (U+FFFD, 0) at the end. The main facts are that decoding always makes progress (so the loops over runes
  end) and that it inverts the encoding of every Unicode scalar value.
\<close>

section \<open>Decoding\<close>

abbreviation byte_of :: "char \<Rightarrow> nat" where
  "byte_of c \<equiv> of_char c"

abbreviation rune_error :: nat where
  "rune_error \<equiv> 65533"

definition cont :: "nat \<Rightarrow> bool" where
  "cont b \<longleftrightarrow> 128 \<le> b \<and> b < 192"

text \<open>The range of the second byte depends on the first (no overlong forms, no surrogates).\<close>

definition second_lo :: "nat \<Rightarrow> nat" where
  "second_lo b0 = (if b0 = 224 then 160 else if b0 = 240 then 144 else 128)"

definition second_hi :: "nat \<Rightarrow> nat" where
  "second_hi b0 = (if b0 = 237 then 159 else if b0 = 244 then 143 else 191)"

definition decode_rune :: "nat list \<Rightarrow> nat \<times> nat" where
  "decode_rune bs = (case bs of
      [] \<Rightarrow> (rune_error, 0)
    | b0 # r \<Rightarrow>
        if b0 < 128 then (b0, 1)
        else if 194 \<le> b0 \<and> b0 \<le> 223 then
          (case r of
             b1 # _ \<Rightarrow> if cont b1 then ((b0 - 192) * 64 + (b1 - 128), 2) else (rune_error, 1)
           | [] \<Rightarrow> (rune_error, 1))
        else if 224 \<le> b0 \<and> b0 \<le> 239 then
          (case r of
             b1 # b2 # _ \<Rightarrow>
               if second_lo b0 \<le> b1 \<and> b1 \<le> second_hi b0 \<and> cont b2
               then ((b0 - 224) * 4096 + (b1 - 128) * 64 + (b2 - 128), 3) else (rune_error, 1)
           | _ \<Rightarrow> (rune_error, 1))
        else if 240 \<le> b0 \<and> b0 \<le> 244 then
          (case r of
             b1 # b2 # b3 # _ \<Rightarrow>
               if second_lo b0 \<le> b1 \<and> b1 \<le> second_hi b0 \<and> cont b2 \<and> cont b3
               then ((b0 - 240) * 262144 + (b1 - 128) * 4096 + (b2 - 128) * 64 + (b3 - 128), 4)
               else (rune_error, 1)
           | _ \<Rightarrow> (rune_error, 1))
        else (rune_error, 1))"

lemma decode_rune_width:
  "bs \<noteq> [] \<Longrightarrow> 1 \<le> snd (decode_rune bs) \<and> snd (decode_rune bs) \<le> length bs"
  by (auto simp: decode_rune_def split: list.splits)

text \<open>The runes of a string with their widths, as \<open>for _, r := range s\<close> visits them.\<close>

function decode_all :: "nat list \<Rightarrow> (nat \<times> nat) list" where
  "decode_all bs = (if bs = [] then []
     else decode_rune bs # decode_all (drop (snd (decode_rune bs)) bs))"
  by pat_completeness auto
termination
  using decode_rune_width by (relation "measure length") (auto simp: Suc_le_eq)

declare decode_all.simps [simp del]

lemma decode_all_Nil [simp]: "decode_all [] = []"
  by (simp add: decode_all.simps)

lemma decode_all_Cons:
  "bs \<noteq> [] \<Longrightarrow> decode_all bs = decode_rune bs # decode_all (drop (snd (decode_rune bs)) bs)"
  by (subst decode_all.simps) simp

definition bytes :: "string \<Rightarrow> nat list" where
  "bytes s = map byte_of s"

lemma length_bytes [simp]: "length (bytes s) = length s"
  by (simp add: bytes_def)

definition to_runes :: "string \<Rightarrow> nat list" where
  "to_runes s = map fst (decode_all (bytes s))"

definition valid_string :: "string \<Rightarrow> bool" where
  "valid_string s \<longleftrightarrow> list_all (\<lambda>rw. rw \<noteq> (rune_error, 1)) (decode_all (bytes s))"

section \<open>Encoding and the round trip\<close>

definition scalar :: "nat \<Rightarrow> bool" where
  "scalar r \<longleftrightarrow> r < 1114112 \<and> \<not> (55296 \<le> r \<and> r \<le> 57343)"

definition encode_rune :: "nat \<Rightarrow> nat list" where
  "encode_rune r =
     (if r < 128 then [r]
      else if r < 2048 then [192 + r div 64, 128 + r mod 64]
      else if r < 65536 then [224 + r div 4096, 128 + r div 64 mod 64, 128 + r mod 64]
      else [240 + r div 262144, 128 + r div 4096 mod 64, 128 + r div 64 mod 64, 128 + r mod 64])"

lemma split_3: "r div 4096 * 4096 + r div 64 mod 64 * 64 + r mod 64 = (r::nat)"
proof -
  have "r div 64 = r div 4096 * 64 + r div 64 mod 64"
    using div_mult_mod_eq [of "r div 64" 64] by (simp add: div_mult2_eq [symmetric])
  then show ?thesis using div_mult_mod_eq [of r 64] by linarith
qed

lemma decode_encode_2:
  assumes "128 \<le> r" "r < 2048"
  shows "decode_rune ([192 + r div 64, 128 + r mod 64] @ bs) = (r, 2)"
proof -
  have "r div 64 < 32" using assms by (simp add: div_less_iff_less_mult)
  then have d: "2 \<le> r div 64" "r div 64 \<le> 31"
    using assms by (simp_all add: less_eq_div_iff_mult_less_eq)
  have "r div 64 * 64 + r mod 64 = r" by simp
  moreover have "r mod 64 < 64" by simp
  ultimately show ?thesis using d by (auto simp: decode_rune_def cont_def)
qed

lemma decode_encode_3:
  assumes "2048 \<le> r" "r < 65536" "\<not> (55296 \<le> r \<and> r \<le> 57343)"
  shows "decode_rune ([224 + r div 4096, 128 + r div 64 mod 64, 128 + r mod 64] @ bs) = (r, 3)"
proof -
  let ?a = "r div 4096" let ?b = "r div 64 mod 64" let ?c = "r mod 64"
  have sum: "?a * 4096 + ?b * 64 + ?c = r" by (rule split_3)
  have "?a < 16" using assms by (simp add: div_less_iff_less_mult)
  then have a: "?a \<le> 15" by simp
  have b: "?b < 64" and c: "?c < 64" by simp_all
  have lo: "second_lo (224 + ?a) \<le> 128 + ?b"
    using assms sum b c unfolding second_lo_def by (cases "?a = 0") auto
  have hi: "128 + ?b \<le> second_hi (224 + ?a)"
  proof (cases "?a = 13")
    case True
    with sum assms(3) b c have "?b \<le> 31" by linarith
    with True show ?thesis by (simp add: second_hi_def)
  next
    case False
    with a b show ?thesis by (auto simp: second_hi_def)
  qed
  show ?thesis using a b c lo hi sum by (simp add: decode_rune_def cont_def)
qed

lemma decode_encode_4:
  assumes "65536 \<le> r" "r < 1114112"
  shows "decode_rune ([240 + r div 262144, 128 + r div 4096 mod 64, 128 + r div 64 mod 64,
            128 + r mod 64] @ bs) = (r, 4)"
proof -
  let ?a = "r div 262144" let ?b = "r div 4096 mod 64" let ?c = "r div 64 mod 64" let ?d = "r mod 64"
  have "r div 4096 = ?a * 64 + ?b"
    using div_mult_mod_eq [of "r div 4096" 64] by (simp add: div_mult2_eq [symmetric])
  with split_3 [of r] have sum: "?a * 262144 + ?b * 4096 + ?c * 64 + ?d = r" by linarith
  have "?a < 5" using assms by (simp add: div_less_iff_less_mult)
  then have a: "?a \<le> 4" by simp
  have b: "?b < 64" and c: "?c < 64" and d: "?d < 64" by simp_all
  have lo: "second_lo (240 + ?a) \<le> 128 + ?b"
    using assms(1) sum c d by (cases "?a = 0") (auto simp: second_lo_def)
  have hi: "128 + ?b \<le> second_hi (240 + ?a)"
  proof (cases "?a = 4")
    case True
    with sum assms(2) have "?b \<le> 15" by linarith
    with True show ?thesis by (simp add: second_hi_def)
  next
    case False
    with a b show ?thesis by (auto simp: second_hi_def)
  qed
  show ?thesis using a b c d lo hi sum by (simp add: decode_rune_def cont_def)
qed

lemma decode_encode:
  assumes "scalar r"
  shows "decode_rune (encode_rune r @ bs) = (r, length (encode_rune r))"
  using assms decode_encode_2[of r bs] decode_encode_3[of r bs] decode_encode_4[of r bs]
  by (simp add: scalar_def encode_rune_def) (auto simp: decode_rune_def)

lemma encode_rune_nonempty [simp]: "encode_rune r \<noteq> []"
  by (simp add: encode_rune_def)

lemma decode_all_encode:
  "list_all scalar rs \<Longrightarrow>
   decode_all (concat (map encode_rune rs)) = map (\<lambda>r. (r, length (encode_rune r))) rs"
proof (induction rs)
  case (Cons r rs)
  then show ?case
    using decode_encode[of r "concat (map encode_rune rs)"]
    by (subst decode_all_Cons) auto
qed simp

lemma encode_rune_error_width: "encode_rune rune_error = [239, 191, 189]"
  by (simp add: encode_rune_def)

end
