(* ===== verification/GoStrings.thy ===== *)
theory GoStrings
  imports Utf8
begin

text \<open>
  What the program uses of Go's \<open>strings\<close> and \<open>strconv\<close>, on byte strings, with
  the two round trips it depends on: \<open>Atoi (Itoa n) = n\<close> for every 64-bit \<open>n\<close>, and
  \<open>Split (Join parts) = parts\<close> for parts that do not contain the separator.
\<close>

section \<open>White space and letter case\<close>

text \<open>\<open>unicode.IsSpace\<close> on a code point.\<close>

definition is_space :: "nat \<Rightarrow> bool" where
  "is_space r \<longleftrightarrow> (9 \<le> r \<and> r \<le> 13) \<or> r = 32 \<or> r = 133 \<or> r = 160 \<or> r = 5760
     \<or> (8192 \<le> r \<and> r \<le> 8202) \<or> r = 8232 \<or> r = 8233 \<or> r = 8239 \<or> r = 8287 \<or> r = 12288"

text \<open>
  \<open>strings.TrimSpace\<close>: drop space runes at the left, then at the right. No encoding of a space
  is longer than three bytes, so looking at the last one, two and three bytes finds what
  \<open>utf8.DecodeLastRune\<close> would.
\<close>

function trim_left :: "string \<Rightarrow> string" where
  "trim_left s = (if s = [] then [] else
     (let (r, n) = decode_rune (bytes s) in if is_space r then trim_left (drop n s) else s))"
  by pat_completeness auto
termination
proof (relation "measure length", goal_cases)
  case (2 s x r n)
  then have "bytes s \<noteq> []" by (simp add: bytes_def)
  from decode_rune_width [OF this] 2 show ?case by (cases s) (auto simp: prod_eq_iff)
qed simp

declare trim_left.simps [simp del]

definition last_space :: "string \<Rightarrow> nat" where
  "last_space s =
     (case find (\<lambda>k. k \<le> length s \<and>
          (let (r, n) = decode_rune (bytes (drop (length s - k) s)) in n = k \<and> is_space r))
        [1, 2, 3] of None \<Rightarrow> 0 | Some k \<Rightarrow> k)"

lemma last_space_le: "last_space s \<le> length s"
  by (auto simp: last_space_def split: option.splits dest!: find_SomeD)

function trim_right :: "string \<Rightarrow> string" where
  "trim_right s = (let k = last_space s in
     if k = 0 then s else trim_right (take (length s - k) s))"
  by pat_completeness auto
termination
proof (relation "measure length", goal_cases)
  case (2 s k)
  then show ?case using last_space_le [of s] by simp
qed simp

declare trim_right.simps [simp del]

definition TrimSpace :: "string \<Rightarrow> string" where
  "TrimSpace s = trim_right (trim_left s)"

text \<open>
  Upper case, as far as the program can observe it: it only compares the result with
  \<open>"$SYS"\<close>. The code points whose upper case is an ASCII character are the ASCII
  letters, the dotless i (U+0131) and the long s (U+017F); every other code point is mapped outside
  ASCII, so leaving it as it is does not change any comparison made here.
\<close>

definition upper_rune :: "nat \<Rightarrow> nat" where
  "upper_rune r = (if 97 \<le> r \<and> r \<le> 122 then r - 32
     else if r = 305 then 73 else if r = 383 then 83 else r)"

definition upper_runes :: "string \<Rightarrow> nat list" where
  "upper_runes s = map upper_rune (to_runes s)"

section \<open>Searching and splitting\<close>

definition HasPrefix :: "string \<Rightarrow> string \<Rightarrow> bool" where
  "HasPrefix s p \<longleftrightarrow> take (length p) s = p"

definition ContainsAny :: "string \<Rightarrow> string \<Rightarrow> bool" where
  "ContainsAny s chars \<longleftrightarrow> list_ex (\<lambda>c. c \<in> set chars) s"

text \<open>\<open>strings.IndexRune\<close> for an ASCII rune: the first position, or -1.\<close>

fun index_from :: "int \<Rightarrow> string \<Rightarrow> char \<Rightarrow> int" where
  "index_from i [] c = -1"
| "index_from i (x # xs) c = (if x = c then i else index_from (i + 1) xs c)"

definition IndexRune :: "string \<Rightarrow> char \<Rightarrow> int" where
  "IndexRune s c = index_from 0 s c"

lemma index_from_spec:
  "index_from i s c = (if c \<in> set s then i + int (length (takeWhile (\<lambda>x. x \<noteq> c) s)) else -1)"
  by (induction s arbitrary: i) auto

text \<open>\<open>strings.Split\<close> with a one-byte separator: there is always at least one part.\<close>

fun Split :: "char \<Rightarrow> string \<Rightarrow> string list" where
  "Split sep [] = [[]]"
| "Split sep (c # cs) =
     (if c = sep then [] # Split sep cs
      else (case Split sep cs of [] \<Rightarrow> [[c]] | p # ps \<Rightarrow> (c # p) # ps))"

fun Join :: "char \<Rightarrow> string list \<Rightarrow> string" where
  "Join sep [] = []"
| "Join sep [p] = p"
| "Join sep (p # q # ps) = p @ sep # Join sep (q # ps)"

lemma Split_nonempty [simp]: "Split sep s \<noteq> []"
  by (induction s) (auto split: list.splits)

lemma Split_no_sep: "sep \<notin> set p \<Longrightarrow> Split sep p = [p]"
  by (induction p) auto

lemma Split_append: "sep \<notin> set p \<Longrightarrow> Split sep (p @ sep # s) = p # Split sep s"
  by (induction p) auto

lemma Split_Join:
  "ps \<noteq> [] \<Longrightarrow> \<forall>p \<in> set ps. sep \<notin> set p \<Longrightarrow> Split sep (Join sep ps) = ps"
  by (induction sep ps rule: Join.induct) (auto simp: Split_append Split_no_sep)

lemma Join_Split: "Join sep (Split sep s) = s"
proof (induction s)
  case (Cons c s)
  then show ?case
    by (cases "Split sep s"; cases "tl (Split sep s)") auto
qed simp

section \<open>Decimal numbers\<close>

definition digit_char :: "int \<Rightarrow> char" where
  "digit_char d = char_of (48 + d)"

definition is_digit :: "char \<Rightarrow> bool" where
  "is_digit c \<longleftrightarrow> 48 \<le> (of_char c :: int) \<and> (of_char c :: int) \<le> 57"

definition digit_val :: "char \<Rightarrow> int" where
  "digit_val c = of_char c - 48"

function int_digits :: "int \<Rightarrow> string" where
  "int_digits n = (if n < 10 then [digit_char n] else int_digits (n div 10) @ [digit_char (n mod 10)])"
  by pat_completeness auto
termination
  by (relation "measure nat") auto

declare int_digits.simps [simp del]

fun read_digits :: "int \<Rightarrow> string \<Rightarrow> int" where
  "read_digits acc [] = acc"
| "read_digits acc (c # cs) = read_digits (acc * 10 + digit_val c) cs"

text \<open>Go's \<open>int\<close> is 64 bits wide.\<close>

definition int64 :: "int \<Rightarrow> bool" where
  "int64 n \<longleftrightarrow> -9223372036854775808 \<le> n \<and> n \<le> 9223372036854775807"

definition Itoa :: "int \<Rightarrow> string" where
  "Itoa n = (if n < 0 then CHR ''-'' # int_digits (- n) else int_digits n)"

text \<open>\<open>strconv.Atoi\<close>: an optional sign, at least one digit, digits only, in range.\<close>

definition Atoi :: "string \<Rightarrow> int option" where
  "Atoi s =
     (let neg = (s \<noteq> [] \<and> hd s = CHR ''-'');
          ds = (if s \<noteq> [] \<and> (hd s = CHR ''-'' \<or> hd s = CHR ''+'') then tl s else s);
          v = (if neg then - read_digits 0 ds else read_digits 0 ds)
      in if ds \<noteq> [] \<and> list_all is_digit ds \<and> int64 v then Some v else None)"

lemma digit_char_props:
  assumes "0 \<le> d" "d < 10"
  shows "is_digit (digit_char d)" "digit_val (digit_char d) = d"
  using assms by (simp_all add: is_digit_def digit_val_def digit_char_def of_char_of)

lemma digits_not_special: "is_digit c \<Longrightarrow> c \<noteq> CHR ''-'' \<and> c \<noteq> CHR ''+'' \<and> c \<noteq> CHR '','' \<and> c \<noteq> CHR '':''"
  by (auto simp: is_digit_def)

lemma int_digits_nonempty [simp]: "int_digits n \<noteq> []"
  by (subst int_digits.simps) simp

lemma int_digits_digits: "0 \<le> n \<Longrightarrow> list_all is_digit (int_digits n)"
proof (induction n rule: int_digits.induct)
  case (1 n)
  then show ?case
    by (subst int_digits.simps) (auto simp: digit_char_props)
qed

lemma read_digits_append: "read_digits acc (xs @ [c]) = read_digits acc xs * 10 + digit_val c"
  by (induction xs arbitrary: acc) auto

lemma read_int_digits: "0 \<le> n \<Longrightarrow> read_digits 0 (int_digits n) = n"
proof (induction n rule: int_digits.induct)
  case (1 n)
  show ?case
  proof (cases "n < 10")
    case True
    with 1 show ?thesis by (subst int_digits.simps) (simp add: digit_char_props)
  next
    case False
    with 1 have "read_digits 0 (int_digits (n div 10)) = n div 10" by simp
    with False show ?thesis
      by (subst int_digits.simps) (simp add: read_digits_append digit_char_props)
  qed
qed

lemma hd_int_digits: "0 \<le> n \<Longrightarrow> is_digit (hd (int_digits n))"
  using int_digits_digits [of n] by (cases "int_digits n") auto

lemma Atoi_Itoa: "int64 n \<Longrightarrow> Atoi (Itoa n) = Some n"
  using hd_int_digits [of n] digits_not_special [of "hd (int_digits n)"]
  by (auto simp: Atoi_def Itoa_def Let_def read_int_digits int_digits_digits)

lemma Itoa_chars: "c \<in> set (Itoa n) \<Longrightarrow> is_digit c \<or> c = CHR ''-''"
  using int_digits_digits [of n] int_digits_digits [of "- n"]
  by (auto simp: Itoa_def list_all_iff split: if_splits)

lemma Itoa_nonempty [simp]: "Itoa n \<noteq> []"
  by (simp add: Itoa_def)


lemma hd_Join: "ps \<noteq> [] \<Longrightarrow> hd ps \<noteq> [] \<Longrightarrow> hd (Join sep ps) = hd (hd ps)"
  by (cases ps; cases "tl ps") auto

lemma Join_nonempty: "ps \<noteq> [] \<Longrightarrow> \<forall>p \<in> set ps. p \<noteq> [] \<Longrightarrow> Join sep ps \<noteq> []"
  by (induction sep ps rule: Join.induct) auto

lemma last_Join: "ps \<noteq> [] \<Longrightarrow> \<forall>p \<in> set ps. p \<noteq> [] \<Longrightarrow> last (Join sep ps) = last (last ps)"
  by (induction sep ps rule: Join.induct) (auto simp: Join_nonempty)

section \<open>TrimSpace on text without space at its ends\<close>

text \<open>A byte below 128 that is not a space.\<close>

definition plain_byte :: "char \<Rightarrow> bool" where
  "plain_byte c \<longleftrightarrow> byte_of c < 128 \<and> \<not> is_space (byte_of c)"

lemma trim_left_plain: "s \<noteq> [] \<Longrightarrow> plain_byte (hd s) \<Longrightarrow> trim_left s = s"
  by (subst trim_left.simps) (cases s; simp add: plain_byte_def bytes_def decode_rune_def)

lemma decode_rune_multi: "decode_rune bs = (r, n) \<Longrightarrow> 2 \<le> n \<Longrightarrow> n = length bs \<Longrightarrow> 128 \<le> last bs"
  by (auto simp: decode_rune_def cont_def split: if_splits list.splits)

lemma singleton_last: "length t = 1 \<Longrightarrow> t = [last t]"
  by (cases t) auto

lemma last_space_plain: "s \<noteq> [] \<Longrightarrow> plain_byte (last s) \<Longrightarrow> last_space s = 0"
proof -
  assume s: "s \<noteq> []" "plain_byte (last s)"
  have "\<not> (k \<le> length s \<and> (let (r, n) = decode_rune (bytes (drop (length s - k) s)) in n = k \<and> is_space r))"
    if k: "k \<in> set [1, 2, 3]" for k
  proof
    assume A: "k \<le> length s \<and> (let (r, n) = decode_rune (bytes (drop (length s - k) s)) in n = k \<and> is_space r)"
    let ?t = "drop (length s - k) s"
    from A obtain r where r: "decode_rune (bytes ?t) = (r, k)" "is_space r" by (auto simp: Let_def split: prod.splits)
    have t: "length ?t = k" "?t \<noteq> []" "last ?t = last s" using A k by auto
    show False
    proof (cases "k = 1")
      case True
      with t(1) have "?t = [last ?t]" by (intro singleton_last) simp
      with t(3) have "?t = [last s]" by simp
      with r s(2) show False by (simp add: plain_byte_def bytes_def decode_rune_def)
    next
      case False
      with k t decode_rune_multi [OF r(1)] have "128 \<le> last (bytes ?t)" by auto
      with t s(2) show False by (simp add: bytes_def last_map plain_byte_def)
    qed
  qed
  then have "find (\<lambda>k. k \<le> length s \<and>
      (let (r, n) = decode_rune (bytes (drop (length s - k) s)) in n = k \<and> is_space r)) [1, 2, 3] = None"
    unfolding find_None_iff' by (rule ballI)
  then show "last_space s = 0" unfolding last_space_def by (simp only: option.case)
qed

lemma TrimSpace_plain: "s \<noteq> [] \<Longrightarrow> plain_byte (hd s) \<Longrightarrow> plain_byte (last s) \<Longrightarrow> TrimSpace s = s"
  by (subst TrimSpace_def, subst trim_left_plain) (auto simp: trim_right.simps last_space_plain)

lemma byte_of_int: "int (byte_of c) = of_char c"
  by (rule of_nat_of_char)

lemma digit_plain: "is_digit c \<or> c = CHR ''-'' \<Longrightarrow> plain_byte c"
  using byte_of_int [of c] by (auto simp: is_digit_def plain_byte_def is_space_def)

lemma Itoa_plain: "plain_byte (hd (Itoa n))" "plain_byte (last (Itoa n))"
  by (rule digit_plain [OF Itoa_chars [OF hd_in_set [OF Itoa_nonempty]]])
     (rule digit_plain [OF Itoa_chars [OF last_in_set [OF Itoa_nonempty]]])

end
