(* ===== verification/GoTime.thy ===== *)
theory GoTime
  imports GoStrings
begin

text \<open>
  What the program uses of Go's \<open>time\<close>. An instant is a number of nanoseconds since
  0001-01-01T00:00:00Z, Go's own zero time, as an unbounded \<open>int\<close> (Go's range is 292 billion years;
  no property depends on its end). A location is its lookup function: for a Unix second, the offset
  from UTC and the interval \<open>[start, end)\<close> of Unix seconds in which that offset holds. The
  calendar is the one of \<open>absDate\<close> (400-, 100-, 4- and 1-year cycles) and \<open>Date\<close> is
  Go's, including its two-step guess of the offset around a transition.
\<close>

type_synonym time = int
type_synonym location = "int \<Rightarrow> int \<times> int \<times> int"

definition second :: int where "second = 1000000000"
definition minute :: int where "minute = 60 * second"
definition hour :: int where "hour = 60 * minute"

lemmas duration_defs = second_def minute_def hour_def

definition IsZero :: "time \<Rightarrow> bool" where
  "IsZero t \<longleftrightarrow> t = 0"

definition After :: "time \<Rightarrow> time \<Rightarrow> bool" where
  "After t u \<longleftrightarrow> u < t"

section \<open>The calendar\<close>

definition is_leap :: "int \<Rightarrow> bool" where
  "is_leap y \<longleftrightarrow> y mod 4 = 0 \<and> (y mod 100 \<noteq> 0 \<or> y mod 400 = 0)"

definition daysBefore :: "int \<Rightarrow> int" where
  "daysBefore m = [0, 31, 59, 90, 120, 151, 181, 212, 243, 273, 304, 334, 365] ! nat m"

text \<open>Month (1-12) and day of the month of a day of the year (from 0).\<close>

definition month_day :: "bool \<Rightarrow> int \<Rightarrow> int \<times> int" where
  "month_day leap yday =
     (if leap \<and> yday = 59 then (2, 29) else
       (let day = (if leap \<and> 59 < yday then yday - 1 else yday);
            m = day div 31;
            e = daysBefore (m + 1)
        in if e \<le> day then (m + 2, day - e + 1) else (m + 1, day - daysBefore m + 1)))"

text \<open>Year, month and day of a day number (days since 0001-01-01).\<close>

definition civil_of_days :: "int \<Rightarrow> int \<times> int \<times> int" where
  "civil_of_days d =
     (let n400 = d div 146097; r400 = d - 146097 * n400;
          n100 = r400 div 36524 - r400 div 36524 div 4; r100 = r400 - 36524 * n100;
          n4 = r100 div 1461; r4 = r100 - 1461 * n4;
          n1 = r4 div 365 - r4 div 365 div 4; yday = r4 - 365 * n1;
          year = 400 * n400 + 100 * n100 + 4 * n4 + n1 + 1;
          (m, dd) = month_day (is_leap year) yday
      in (year, m, dd))"

text \<open>The day number of a date; the month may overflow into other years.\<close>

definition days_of_civil :: "int \<Rightarrow> int \<Rightarrow> int \<Rightarrow> int" where
  "days_of_civil y m d =
     (let y' = y + (m - 1) div 12; m' = (m - 1) mod 12; p = y' - 1
      in 365 * p + p div 4 - p div 100 + p div 400
         + daysBefore m' + (if is_leap y' \<and> 2 \<le> m' then 1 else 0) + (d - 1))"

lemma month_day_table:
  assumes "0 \<le> yday" "yday \<le> 364 \<or> (leap \<and> yday = 365)"
  shows "case month_day leap yday of (m, dd) \<Rightarrow> 1 \<le> m \<and> m \<le> 12 \<and> 1 \<le> dd \<and> dd \<le> 31 \<and>
           daysBefore (m - 1) + (if leap \<and> 2 \<le> m - 1 then 1 else 0) + (dd - 1) = yday"
proof -
  let ?P = "\<lambda>leap yd. case month_day leap yd of (m, dd) \<Rightarrow> 1 \<le> m \<and> m \<le> 12 \<and> 1 \<le> dd \<and> dd \<le> 31 \<and>
           daysBefore (m - 1) + (if leap \<and> 2 \<le> m - 1 then 1 else 0) + (dd - 1) = yd"
  have n: "list_all (?P False) [0..364]" by code_simp
  have l: "list_all (?P True) [0..365]" by code_simp
  show ?thesis
  proof (cases leap)
    case True
    with assms have "yday \<in> set [0..365]" by auto
    with l True show ?thesis by (simp only: list_all_iff)
  next
    case False
    with assms have "yday \<in> set [0..364]" by auto
    with n False show ?thesis by (simp only: list_all_iff)
  qed
qed

text \<open>The cycle decomposition: every day number is a year and a day of that year.\<close>

lemma cut3: "0 \<le> (n::int) \<Longrightarrow> n \<le> 4 \<Longrightarrow> n - n div 4 = (if n = 4 then 3 else n)"
  by auto

lemma cycles:
  fixes d :: int
  defines "a \<equiv> d div 146097"
  defines "r400 \<equiv> d - 146097 * a"
  defines "b \<equiv> r400 div 36524 - r400 div 36524 div 4"
  defines "r100 \<equiv> r400 - 36524 * b"
  defines "c \<equiv> r100 div 1461"
  defines "r4 \<equiv> r100 - 1461 * c"
  defines "e \<equiv> r4 div 365 - r4 div 365 div 4"
  defines "yday \<equiv> r4 - 365 * e"
  shows "0 \<le> b \<and> b \<le> 3" "0 \<le> c \<and> c \<le> 24" "0 \<le> e \<and> e \<le> 3"
    "0 \<le> yday" "yday \<le> 365" "d = 146097 * a + 36524 * b + 1461 * c + 365 * e + yday"
    "yday = 365 \<Longrightarrow> e = 3 \<and> (c = 24 \<longrightarrow> b = 3)"
proof -
  have r400: "r400 = d mod 146097" by (simp add: r400_def a_def minus_mult_div_eq_mod)
  then have r400b: "0 \<le> r400" "r400 < 146097" by simp_all
  have n: "0 \<le> r400 div 36524" "r400 div 36524 \<le> 4" using r400b by auto
  have b: "b = (if r400 div 36524 = 4 then 3 else r400 div 36524)" unfolding b_def by (rule cut3 [OF n])
  then show b3: "0 \<le> b \<and> b \<le> 3" using n by auto
  have q: "r400 = 36524 * (r400 div 36524) + r400 mod 36524" "0 \<le> r400 mod 36524" "r400 mod 36524 < 36524"
    by simp_all
  have r100b: "0 \<le> r100" "r100 \<le> 36524" and full: "r100 = 36524 \<Longrightarrow> b = 3"
    using b q r400b unfolding r100_def by (auto split: if_splits)
  have cq: "r100 = 1461 * c + r4" "0 \<le> r4" "r4 < 1461"
    using r100b by (simp_all add: r4_def c_def minus_mult_div_eq_mod)
  show c24: "0 \<le> c \<and> c \<le> 24" using cq r100b by auto
  have n1: "0 \<le> r4 div 365" "r4 div 365 \<le> 4" using cq by auto
  have e: "e = (if r4 div 365 = 4 then 3 else r4 div 365)" unfolding e_def by (rule cut3 [OF n1])
  then show e3: "0 \<le> e \<and> e \<le> 3" using n1 by auto
  have q1: "r4 = 365 * (r4 div 365) + r4 mod 365" "0 \<le> r4 mod 365" "r4 mod 365 < 365" by simp_all
  have yb: "0 \<le> yday" "yday \<le> 365" and fully: "yday = 365 \<Longrightarrow> r4 = 1460 \<and> e = 3"
    using e q1 cq unfolding yday_def by (auto split: if_splits)
  show "0 \<le> yday" "yday \<le> 365" by (fact yb)+
  show "d = 146097 * a + 36524 * b + 1461 * c + 365 * e + yday"
    by (simp add: yday_def r4_def r100_def r400_def)
  show "yday = 365 \<Longrightarrow> e = 3 \<and> (c = 24 \<longrightarrow> b = 3)"
    using fully cq full by auto
qed

lemma year_split:
  fixes a b c e :: int
  assumes "0 \<le> b" "b \<le> 3" "0 \<le> c" "c \<le> 24" "0 \<le> e" "e \<le> 3"
  defines "p \<equiv> 400 * a + 100 * b + 4 * c + e"
  shows "p div 4 = 100 * a + 25 * b + c" "p div 100 = 4 * a + b" "p div 400 = a"
proof -
  show "p div 4 = 100 * a + 25 * b + c"
    by (rule int_div_pos_eq [where r = e]) (use assms in auto)
  show "p div 100 = 4 * a + b"
    by (rule int_div_pos_eq [where r = "4 * c + e"]) (use assms in auto)
  show "p div 400 = a"
    by (rule int_div_pos_eq [where r = "100 * b + 4 * c + e"]) (use assms in auto)
qed

lemma leap_365:
  fixes a b c :: int
  assumes "0 \<le> b" "b \<le> 3" "0 \<le> c" "c \<le> 24" "c = 24 \<longrightarrow> b = 3"
  shows "is_leap (400 * a + 100 * b + 4 * c + 3 + 1)"
proof (cases "c = 24")
  case True
  with assms have "400 * a + 100 * b + 4 * c + 3 + 1 = 400 * (a + 1)" by simp
  then show ?thesis unfolding is_leap_def by (simp only: mod_mult_self1_is_0) presburger
next
  case False
  have "(400 * a + 100 * b + 4 * c + 3 + 1) mod 100 = 4 * c + 4"
    by (rule int_mod_pos_eq [where q = "4 * a + b"]) (use assms False in auto)
  with assms have "(400 * a + 100 * b + 4 * c + 3 + 1) mod 100 \<noteq> 0" by linarith
  moreover have "(400 * a + 100 * b + 4 * c + 3 + 1) mod 4 = 0" by presburger
  ultimately show ?thesis by (simp add: is_leap_def)
qed

text \<open>Every day is a day of a year, counted from that year's first day.\<close>

lemma civil_shape:
  obtains y yday m dd where "civil_of_days d = (y, m, dd)" "month_day (is_leap y) yday = (m, dd)"
    "0 \<le> yday" "yday \<le> 364 \<or> (is_leap y \<and> yday = 365)"
    "d = 365 * (y - 1) + (y - 1) div 4 - (y - 1) div 100 + (y - 1) div 400 + yday"
proof -
  define a where "a = d div 146097"
  define r400 where "r400 = d - 146097 * a"
  define b where "b = r400 div 36524 - r400 div 36524 div 4"
  define r100 where "r100 = r400 - 36524 * b"
  define c where "c = r100 div 1461"
  define r4 where "r4 = r100 - 1461 * c"
  define e where "e = r4 div 365 - r4 div 365 div 4"
  define yday where "yday = r4 - 365 * e"
  note cyc = cycles [of d, folded a_def, folded r400_def, folded b_def, folded r100_def, folded c_def, folded r4_def, folded e_def, folded yday_def]
  let ?p = "400 * a + 100 * b + 4 * c + e"
  let ?leap = "is_leap (?p + 1)"
  obtain m dd where md: "month_day ?leap yday = (m, dd)" by fastforce
  have b: "0 \<le> b" "b \<le> 3" and c: "0 \<le> c" "c \<le> 24" and e: "0 \<le> e" "e \<le> 3"
    using cyc(1-3) by simp_all
  have year: "yday \<le> 364 \<or> (?leap \<and> yday = 365)"
  proof (cases "yday = 365")
    case True
    with cyc(7) have "e = 3" "c = 24 \<longrightarrow> b = 3" by simp_all
    with leap_365 [of b c a] b c True show ?thesis by simp
  next
    case False
    with cyc(5) show ?thesis by linarith
  qed
  have "civil_of_days d = (let (m, dd) = month_day ?leap yday in (?p + 1, m, dd))"
    by (simp only: civil_of_days_def Let_def yday_def e_def r4_def c_def r100_def b_def r400_def a_def)
  with md have civ: "civil_of_days d = (?p + 1, m, dd)" by simp
  have p: "?p + 1 - 1 = ?p" by simp
  have "d = 365 * ?p + ?p div 4 - ?p div 100 + ?p div 400 + yday"
    unfolding year_split [OF b c e] using cyc(6) by (simp add: algebra_simps)
  with civ md cyc(4) year show ?thesis by (intro that [of "?p + 1" m dd yday]) (simp_all only: p)
qed

lemma civil_ranges:
  "case civil_of_days d of (y, m, dd) \<Rightarrow> 1 \<le> m \<and> m \<le> 12 \<and> 1 \<le> dd \<and> dd \<le> 31"
  and civil_roundtrip:
  "case civil_of_days d of (y, m, dd) \<Rightarrow> days_of_civil y m dd = d"
proof -
  obtain y yday m dd where civ: "civil_of_days d = (y, m, dd)" and md: "month_day (is_leap y) yday = (m, dd)"
    and yday: "0 \<le> yday" "yday \<le> 364 \<or> (is_leap y \<and> yday = 365)"
    and d: "d = 365 * (y - 1) + (y - 1) div 4 - (y - 1) div 100 + (y - 1) div 400 + yday"
    by (rule civil_shape)
  from month_day_table [OF yday] md
  have m: "1 \<le> m" "m \<le> 12" "1 \<le> dd" "dd \<le> 31"
    and sum: "daysBefore (m - 1) + (if is_leap y \<and> 2 \<le> m - 1 then 1 else 0) + (dd - 1) = yday" by auto
  have m12: "(m - 1) div 12 = 0" "(m - 1) mod 12 = m - 1" using m by auto
  have "days_of_civil y m dd = 365 * (y - 1) + (y - 1) div 4 - (y - 1) div 100 + (y - 1) div 400 + yday"
    using sum unfolding days_of_civil_def Let_def m12 by simp
  then show "case civil_of_days d of (y, m, dd) \<Rightarrow> days_of_civil y m dd = d" using civ d by simp
  show "case civil_of_days d of (y, m, dd) \<Rightarrow> 1 \<le> m \<and> m \<le> 12 \<and> 1 \<le> dd \<and> dd \<le> 31"
    using civ m by simp
qed

lemma days_of_civil_add: "days_of_civil y m (d + n) = days_of_civil y m d + n"
  by (simp add: days_of_civil_def Let_def)


section \<open>Instants in a location\<close>

text \<open>Seconds between year 1 and 1970: \<open>internalToUnix\<close> of Go's time package, 719162 days.\<close>

definition unix_epoch :: int where
  "unix_epoch = 62135596800"

definition unix_of :: "time \<Rightarrow> int" where
  "unix_of t = t div 1000000000 - unix_epoch"

definition zone_offset :: "location \<Rightarrow> time \<Rightarrow> int" where
  "zone_offset loc t = fst (loc (unix_of t))"

text \<open>Seconds of local time since the start of year 1, its day number and its clock.\<close>

definition local_secs :: "location \<Rightarrow> time \<Rightarrow> int" where
  "local_secs loc t = t div 1000000000 + zone_offset loc t"

definition local_day :: "location \<Rightarrow> time \<Rightarrow> int" where
  "local_day loc t = local_secs loc t div 86400"

definition clock_secs :: "location \<Rightarrow> time \<Rightarrow> int" where
  "clock_secs loc t = local_secs loc t mod 86400"

definition nanosecond :: "time \<Rightarrow> int" where
  "nanosecond t = t mod 1000000000"

text \<open>\<open>t.Date()\<close> and \<open>t.Weekday()\<close> (Sunday is 0; 0001-01-01 was a Monday).\<close>

definition date_of :: "location \<Rightarrow> time \<Rightarrow> int \<times> int \<times> int" where
  "date_of loc t = civil_of_days (local_day loc t)"

definition weekday_of_day :: "int \<Rightarrow> int" where
  "weekday_of_day d = (d + 1) mod 7"

definition Weekday :: "location \<Rightarrow> time \<Rightarrow> int" where
  "Weekday loc t = weekday_of_day (local_day loc t)"

text \<open>
  The Unix second of a local reading, as \<open>time.Date\<close> finds it: look the offset up as if the
  reading were UTC, apply it, and if the result is outside the interval of that offset look up again.
\<close>

definition unix_of_local :: "location \<Rightarrow> int \<Rightarrow> int" where
  "unix_of_local loc u =
     (let (off, start, stop) = loc u in
      if off \<noteq> 0 then
        (let utc = u - off in
         if utc < start \<or> stop \<le> utc then u - fst (loc utc) else u - off)
      else u)"

definition Date :: "int \<Rightarrow> int \<Rightarrow> int \<Rightarrow> int \<Rightarrow> int \<Rightarrow> int \<Rightarrow> int \<Rightarrow> location \<Rightarrow> time" where
  "Date y mo d h mi s ns loc =
     (unix_of_local loc (days_of_civil y mo d * 86400 + h * 3600 + mi * 60 + s - unix_epoch)
        + unix_epoch) * 1000000000 + ns"

definition AddDate :: "int \<Rightarrow> int \<Rightarrow> int \<Rightarrow> location \<Rightarrow> time \<Rightarrow> time" where
  "AddDate years months days loc t =
     (let (y, mo, d) = date_of loc t; c = clock_secs loc t in
      Date (y + years) (mo + months) (d + days) (c div 3600) (c mod 3600 div 60) (c mod 60)
        (nanosecond t) loc)"

text \<open>A location with one offset for ever (\<open>time.FixedZone\<close>), and UTC.\<close>

definition FixedZone :: "int \<Rightarrow> location" where
  "FixedZone off = (\<lambda>_. (off, - (2 ^ 63), 2 ^ 63 - 1))"

definition UTC :: location where
  "UTC = FixedZone 0"

text \<open>The offset of \<open>loc\<close> is \<open>off\<close> for the Unix seconds from \<open>lo\<close> up to \<open>hi\<close>.\<close>

definition steady :: "location \<Rightarrow> int \<Rightarrow> int \<Rightarrow> int \<Rightarrow> bool" where
  "steady loc off lo hi \<longleftrightarrow> (\<forall>u. lo \<le> u \<and> u < hi \<longrightarrow> fst (loc u) = off)"

lemma steady_FixedZone [simp]: "steady (FixedZone off) off lo hi"
  by (simp add: steady_def FixedZone_def)

lemma steadyD: "steady loc off lo hi \<Longrightarrow> lo \<le> u \<Longrightarrow> u < hi \<Longrightarrow> fst (loc u) = off"
  by (simp add: steady_def)

lemma unix_of_local_steady:
  assumes "steady loc off lo hi" "lo \<le> u" "u < hi" "lo \<le> u - off" "u - off < hi"
  shows "unix_of_local loc u = u - off"
  using steadyD [OF assms(1-3)] steadyD [OF assms(1,4,5)]
  by (auto simp: unix_of_local_def Let_def split: prod.splits)

text \<open>Date on a calendar day, in a stretch of time where the offset does not change.\<close>

lemma Date_steady:
  assumes "steady loc off lo hi"
    and "u = days_of_civil y mo d * 86400 + h * 3600 + mi * 60 + s - unix_epoch"
    and "lo \<le> u" "u < hi" "lo \<le> u - off" "u - off < hi"
  shows "Date y mo d h mi s ns loc = (u - off + unix_epoch) * 1000000000 + ns"
  using unix_of_local_steady [OF assms(1,3-6)] assms(2) by (simp add: Date_def)

lemma local_secs_of:
  assumes "0 \<le> ns" "ns < 1000000000" "zone_offset loc (s * 1000000000 + ns) = off"
  shows "local_secs loc (s * 1000000000 + ns) = s + off"
  using assms by (simp add: local_secs_def)

lemma unix_of_secs: "0 \<le> ns \<Longrightarrow> ns < 1000000000 \<Longrightarrow> unix_of (s * 1000000000 + ns) = s - unix_epoch"
  by (simp add: unix_of_def)

section \<open>RFC 3339 with nanoseconds, in UTC\<close>

definition pad :: "nat \<Rightarrow> int \<Rightarrow> string" where
  "pad n v = (let s = Itoa v in replicate (n - length s) (CHR ''0'') @ s)"

definition rfc3339_nano :: "time \<Rightarrow> string" where
  "rfc3339_nano t =
     (let (y, mo, d) = date_of UTC t; c = clock_secs UTC t; ns = nanosecond t;
          frac = rev (dropWhile (\<lambda>ch. ch = CHR ''0'') (rev (pad 9 ns)))
      in pad 4 y @ ''-'' @ pad 2 mo @ ''-'' @ pad 2 d @ ''T'' @ pad 2 (c div 3600) @ '':'' @
         pad 2 (c mod 3600 div 60) @ '':'' @ pad 2 (c mod 60) @
         (if ns = 0 then [] else CHR ''.'' # frac) @ ''Z'')"

end
