(* ===== verification/GoParse.thy ===== *)
theory GoParse
  imports GoTime
begin

text \<open>
  The two parsers of Go's \<open>time\<close> that the program calls: \<open>ParseDuration\<close>, which reads the settings of the environment, with
  its 64-bit overflow checks and its \<open>float64\<close> arithmetic for fractions, and \<open>Parse\<close> for the layout RFC 3339, which reads the
  times in queries and JSON bodies.
\<close>

section \<open>\<open>float64\<close>\<close>

text \<open>
  A non-negative \<open>float64\<close> is \<open>(m, e)\<close> for \<open>m * 2 ^ e\<close>. A quotient is rounded to 53 bits, to the nearest, ties to even; the numbers
  here are far from the ends of the exponent's range.
\<close>

definition round_div :: "int \<Rightarrow> int \<Rightarrow> int" where
  "round_div n d = (let q = n div d; r = n mod d in if 2 * r < d \<or> 2 * r = d \<and> even q then q else q + 1)"

function bit_count :: "int \<Rightarrow> int" where
  "bit_count n = (if n \<le> 0 then 0 else bit_count (n div 2) + 1)"
  by pat_completeness auto
termination
  by (relation "measure nat") auto

declare bit_count.simps [simp del]

definition scaled :: "int \<Rightarrow> int \<Rightarrow> int" where
  "scaled n e = (if 0 \<le> e then n * 2 ^ nat e else n)"

definition to_float :: "int \<Rightarrow> int \<Rightarrow> int \<times> int" where
  "to_float n d =
     (if n = 0 then (0, 0)
      else let k = bit_count n - bit_count d;
               low = (if scaled n (- k) < scaled d k then k - 1 else k);
               e = low - 52
           in (round_div (scaled n (- e)) (scaled d e), e))"

definition float_mult :: "int \<times> int \<Rightarrow> int \<times> int \<Rightarrow> int \<times> int" where
  "float_mult x y = (let e = snd x + snd y; (m, k) = to_float (fst x * fst y) 1 in (m, k + e))"

definition float_floor :: "int \<times> int \<Rightarrow> int" where
  "float_floor x = scaled (fst x) (snd x) div (if snd x < 0 then 2 ^ nat (- snd x) else 1)"

section \<open>\<open>ParseDuration\<close>\<close>

fun leading_int :: "int \<Rightarrow> string \<Rightarrow> (int \<times> string) option" where
  "leading_int x [] = Some (x, [])"
| "leading_int x (c # cs) =
     (if \<not> is_digit c then Some (x, c # cs)
      else if 922337203685477580 < x then None
      else if 9223372036854775808 < x * 10 + digit_val c then None
      else leading_int (x * 10 + digit_val c) cs)"

fun leading_fraction :: "int \<Rightarrow> int \<Rightarrow> bool \<Rightarrow> string \<Rightarrow> int \<times> int \<times> string" where
  "leading_fraction x scale overflow [] = (x, scale, [])"
| "leading_fraction x scale overflow (c # cs) =
     (if \<not> is_digit c then (x, scale, c # cs)
      else if overflow \<or> 922337203685477580 < x \<or> 9223372036854775808 < x * 10 + digit_val c
      then leading_fraction x scale True cs
      else leading_fraction (x * 10 + digit_val c) (scale * 10) False cs)"

text \<open>\<open>us\<close> may also be written with the micro sign or the Greek letter mu, each two bytes of UTF-8.\<close>

definition unit_of :: "string \<Rightarrow> int option" where
  "unit_of u =
     (if u = ''ns'' then Some 1
      else if u = ''us'' \<or> u = [char_of (194::nat), char_of (181::nat), CHR ''s''] \<or> u = [char_of (206::nat), char_of (188::nat), CHR ''s'']
      then Some 1000
      else if u = ''ms'' then Some 1000000 else if u = ''s'' then Some second
      else if u = ''m'' then Some minute else if u = ''h'' then Some hour else None)"

definition unit_char :: "char \<Rightarrow> bool" where
  "unit_char c \<longleftrightarrow> c \<noteq> CHR ''.'' \<and> \<not> is_digit c"

definition fraction_ns :: "int \<Rightarrow> int \<Rightarrow> int \<Rightarrow> int" where
  "fraction_ns f unit scale = float_floor (float_mult (to_float f 1) (to_float unit scale))"

text \<open>The number at the front of the text: its integral part, fraction, scale of the fraction, and the rest.\<close>

definition leading_number :: "string \<Rightarrow> (int \<times> int \<times> int \<times> string) option" where
  "leading_number s =
     (if s = [] \<or> \<not> (hd s = CHR ''.'' \<or> is_digit (hd s)) then None
      else case leading_int 0 s of None \<Rightarrow> None | Some (v, s1) \<Rightarrow>
        if s1 \<noteq> [] \<and> hd s1 = CHR ''.''
        then (let (f, scale, s2) = leading_fraction 0 1 False (tl s1) in
              if length s1 = length s \<and> length s2 = length (tl s1) then None else Some (v, f, scale, s2))
        else if length s1 = length s then None else Some (v, 0, 1, s1))"

lemma leading_int_length: "leading_int x s = Some (v, s1) \<Longrightarrow> length s1 \<le> length s"
  by (induction x s rule: leading_int.induct) (auto split: if_splits)

lemma leading_fraction_length: "leading_fraction x scale ov s = (f, sc, s2) \<Longrightarrow> length s2 \<le> length s"
  by (induction x scale ov s rule: leading_fraction.induct) (auto split: if_splits)

lemma leading_number_length: "leading_number s = Some (v, f, scale, s2) \<Longrightarrow> length s2 \<le> length s"
  by (cases s)
    (fastforce simp: leading_number_def dest: leading_int_length leading_fraction_length split: if_splits option.splits prod.splits)+

function duration_loop :: "int \<Rightarrow> string \<Rightarrow> int option" where
  "duration_loop d s =
     (if s = [] then Some d
      else case leading_number s of None \<Rightarrow> None | Some (v, f, scale, s2) \<Rightarrow>
        if takeWhile unit_char s2 = [] then None
        else case unit_of (takeWhile unit_char s2) of None \<Rightarrow> None | Some unit \<Rightarrow>
          if 9223372036854775808 div unit < v then None
          else let v1 = (if 0 < f then v * unit + fraction_ns f unit scale else v * unit);
                   d1 = (d + v1) mod 2 ^ 64
               in if 9223372036854775808 < v1 \<or> 9223372036854775808 < d1 then None
                  else duration_loop d1 (dropWhile unit_char s2))"
  by pat_completeness auto
termination
proof (relation "measure (\<lambda>(d, s). length s)", goal_cases)
  case (2 d s x v x1 f x2 scale s2 unit v1 d1)
  then have "leading_number s = Some (v, f, scale, s2)" by auto
  then have "length s2 \<le> length s" by (rule leading_number_length)
  moreover have "length (dropWhile unit_char s2) < length s2"
    using 2 by (cases s2) (auto simp: le_imp_less_Suc length_dropWhile_le split: if_splits)
  ultimately show ?case by simp
qed simp

declare duration_loop.simps [simp del]

definition ParseDuration :: "string \<Rightarrow> int option" where
  "ParseDuration s =
     (let neg = (s \<noteq> [] \<and> hd s = CHR ''-'');
          s1 = (if s \<noteq> [] \<and> (hd s = CHR ''-'' \<or> hd s = CHR ''+'') then tl s else s)
      in if s1 = ''0'' then Some 0
         else if s1 = [] then None
         else case duration_loop 0 s1 of
             None \<Rightarrow> None
           | Some d \<Rightarrow> if neg then Some (- d) else if 9223372036854775807 < d then None else Some d)"

lemma duration_examples:
  "ParseDuration ''1h30m'' = Some (90 * minute)" "ParseDuration ''1.5s'' = Some 1500000000" "ParseDuration ''-2ms'' = Some (-2000000)"
  "ParseDuration ''90'' = None" "ParseDuration ''.s'' = None" "ParseDuration ''9223372036854775808ns'' = None"
  "ParseDuration ''0.3333333333333333333h'' = Some (20 * minute)"
  by code_simp+

section \<open>RFC 3339\<close>

text \<open>One or two digits; exactly two when \<open>fixed\<close>.\<close>

definition getnum :: "bool \<Rightarrow> string \<Rightarrow> (int \<times> string) option" where
  "getnum fixed s =
     (case s of [] \<Rightarrow> None
      | a # s1 \<Rightarrow> if \<not> is_digit a then None
         else (case s1 of
             b # s2 \<Rightarrow> if is_digit b then Some (digit_val a * 10 + digit_val b, s2) else if fixed then None else Some (digit_val a, s1)
           | [] \<Rightarrow> if fixed then None else Some (digit_val a, s1)))"

definition expect_char :: "char \<Rightarrow> string \<Rightarrow> string option" where
  "expect_char c s = (if s \<noteq> [] \<and> hd s = c then Some (tl s) else None)"

definition in_range :: "int \<Rightarrow> int \<Rightarrow> int \<times> string \<Rightarrow> (int \<times> string) option" where
  "in_range lo hi x = (if lo \<le> fst x \<and> fst x \<le> hi then Some x else None)"

definition read_year :: "string \<Rightarrow> (int \<times> string) option" where
  "read_year s = (if length s < 4 \<or> \<not> list_all is_digit (take 4 s) then None else Some (read_digits 0 (take 4 s), drop 4 s))"

text \<open>A fraction of a second is optional in the text, after a full stop or a comma; digits after the ninth are dropped.\<close>

definition read_fraction :: "string \<Rightarrow> int \<times> string" where
  "read_fraction s =
     (if 2 \<le> length s \<and> (hd s = CHR ''.'' \<or> hd s = CHR '','') \<and> is_digit (s ! 1)
      then (let ds = take 9 (takeWhile is_digit (tl s)) in
            (read_digits 0 ds * 10 ^ (9 - length ds), dropWhile is_digit (tl s)))
      else (0, s))"

text \<open>\<open>Z\<close>, or a sign, hours and minutes; the bounds 24 and 60 are Go's.\<close>

definition read_zone :: "string \<Rightarrow> (int \<times> string) option" where
  "read_zone s =
     (if s \<noteq> [] \<and> hd s = CHR ''Z'' then Some (0, tl s)
      else if length s < 6 \<or> s ! 3 \<noteq> CHR '':'' then None
      else case (getnum True (take 2 (drop 1 s)), getnum True (take 2 (drop 4 s))) of
          (Some (hr, _), Some (mm, _)) \<Rightarrow>
            if 24 < hr \<or> 60 < mm then None
            else if hd s = CHR ''+'' then Some ((hr * 60 + mm) * 60, drop 6 s)
            else if hd s = CHR ''-'' then Some (- ((hr * 60 + mm) * 60), drop 6 s) else None
        | _ \<Rightarrow> None)"

definition days_in :: "int \<Rightarrow> int \<Rightarrow> int" where
  "days_in m y = (if m = 2 \<and> is_leap y then 29 else daysBefore m - daysBefore (m - 1))"

definition Parse_RFC3339 :: "string \<Rightarrow> time option" where
  "Parse_RFC3339 s =
     Option.bind (read_year s) (\<lambda>(year, s).
     Option.bind (expect_char (CHR ''-'') s) (\<lambda>s.
     Option.bind (Option.bind (getnum True s) (in_range 1 12)) (\<lambda>(month, s).
     Option.bind (expect_char (CHR ''-'') s) (\<lambda>s.
     Option.bind (getnum True s) (\<lambda>(day, s).
     Option.bind (expect_char (CHR ''T'') s) (\<lambda>s.
     Option.bind (Option.bind (getnum False s) (in_range 0 23)) (\<lambda>(hr, s).
     Option.bind (expect_char (CHR '':'') s) (\<lambda>s.
     Option.bind (Option.bind (getnum True s) (in_range 0 59)) (\<lambda>(mi, s).
     Option.bind (expect_char (CHR '':'') s) (\<lambda>s.
     Option.bind (Option.bind (getnum True s) (in_range 0 59)) (\<lambda>(sec, s).
     case read_fraction s of (nsec, s) \<Rightarrow>
     Option.bind (read_zone s) (\<lambda>(offset, s).
     if s \<noteq> [] \<or> day < 1 \<or> days_in month year < day then None
     else Some (Date year month day hr mi sec nsec UTC - offset * second)))))))))))))"

lemma rfc3339_examples:
  "Parse_RFC3339 ''0001-01-01T00:00:00Z'' = Some 0" "Parse_RFC3339 ''0001-01-01T01:00:00.5+01:00'' = Some 500000000"
  "Parse_RFC3339 ''2023-02-29T00:00:00Z'' = None" "Parse_RFC3339 ''0001-01-01T2:00:00Z'' = Some (2 * hour)"
  "Parse_RFC3339 ''2024-02-29T00:00:00'' = None"
  by code_simp+

section \<open>Reading what was written\<close>

lemma digit_val_bounds: "is_digit c \<Longrightarrow> 0 \<le> digit_val c \<and> digit_val c \<le> 9"
  by (simp add: is_digit_def digit_val_def)

lemma read_digits_mono: "0 \<le> n \<Longrightarrow> list_all is_digit ds \<Longrightarrow> n \<le> read_digits n ds"
proof (induction ds arbitrary: n)
  case (Cons c ds)
  then have "0 \<le> digit_val c" using digit_val_bounds by simp
  moreover have "n * 10 + digit_val c \<le> read_digits (n * 10 + digit_val c) ds" using Cons calculation by simp
  ultimately show ?case using Cons.prems(1) by simp
qed simp

lemma leading_int_digits:
  assumes "0 \<le> x" "list_all is_digit ds" "read_digits x ds \<le> 9223372036854775807" "s = [] \<or> \<not> is_digit (hd s)"
  shows "leading_int x (ds @ s) = Some (read_digits x ds, s)"
  using assms
proof (induction ds arbitrary: x)
  case Nil
  then show ?case by (cases s) auto
next
  case (Cons c ds)
  then have c: "0 \<le> digit_val c" "is_digit c" using digit_val_bounds by simp_all
  then have "x * 10 + digit_val c \<le> read_digits x (c # ds)" using Cons.prems read_digits_mono [of "x * 10 + digit_val c" ds] by simp
  then have "x * 10 + digit_val c \<le> 9223372036854775807" using Cons.prems by linarith
  then show ?case using c Cons.IH [of "x * 10 + digit_val c"] Cons.prems by simp
qed

lemma unit_facts:
  assumes "unit_of u = Some unit"
  shows "0 < unit" "takeWhile unit_char u = u" "dropWhile unit_char u = []" "u \<noteq> []" "\<not> is_digit (hd u)" "hd u \<noteq> CHR ''.''"
proof -
  let ?us = "[''ns'', ''us'', [char_of (194::nat), char_of (181::nat), CHR ''s''], [char_of (206::nat), char_of (188::nat), CHR ''s''], ''ms'',
      ''s'', ''m'', ''h'']"
  let ?P = "\<lambda>u. takeWhile unit_char u = u \<and> dropWhile unit_char u = [] \<and> u \<noteq> [] \<and> \<not> is_digit (hd u) \<and> hd u \<noteq> CHR ''.''"
  have "list_all ?P ?us" by code_simp
  moreover have "u \<in> set ?us" using assms by (auto simp: unit_of_def split: if_splits)
  ultimately have "?P u" unfolding list_all_iff by (rule bspec)
  then show "takeWhile unit_char u = u" "dropWhile unit_char u = []" "u \<noteq> []" "\<not> is_digit (hd u)" "hd u \<noteq> CHR ''.''" by blast+
  show "0 < unit" using assms by (auto simp: unit_of_def duration_defs split: if_splits)
qed

lemma duration_loop_nil: "duration_loop d [] = Some d"
  by (subst duration_loop.simps) simp

text \<open>A whole number of a unit is read exactly.\<close>

lemma ParseDuration_whole:
  assumes "unit_of u = Some unit" "0 \<le> n" "n * unit \<le> 9223372036854775807"
  shows "ParseDuration (Itoa n @ u) = Some (n * unit)"
proof -
  note u = unit_facts [OF assms(1)]
  have nu: "n * 1 \<le> n * unit" using assms(2) u(1) by (intro mult_left_mono) auto
  then have bound: "n \<le> 9223372036854775807" using assms(3) by linarith
  have ds: "list_all is_digit (int_digits n)" "read_digits 0 (int_digits n) = n" "is_digit (hd (int_digits n))"
    using assms(2) by (simp_all add: int_digits_digits read_int_digits hd_int_digits)
  have lead: "leading_int 0 (int_digits n @ u) = Some (n, u)"
    using leading_int_digits [of 0 "int_digits n" u] ds bound u(5) by simp
  then have num: "leading_number (int_digits n @ u) = Some (n, 0, 1, u)"
    using ds(3) u(4,6) by (simp add: leading_number_def)
  have fits: "\<not> 9223372036854775808 div unit < n"
    using zdiv_mono1 [of "n * unit" 9223372036854775808 unit] assms(3) u(1) by simp
  have range: "0 \<le> n * unit" "n * unit < 18446744073709551616" using assms(2,3) u(1) by auto
  have "duration_loop 0 (int_digits n @ u) = Some (n * unit)"
    by (subst duration_loop.simps)
      (use assms fits range in \<open>simp add: num u(2-4) assms(1) duration_loop_nil mod_pos_pos_trivial\<close>)
  moreover have "int_digits n @ u \<noteq> ''0''" using u(4) by (cases "int_digits n"; cases "tl (int_digits n)") auto
  moreover have "hd (int_digits n @ u) \<noteq> CHR ''-''" "hd (int_digits n @ u) \<noteq> CHR ''+''"
    using digits_not_special [OF ds(3)] by simp_all
  ultimately show ?thesis using assms(2,3) by (simp add: ParseDuration_def Itoa_def Let_def)
qed

lemma read_digits_zeros: "read_digits 0 (replicate k (CHR ''0'') @ s) = read_digits 0 s"
  by (induction k) (simp_all add: digit_val_def)

lemma int_digits_length: "0 \<le> v \<Longrightarrow> v < 10 ^ n \<Longrightarrow> 0 < n \<Longrightarrow> length (int_digits v) \<le> n"
proof (induction n arbitrary: v)
  case (Suc n)
  show ?case
  proof (cases "v < 10")
    case True
    then show ?thesis by (subst int_digits.simps) simp
  next
    case False
    then have "v div 10 < 10 ^ n" "0 < n" using Suc.prems by (cases n; simp)+
    then have "length (int_digits (v div 10)) \<le> n" using Suc by simp
    then show ?thesis using False by (subst int_digits.simps) simp
  qed
qed simp

lemma pad_digits:
  assumes "0 \<le> v" "v < 10 ^ n" "0 < n"
  shows "length (pad n v) = n" "list_all is_digit (pad n v)" "read_digits 0 (pad n v) = v"
proof -
  have v: "pad n v = replicate (n - length (int_digits v)) (CHR ''0'') @ int_digits v"
    using assms(1) by (simp add: pad_def Itoa_def Let_def)
  have "list_all is_digit (replicate k (CHR ''0''))" for k by (induction k) (simp_all add: is_digit_def)
  then show "list_all is_digit (pad n v)" unfolding v using int_digits_digits [OF assms(1)] by simp
  show "length (pad n v) = n" unfolding v using int_digits_length [OF assms] by simp
  show "read_digits 0 (pad n v) = v" unfolding v by (simp add: read_digits_zeros read_int_digits assms(1))
qed

lemma getnum_pad:
  assumes "0 \<le> v" "v \<le> 99"
  shows "getnum fixed (pad 2 v @ s) = Some (v, s)"
proof -
  note p = pad_digits [of v 2]
  obtain a b where ab: "pad 2 v = [a, b]"
    using p(1) assms by (cases "pad 2 v"; cases "tl (pad 2 v)"; cases "tl (tl (pad 2 v))") auto
  show ?thesis using p(2,3) assms unfolding ab by (simp add: getnum_def)
qed

lemma read_year_pad: "0 \<le> y \<Longrightarrow> y \<le> 9999 \<Longrightarrow> read_year (pad 4 y @ s) = Some (y, s)"
  using pad_digits [of y 4] by (simp add: read_year_def)

text \<open>Dropping the zeros at the end of a fraction.\<close>

definition strip_zeros :: "string \<Rightarrow> string" where
  "strip_zeros ds = rev (dropWhile (\<lambda>ch. ch = CHR ''0'') (rev ds))"

lemma strip_zeros_length: "length (strip_zeros ds) \<le> length ds"
  using length_dropWhile_le [of _ "rev ds"] by (simp add: strip_zeros_def)

lemma strip_zeros_value: "read_digits 0 (strip_zeros ds) * 10 ^ (length ds - length (strip_zeros ds)) = read_digits 0 ds"
proof (induction ds rule: rev_induct)
  case (snoc c ds)
  show ?case
  proof (cases "c = CHR ''0''")
    case True
    have s: "strip_zeros (ds @ [c]) = strip_zeros ds" using True by (simp add: strip_zeros_def)
    have "length (ds @ [c]) - length (strip_zeros ds) = Suc (length ds - length (strip_zeros ds))"
      using strip_zeros_length [of ds] by simp
    moreover have "read_digits 0 (ds @ [c]) = read_digits 0 ds * 10" using True by (simp add: read_digits_append digit_val_def)
    ultimately show ?thesis unfolding s using snoc by simp
  next
    case False
    then show ?thesis by (simp add: strip_zeros_def)
  qed
qed (simp add: strip_zeros_def)

lemma strip_zeros_digits: "list_all is_digit ds \<Longrightarrow> list_all is_digit (strip_zeros ds)"
  by (auto simp: strip_zeros_def list_all_iff dest: set_dropWhileD)

lemma read_fraction_printed:
  assumes "0 \<le> ns" "ns < 1000000000"
  shows "read_fraction ((if ns = 0 then [] else CHR ''.'' # strip_zeros (pad 9 ns)) @ ''Z'') = (ns, ''Z'')"
proof (cases "ns = 0")
  case True
  then show ?thesis by (simp add: read_fraction_def)
next
  case False
  note p = pad_digits [of ns 9]
  let ?f = "strip_zeros (pad 9 ns)"
  have f: "list_all is_digit ?f" "length ?f \<le> 9" "read_digits 0 ?f * 10 ^ (9 - length ?f) = ns"
    using p assms strip_zeros_digits [of "pad 9 ns"] strip_zeros_length [of "pad 9 ns"] strip_zeros_value [of "pad 9 ns"] by simp_all
  then have ne: "?f \<noteq> []" using False by auto
  have "is_digit (hd ?f)" using f(1) ne by (cases ?f) auto
  moreover have split: "takeWhile is_digit (?f @ ''Z'') = ?f" "dropWhile is_digit (?f @ ''Z'') = ''Z''"
    using f(1) by (auto simp: takeWhile_append dropWhile_append list_all_iff is_digit_def)
  ultimately show ?thesis using False f ne by (simp add: read_fraction_def Let_def nth_append hd_conv_nth)
qed

lemma month_day_days:
  assumes "0 \<le> yday" "yday \<le> 364 \<or> (is_leap y \<and> yday = 365)" "month_day (is_leap y) yday = (m, d)"
  shows "1 \<le> m \<and> m \<le> 12 \<and> 1 \<le> d \<and> d \<le> days_in m y"
proof -
  let ?P = "\<lambda>leap yd. case month_day leap yd of (m, d) \<Rightarrow> 1 \<le> m \<and> m \<le> 12 \<and> 1 \<le> d
      \<and> d \<le> (if m = 2 \<and> leap then 29 else daysBefore m - daysBefore (m - 1))"
  have "list_all (?P False) [0..364]" "list_all (?P True) [0..365]" by code_simp+
  then have table: "\<forall>yd \<in> set [0..364]. ?P False yd" "\<forall>yd \<in> set [0..365]. ?P True yd" by (simp_all only: list_all_iff)
  have "?P (is_leap y) yday"
  proof (cases "is_leap y")
    case True
    have "yday \<in> set [0..365]" using assms(1,2) by auto
    then show ?thesis unfolding eqTrueI [OF True] by (rule bspec [OF table(2)])
  next
    case False
    have "yday \<in> set [0..364]" using assms(1,2) False by auto
    moreover have "is_leap y = False" using False by simp
    ultimately show ?thesis by (simp only:) (rule bspec [OF table(1)])
  qed
  then show ?thesis using assms(3) by (simp add: days_in_def)
qed

lemma year_of_days:
  fixes p yday d :: int
  assumes "d = 365 * p + p div 4 - p div 100 + p div 400 + yday" "0 \<le> yday" "yday \<le> 365" "0 \<le> d" "d < 3652059"
  shows "0 \<le> p \<and> p \<le> 9998"
proof -
  have hundred: "100 * (p div 100) + p mod 100 = p" "0 \<le> p mod 100" "p mod 100 \<le> 99" by (simp_all add: pos_mod_bound zle_diff1_eq [symmetric])
  have "0 \<le> p"
  proof (rule ccontr)
    assume "\<not> 0 \<le> p"
    then have "p \<le> -1" "p div 4 \<le> -1" "p div 400 \<le> -1" using zdiv_mono1 [of p "-1" 4] zdiv_mono1 [of p "-1" 400] by simp_all
    then show False using hundred assms(1,3,4) by linarith
  qed
  moreover have "p \<le> 9998"
  proof (rule ccontr)
    assume "\<not> p \<le> 9998"
    then have "9999 \<le> p" "2499 \<le> p div 4" "24 \<le> p div 400" using zdiv_mono1 [of 9999 p 4] zdiv_mono1 [of 9999 p 400] by simp_all
    then show False using hundred assms(1,2,5) by linarith
  qed
  ultimately show ?thesis by simp
qed

lemma year_bounds:
  assumes "civil_of_days d = (y, m, dd)" "0 \<le> d" "d < 3652059"
  shows "1 \<le> y \<and> y \<le> 9999 \<and> 1 \<le> m \<and> m \<le> 12 \<and> 1 \<le> dd \<and> dd \<le> days_in m y"
proof -
  obtain y' yday m' dd' where c: "civil_of_days d = (y', m', dd')" "month_day (is_leap y') yday = (m', dd')" "0 \<le> yday"
      "yday \<le> 364 \<or> (is_leap y' \<and> yday = 365)"
      "d = 365 * (y' - 1) + (y' - 1) div 4 - (y' - 1) div 100 + (y' - 1) div 400 + yday"
    by (rule civil_shape)
  have y: "y' = y" "m' = m" "dd' = dd" using c(1) assms(1) by simp_all
  have "0 \<le> y - 1 \<and> y - 1 \<le> 9998"
    by (rule year_of_days [OF c(5) [unfolded y] c(3) _ assms(2,3)]) (use c(4) in auto)
  then show ?thesis using month_day_days [OF c(3,4)] c(2) unfolding y by simp
qed

lemma clock_parts:
  fixes c :: int
  assumes "0 \<le> c" "c < 86400"
  shows "0 \<le> c div 3600" "c div 3600 \<le> 23" "0 \<le> c mod 3600 div 60" "c mod 3600 div 60 \<le> 59" "0 \<le> c mod 60" "c mod 60 \<le> 59"
    "c div 3600 * 3600 + c mod 3600 div 60 * 60 + c mod 60 = c"
proof -
  show "0 \<le> c div 3600" "0 \<le> c mod 3600 div 60" "0 \<le> c mod 60" "c mod 60 \<le> 59"
    using assms pos_mod_bound [of 60 c] by (simp_all add: pos_imp_zdiv_nonneg_iff)
  show "c div 3600 \<le> 23" using zdiv_mono1 [of c 86399 3600] assms by simp
  have "c mod 3600 \<le> 3599" using pos_mod_bound [of 3600 c] by simp
  then show "c mod 3600 div 60 \<le> 59" using zdiv_mono1 [of "c mod 3600" 3599 60] by simp
  have "c mod 3600 mod 60 = c mod 60" by (rule mod_mod_cancel) simp
  then show "c div 3600 * 3600 + c mod 3600 div 60 * 60 + c mod 60 = c"
    using div_mult_mod_eq [of c 3600] div_mult_mod_eq [of "c mod 3600" 60] by linarith
qed

lemma Parse_printed:
  assumes "1 \<le> y" "y \<le> 9999" "1 \<le> mo" "mo \<le> 12" "1 \<le> d" "d \<le> 31" "d \<le> days_in mo y" "0 \<le> h" "h \<le> 23" "0 \<le> mi" "mi \<le> 59"
    "0 \<le> s" "s \<le> 59" "read_fraction (frac @ ''Z'') = (ns, ''Z'')"
  shows "Parse_RFC3339 (pad 4 y @ ''-'' @ pad 2 mo @ ''-'' @ pad 2 d @ ''T'' @ pad 2 h @ '':'' @ pad 2 mi @ '':'' @ pad 2 s @ frac @ ''Z'')
    = Some (Date y mo d h mi s ns UTC)"
  using assms by (simp add: Parse_RFC3339_def read_year_pad getnum_pad expect_char_def in_range_def read_zone_def)

text \<open>Every instant of the years 1 to 9999 is read back from its text.\<close>

lemma Parse_RFC3339_nano:
  assumes "0 \<le> t" "t < 315537897600 * second"
  shows "Parse_RFC3339 (rfc3339_nano t) = Some t"
proof -
  have utc: "local_secs UTC t = t div 1000000000" by (simp add: local_secs_def zone_offset_def UTC_def FixedZone_def)
  obtain y mo d where date: "date_of UTC t = (y, mo, d)" by (cases "date_of UTC t") auto
  let ?day = "local_day UTC t"
  let ?c = "clock_secs UTC t"
  have day: "0 \<le> ?day" "?day < 3652059" using assms by (auto simp: local_day_def utc second_def)
  have civil: "civil_of_days ?day = (y, mo, d)" using date by (simp add: date_of_def)
  note b = year_bounds [OF civil day]
  have again: "days_of_civil y mo d = ?day" using civil_roundtrip [of ?day] civil by simp
  have c: "0 \<le> ?c" "?c < 86400" by (simp_all add: clock_secs_def)
  note hms = clock_parts [OF c]
  have ns: "0 \<le> nanosecond t" "nanosecond t < 1000000000" by (simp_all add: nanosecond_def)
  have d: "d \<le> 31" using civil_ranges [of ?day] civil by simp
  have plain: "unix_of_local UTC u = u" for u by (simp add: unix_of_local_def UTC_def FixedZone_def)
  have "(?day * 86400 + ?c) * 1000000000 + nanosecond t = t"
    by (simp add: local_day_def clock_secs_def utc nanosecond_def)
  then have "Date y mo d (?c div 3600) (?c mod 3600 div 60) (?c mod 60) (nanosecond t) UTC = t"
    using hms(7) by (simp add: Date_def plain again)
  moreover have "Parse_RFC3339 (rfc3339_nano t) = Some (Date y mo d (?c div 3600) (?c mod 3600 div 60) (?c mod 60) (nanosecond t) UTC)"
    unfolding rfc3339_nano_def date Let_def prod.case strip_zeros_def [symmetric]
    by (rule Parse_printed) (use b hms d read_fraction_printed [OF ns] in \<open>simp_all only:\<close>)
  ultimately show ?thesis by simp
qed

end
