(* ===== verification/AppError.thy ===== *)
theory AppError
  imports GoStrings
begin

text \<open>
  Errors (\<open>internal/domain/errors.go\<close>). A Go \<open>error\<close> the program can meet is one
  of: its own \<open>AppError\<close>, the two context errors, pgx's no-rows error, an error of a
  library known by its text, or \<open>fmt.Errorf("...: %w", err)\<close>. \<open>errors.As\<close> and
  \<open>errors.Is\<close> walk the \<open>Unwrap\<close> chain.
\<close>

datatype go_error =
    AppError string string "go_error option"
  | DeadlineExceeded
  | Canceled
  | NoRows
  | ForeignError string
  | FmtWrap string go_error

type_synonym 'a result = "go_error + 'a"
type_synonym ('w, 'a) eio = "('w, 'a result) state"

fun Error :: "go_error \<Rightarrow> string" where
  "Error (AppError c m None) = m"
| "Error (AppError c m (Some e)) = m @ '': '' @ Error e"
| "Error DeadlineExceeded = ''context deadline exceeded''"
| "Error Canceled = ''context canceled''"
| "Error NoRows = ''no rows in result set''"
| "Error (ForeignError s) = s"
| "Error (FmtWrap p e) = p @ '': '' @ Error e"

fun Unwrap :: "go_error \<Rightarrow> go_error option" where
  "Unwrap (AppError c m e) = e"
| "Unwrap (FmtWrap p e) = Some e"
| "Unwrap _ = None"

text \<open>\<open>errors.As(err, &appErr)\<close>: code and message of the first AppError of the chain.\<close>

fun as_app_error :: "go_error \<Rightarrow> (string \<times> string) option" where
  "as_app_error (AppError c m e) = Some (c, m)"
| "as_app_error (FmtWrap p e) = as_app_error e"
| "as_app_error _ = None"

text \<open>\<open>errors.Is(err, context.DeadlineExceeded)\<close>\<close>

fun is_deadline :: "go_error \<Rightarrow> bool" where
  "is_deadline DeadlineExceeded = True"
| "is_deadline (AppError c m None) = False"
| "is_deadline (AppError c m (Some e)) = is_deadline e"
| "is_deadline (FmtWrap p e) = is_deadline e"
| "is_deadline _ = False"

definition InvalidInput :: "string \<Rightarrow> string \<Rightarrow> go_error" where
  "InvalidInput code message = AppError code message None"

definition Wrap :: "string \<Rightarrow> string \<Rightarrow> go_error \<Rightarrow> go_error" where
  "Wrap code message err = AppError code message (Some err)"

definition ErrorCode :: "go_error \<Rightarrow> string" where
  "ErrorCode err = (case as_app_error err of Some (c, m) \<Rightarrow> c | None \<Rightarrow> ''internal_error'')"

definition ErrorMessage :: "go_error \<Rightarrow> string" where
  "ErrorMessage err = (case as_app_error err of Some (c, m) \<Rightarrow> m | None \<Rightarrow> ''internal server error'')"

lemma ErrorCode_InvalidInput [simp]: "ErrorCode (InvalidInput c m) = c"
  by (simp add: ErrorCode_def InvalidInput_def)

lemma is_deadline_InvalidInput [simp]: "\<not> is_deadline (InvalidInput c m)"
  by (simp add: InvalidInput_def)

lemma as_app_error_InvalidInput [simp]: "as_app_error (InvalidInput c m) = Some (c, m)"
  by (simp add: InvalidInput_def)

lemma ErrorCode_foreign [simp]: "ErrorCode (ForeignError s) = ''internal_error''"
  "ErrorCode DeadlineExceeded = ''internal_error''" "ErrorCode NoRows = ''internal_error''"
  by (simp_all add: ErrorCode_def)

end
