(* ===== verification/Domain.thy ===== *)
theory Domain
  imports AppError GoTime "HOL-Library.Word"
begin

text \<open>
  The domain model (\<open>internal/domain/types.go\<close>, \<open>events.go\<close>, \<open>filters.go\<close> and
  the type declarations of \<open>schedule.go\<close> and \<open>quick_action.go\<close>). A struct is a record with
  the fields in the source's order, each with a short prefix of its struct; an enumeration whose values the
  program itself writes is a datatype with the text it has in Go; \<open>ScheduleType\<close> comes from the request
  unchecked, so it has a constructor for every other text. A \<open>byte\<close> is an 8-bit word, a pointer to
  a time is an option, and an empty string stays an empty string.
\<close>

type_synonym byte = "8 word"

section \<open>Go integers\<close>

text \<open>64-bit two's complement wrap-around, for products of request parameters.\<close>

definition wrap64 :: "int \<Rightarrow> int" where
  "wrap64 n = (n + 9223372036854775808) mod 18446744073709551616 - 9223372036854775808"

lemma wrap64_id: "int64 n \<Longrightarrow> wrap64 n = n"
  by (simp add: wrap64_def int64_def)

lemma wrap64_int64: "int64 (wrap64 n)"
  by (simp add: wrap64_def int64_def)

section \<open>Enumerations\<close>

datatype device_status = DeviceStatusOnline | DeviceStatusOffline | DeviceStatusStaleOffline

fun device_status_text :: "device_status \<Rightarrow> string" where
  "device_status_text DeviceStatusOnline = ''online''"
| "device_status_text DeviceStatusOffline = ''offline''"
| "device_status_text DeviceStatusStaleOffline = ''stale_offline''"

datatype topic_kind = TopicKindSubscribeFilter | TopicKindPublishTopic | TopicKindAdminPublishTopic

fun topic_kind_text :: "topic_kind \<Rightarrow> string" where
  "topic_kind_text TopicKindSubscribeFilter = ''subscribe_filter''"
| "topic_kind_text TopicKindPublishTopic = ''publish_topic''"
| "topic_kind_text TopicKindAdminPublishTopic = ''admin_publish_topic''"

datatype payload_format = PayloadFormatText | PayloadFormatJSON

datatype publish_status = PublishStatusPending | PublishStatusPublished | PublishStatusFailed

fun publish_status_text :: "publish_status \<Rightarrow> string" where
  "publish_status_text PublishStatusPending = ''pending''"
| "publish_status_text PublishStatusPublished = ''published''"
| "publish_status_text PublishStatusFailed = ''failed''"

datatype alert_level = AlertLevelInfo | AlertLevelWarning | AlertLevelCritical

fun alert_level_text :: "alert_level \<Rightarrow> string" where
  "alert_level_text AlertLevelInfo = ''info''"
| "alert_level_text AlertLevelWarning = ''warning''"
| "alert_level_text AlertLevelCritical = ''critical''"

datatype alert_status = AlertStatusOpen | AlertStatusResolved

fun alert_status_text :: "alert_status \<Rightarrow> string" where
  "alert_status_text AlertStatusOpen = ''open''"
| "alert_status_text AlertStatusResolved = ''resolved''"

datatype schedule_type = ScheduleTypeOnce | ScheduleTypeDaily | ScheduleTypeWeekly | ScheduleTypeOther string

datatype task_status = TaskActive | TaskCanceled | TaskCompleted | TaskFailed

fun task_status_text :: "task_status \<Rightarrow> string" where
  "task_status_text TaskActive = ''active''"
| "task_status_text TaskCanceled = ''canceled''"
| "task_status_text TaskCompleted = ''completed''"
| "task_status_text TaskFailed = ''failed''"

datatype run_status = RunPublished | RunFailed

section \<open>Data transfer objects\<close>

record 'a page =
  page_items :: "'a list"
  page_no :: int
  page_size :: int
  page_total :: int

datatype meta_value = MetaText string | MetaInt int

record device_dto =
  dev_ID :: string
  dev_ClientID :: string
  dev_Type :: string
  dev_Status :: device_status
  dev_SessionID :: string
  dev_FirstSeenAt :: time
  dev_LastSeenAt :: time
  dev_LastDisconnectedAt :: "time option"
  dev_Metadata :: "string \<rightharpoonup> meta_value"

record observed_topic_dto =
  ot_DeviceID :: string
  ot_ClientID :: string
  ot_Topic :: string
  ot_Kind :: topic_kind
  ot_QoS :: byte
  ot_FirstSeenAt :: time
  ot_LastSeenAt :: time

record message_dto =
  msg_ID :: string
  msg_DeviceID :: string
  msg_ClientID :: string
  msg_SessionID :: string
  msg_Topic :: string
  msg_PayloadText :: string
  msg_PayloadFormat :: payload_format
  msg_QoS :: byte
  msg_Retain :: bool
  msg_ReceivedAt :: time

record publish_command_dto =
  pc_ID :: string
  pc_AdminUserID :: string
  pc_Topic :: string
  pc_PayloadText :: string
  pc_QoS :: byte
  pc_Retain :: bool
  pc_Status :: publish_status
  pc_Error :: string
  pc_CreatedAt :: time
  pc_PublishedAt :: "time option"

record device_type_dto =
  dt_Code :: string
  dt_Name :: string
  dt_Description :: string
  dt_Schema :: string
  dt_CreatedAt :: time

record admin_user_dto =
  au_ID :: string
  au_Username :: string
  au_Role :: string

record admin_user =
  adm_ID :: string
  adm_Username :: string
  adm_PasswordHash :: "byte list"
  adm_Role :: string
  adm_Disabled :: bool

record admin_session =
  ses_Token :: string
  ses_UserID :: string
  ses_ExpiresAt :: time

record system_alert =
  al_ID :: string
  al_Level :: alert_level
  al_Code :: string
  al_Message :: string
  al_Status :: alert_status
  al_FirstSeenAt :: time
  al_LastSeenAt :: time

record scheduled_publish_task_dto =
  task_ID :: string
  task_DeviceID :: string
  task_ClientID :: string
  task_AdminUserID :: string
  task_Name :: string
  task_Topic :: string
  task_PayloadText :: string
  task_QoS :: byte
  task_Retain :: bool
  task_ScheduleType :: schedule_type
  task_RunAt :: "time option"
  task_TimeOfDay :: string
  task_Weekdays :: "int list"
  task_Timezone :: string
  task_Status :: task_status
  task_NextRunAt :: "time option"
  task_LastRunAt :: "time option"
  task_LastError :: string
  task_RunCount :: int
  task_CreatedAt :: time
  task_UpdatedAt :: time

record scheduled_publish_run_dto =
  run_ID :: string
  run_TaskID :: string
  run_PublishCommandID :: string
  run_Status :: run_status
  run_Error :: string
  run_ScheduledFor :: time
  run_StartedAt :: time
  run_FinishedAt :: time

record scheduled_publish_finish =
  fin_TaskID :: string
  fin_RunID :: string
  fin_PublishCommandID :: string
  fin_RunStatus :: run_status
  fin_TaskStatus :: task_status
  fin_Error :: string
  fin_ScheduledFor :: time
  fin_StartedAt :: time
  fin_FinishedAt :: time
  fin_NextRunAt :: "time option"

record quick_action_dto =
  qa_ID :: string
  qa_DeviceID :: string
  qa_ClientID :: string
  qa_AdminUserID :: string
  qa_Name :: string
  qa_Topic :: string
  qa_PayloadText :: string
  qa_QoS :: byte
  qa_Retain :: bool
  qa_CreatedAt :: time
  qa_UpdatedAt :: time

record quick_action_execute_result =
  qr_ActionID :: string
  qr_CommandID :: string
  qr_Status :: publish_status
  qr_PublishedAt :: time

section \<open>Events and commands\<close>

record subscription =
  sub_Filter :: string
  sub_QoS :: byte

record connect_event =
  ce_ClientID :: string
  ce_Username :: string
  ce_Remote :: string
  ce_Listener :: string
  ce_SessionID :: string
  ce_ProtocolVersion :: byte
  ce_ConnectedAt :: time

record subscribe_event =
  se_ClientID :: string
  se_SessionID :: string
  se_Subscriptions :: "subscription list"
  se_ObservedAt :: time

record publish_event =
  pe_ClientID :: string
  pe_SessionID :: string
  pe_Topic :: string
  pe_PayloadText :: string
  pe_PayloadFormat :: payload_format
  pe_QoS :: byte
  pe_Retain :: bool
  pe_ReceivedAt :: time

record disconnect_event =
  de_ClientID :: string
  de_SessionID :: string
  de_Reason :: string
  de_ExpireSession :: bool
  de_DisconnectedAt :: time

record change_device_type_command =
  cdt_DeviceID :: string
  cdt_Type :: string
  cdt_ActorID :: string

record publish_command =
  cmd_AdminUserID :: string
  cmd_Topic :: string
  cmd_PayloadText :: string
  cmd_QoS :: byte
  cmd_Retain :: bool

record publish_options =
  opt_QoS :: byte
  opt_Retain :: bool

record publish_result =
  res_CommandID :: string
  res_Status :: publish_status
  res_PublishedAt :: time

record create_quick_action_command =
  cq_AdminUserID :: string
  cq_DeviceID :: string
  cq_Name :: string
  cq_Topic :: string
  cq_PayloadText :: string
  cq_QoS :: byte
  cq_Retain :: bool

record create_scheduled_publish_command =
  cs_AdminUserID :: string
  cs_DeviceID :: string
  cs_Name :: string
  cs_Topic :: string
  cs_PayloadText :: string
  cs_QoS :: byte
  cs_Retain :: bool
  cs_ScheduleType :: schedule_type
  cs_RunAt :: "time option"
  cs_TimeOfDay :: string
  cs_Weekdays :: "int list"
  cs_Timezone :: string

section \<open>Filters\<close>

record device_filter =
  df_Status :: string
  df_Type :: string
  df_Query :: string
  df_Page :: int
  df_PageSize :: int

record topic_filter =
  tf_Direction :: string
  tf_Query :: string
  tf_Page :: int
  tf_PageSize :: int

record message_filter =
  mf_DeviceID :: string
  mf_Topic :: string
  mf_From :: "time option"
  mf_To :: "time option"
  mf_Page :: int
  mf_PageSize :: int

record command_filter =
  cf_Topic :: string
  cf_Status :: string
  cf_Page :: int
  cf_PageSize :: int

record alert_filter =
  af_Level :: string
  af_Status :: string
  af_Page :: int
  af_PageSize :: int

record quick_action_filter =
  qf_DeviceID :: string
  qf_Page :: int
  qf_PageSize :: int

record scheduled_publish_filter =
  sf_DeviceID :: string
  sf_Status :: string
  sf_Page :: int
  sf_PageSize :: int

definition NormalizePage :: "int \<Rightarrow> int \<Rightarrow> int \<times> int" where
  "NormalizePage p ps =
     (let p = (if p < 1 then 1 else p);
          ps = (if ps < 1 then 50 else ps);
          ps = (if 200 < ps then 200 else ps)
      in (p, ps))"

text \<open>The default range of a message query: the last 24 hours, only when neither bound is given.\<close>

definition ApplyDefaultMessageRange :: "time \<Rightarrow> message_filter \<Rightarrow> message_filter" where
  "ApplyDefaultMessageRange now f =
     (let f = (if mf_From f = None \<and> mf_To f = None
               then f\<lparr>mf_From := Some (now - 24 * hour), mf_To := Some now\<rparr> else f);
          (p, ps) = NormalizePage (mf_Page f) (mf_PageSize f)
      in f\<lparr>mf_Page := p, mf_PageSize := ps\<rparr>)"

lemma NormalizePage_bounds:
  "NormalizePage p ps = (p', ps') \<Longrightarrow> 1 \<le> p' \<and> 1 \<le> ps' \<and> ps' \<le> 200"
  by (auto simp: NormalizePage_def Let_def split: if_splits)

lemma NormalizePage_idem:
  "NormalizePage p ps = (p', ps') \<Longrightarrow> NormalizePage p' ps' = (p', ps')"
  by (auto simp: NormalizePage_def Let_def split: if_splits)

lemma NormalizePage_id:
  "1 \<le> p \<Longrightarrow> 1 \<le> ps \<Longrightarrow> ps \<le> 200 \<Longrightarrow> NormalizePage p ps = (p, ps)"
  by (simp add: NormalizePage_def)

end
