(* ===== verification/Json.thy ===== *)
theory Json
  imports GoStrings
begin

text \<open>
  \<open>json.Unmarshal(data, &v) == nil\<close> for an empty interface \<open>v\<close>, which is all the
  program asks of \<open>encoding/json\<close> when it classifies a payload. Go answers with a byte-wise
  scanner: a state, a stack of open objects and arrays of at most 10000 entries, and one step per
  byte. The model is the same machine; it also keeps the number literal it is inside of, because
  decoding a number that does not fit a float64 is an error as well.
\<close>

section \<open>The scanner\<close>

datatype scan_state =
    BeginValueOrEmpty | BeginValue | BeginStringOrEmpty | BeginString | EndValue | EndTop
  | InString | InStringEsc | EscU | EscU1 | EscU12 | EscU123
  | NumNeg | Num1 | Num0 | NumDot | NumDot0 | NumE | NumESign | NumE0
  | LitT | LitTr | LitTru | LitF | LitFa | LitFal | LitFals | LitN | LitNu | LitNul
  | ScanError

datatype parse_state = ParseObjectKey | ParseObjectValue | ParseArrayValue

type_synonym scan = "scan_state \<times> parse_state list"

definition json_space :: "char \<Rightarrow> bool" where
  "json_space c \<longleftrightarrow> c = CHR '' '' \<or> c = CHR 0x09 \<or> c = CHR 0x0D \<or> c = CHR 0x0A"

definition hex_digit :: "char \<Rightarrow> bool" where
  "hex_digit c \<longleftrightarrow> is_digit c \<or> (97 \<le> byte_of c \<and> byte_of c \<le> 102) \<or> (65 \<le> byte_of c \<and> byte_of c \<le> 70)"

definition max_nesting :: nat where
  "max_nesting = 10000"

definition push_parse :: "scan_state \<Rightarrow> parse_state \<Rightarrow> parse_state list \<Rightarrow> scan" where
  "push_parse next_state p st = (if length (p # st) \<le> max_nesting then (next_state, p # st) else (ScanError, p # st))"

definition pop_parse :: "parse_state list \<Rightarrow> scan" where
  "pop_parse st = (let st' = tl st in (if st' = [] then EndTop else EndValue, st'))"

definition step_end_top :: "parse_state list \<Rightarrow> char \<Rightarrow> scan" where
  "step_end_top st c = (if json_space c then EndTop else ScanError, st)"

definition step_end_value :: "parse_state list \<Rightarrow> char \<Rightarrow> scan" where
  "step_end_value st c = (case st of
      [] \<Rightarrow> step_end_top st c
    | p # rest \<Rightarrow>
        if json_space c then (EndValue, st) else (case p of
          ParseObjectKey \<Rightarrow>
            if c = CHR '':'' then (BeginValue, ParseObjectValue # rest) else (ScanError, st)
        | ParseObjectValue \<Rightarrow>
            if c = CHR '','' then (BeginString, ParseObjectKey # rest)
            else if c = CHR ''}'' then pop_parse st else (ScanError, st)
        | ParseArrayValue \<Rightarrow>
            if c = CHR '','' then (BeginValue, st)
            else if c = CHR '']'' then pop_parse st else (ScanError, st)))"

definition step_begin_value :: "parse_state list \<Rightarrow> char \<Rightarrow> scan" where
  "step_begin_value st c =
     (if json_space c then (BeginValue, st)
      else if c = CHR ''{'' then push_parse BeginStringOrEmpty ParseObjectKey st
      else if c = CHR ''['' then push_parse BeginValueOrEmpty ParseArrayValue st
      else if c = CHR 0x22 then (InString, st)
      else if c = CHR ''-'' then (NumNeg, st)
      else if c = CHR ''0'' then (Num0, st)
      else if c = CHR ''t'' then (LitT, st)
      else if c = CHR ''f'' then (LitF, st)
      else if c = CHR ''n'' then (LitN, st)
      else if is_digit c then (Num1, st)
      else (ScanError, st))"

definition step_begin_string :: "parse_state list \<Rightarrow> char \<Rightarrow> scan" where
  "step_begin_string st c =
     (if json_space c then (BeginString, st)
      else if c = CHR 0x22 then (InString, st) else (ScanError, st))"

definition step_num0 :: "parse_state list \<Rightarrow> char \<Rightarrow> scan" where
  "step_num0 st c =
     (if c = CHR ''.'' then (NumDot, st)
      else if c = CHR ''e'' \<or> c = CHR ''E'' then (NumE, st)
      else step_end_value st c)"

definition step_esign :: "parse_state list \<Rightarrow> char \<Rightarrow> scan" where
  "step_esign st c = (if is_digit c then (NumE0, st) else (ScanError, st))"

definition expect :: "char \<Rightarrow> scan_state \<Rightarrow> parse_state list \<Rightarrow> char \<Rightarrow> scan" where
  "expect want next_state st c = (if c = want then (next_state, st) else (ScanError, st))"

definition expect_hex :: "scan_state \<Rightarrow> parse_state list \<Rightarrow> char \<Rightarrow> scan" where
  "expect_hex next_state st c = (if hex_digit c then (next_state, st) else (ScanError, st))"

fun scan_step :: "scan \<Rightarrow> char \<Rightarrow> scan" where
  "scan_step (BeginValueOrEmpty, st) c =
     (if json_space c then (BeginValueOrEmpty, st)
      else if c = CHR '']'' then step_end_value st c else step_begin_value st c)"
| "scan_step (BeginValue, st) c = step_begin_value st c"
| "scan_step (BeginStringOrEmpty, st) c =
     (if json_space c then (BeginStringOrEmpty, st)
      else if c = CHR ''}'' then step_end_value (ParseObjectValue # tl st) c
      else step_begin_string st c)"
| "scan_step (BeginString, st) c = step_begin_string st c"
| "scan_step (EndValue, st) c = step_end_value st c"
| "scan_step (EndTop, st) c = step_end_top st c"
| "scan_step (InString, st) c =
     (if c = CHR 0x22 then (EndValue, st)
      else if c = CHR 0x5C then (InStringEsc, st)
      else if byte_of c < 32 then (ScanError, st) else (InString, st))"
| "scan_step (InStringEsc, st) c =
     (if c \<in> set [CHR ''b'', CHR ''f'', CHR ''n'', CHR ''r'', CHR ''t'', CHR 0x5C, CHR ''/'', CHR 0x22]
      then (InString, st) else if c = CHR ''u'' then (EscU, st) else (ScanError, st))"
| "scan_step (EscU, st) c = expect_hex EscU1 st c"
| "scan_step (EscU1, st) c = expect_hex EscU12 st c"
| "scan_step (EscU12, st) c = expect_hex EscU123 st c"
| "scan_step (EscU123, st) c = expect_hex InString st c"
| "scan_step (NumNeg, st) c =
     (if c = CHR ''0'' then (Num0, st) else if is_digit c then (Num1, st) else (ScanError, st))"
| "scan_step (Num1, st) c = (if is_digit c then (Num1, st) else step_num0 st c)"
| "scan_step (Num0, st) c = step_num0 st c"
| "scan_step (NumDot, st) c = (if is_digit c then (NumDot0, st) else (ScanError, st))"
| "scan_step (NumDot0, st) c =
     (if is_digit c then (NumDot0, st)
      else if c = CHR ''e'' \<or> c = CHR ''E'' then (NumE, st) else step_end_value st c)"
| "scan_step (NumE, st) c =
     (if c = CHR ''+'' \<or> c = CHR ''-'' then (NumESign, st) else step_esign st c)"
| "scan_step (NumESign, st) c = step_esign st c"
| "scan_step (NumE0, st) c = (if is_digit c then (NumE0, st) else step_end_value st c)"
| "scan_step (LitT, st) c = expect (CHR ''r'') LitTr st c"
| "scan_step (LitTr, st) c = expect (CHR ''u'') LitTru st c"
| "scan_step (LitTru, st) c = expect (CHR ''e'') EndValue st c"
| "scan_step (LitF, st) c = expect (CHR ''a'') LitFa st c"
| "scan_step (LitFa, st) c = expect (CHR ''l'') LitFal st c"
| "scan_step (LitFal, st) c = expect (CHR ''s'') LitFals st c"
| "scan_step (LitFals, st) c = expect (CHR ''e'') EndValue st c"
| "scan_step (LitN, st) c = expect (CHR ''u'') LitNu st c"
| "scan_step (LitNu, st) c = expect (CHR ''l'') LitNul st c"
| "scan_step (LitNul, st) c = expect (CHR ''l'') EndValue st c"
| "scan_step (ScanError, st) c = (ScanError, st)"

section \<open>Number literals\<close>

fun in_number :: "scan_state \<Rightarrow> bool" where
  "in_number NumNeg = True"
| "in_number Num1 = True"
| "in_number Num0 = True"
| "in_number NumDot = True"
| "in_number NumDot0 = True"
| "in_number NumE = True"
| "in_number NumESign = True"
| "in_number NumE0 = True"
| "in_number _ = False"

text \<open>
  \<open>strconv.ParseFloat\<close> reports a range error when the value, rounded to nearest even, is not
  below \<open>2 ^ 1024\<close>, that is when it is at least \<open>2 ^ 1024 - 2 ^ 970\<close>; its exponent
  stops growing once it has passed 10000.
\<close>

fun read_exponent :: "int \<Rightarrow> string \<Rightarrow> int" where
  "read_exponent e [] = e"
| "read_exponent e (c # cs) = read_exponent (if e < 10000 then e * 10 + digit_val c else e) cs"

definition float_limit :: int where
  "float_limit = 2 ^ 1024 - 2 ^ 970"

definition float_overflows :: "string \<Rightarrow> bool" where
  "float_overflows lit =
     (let s = (if lit \<noteq> [] \<and> hd lit = CHR ''-'' then tl lit else lit);
          ip = takeWhile is_digit s;
          r1 = dropWhile is_digit s;
          fp = (if r1 \<noteq> [] \<and> hd r1 = CHR ''.'' then takeWhile is_digit (tl r1) else []);
          r2 = (if r1 \<noteq> [] \<and> hd r1 = CHR ''.'' then dropWhile is_digit (tl r1) else r1);
          r3 = (if r2 \<noteq> [] then tl r2 else []);
          eneg = (r3 \<noteq> [] \<and> hd r3 = CHR ''-'');
          ed = (if r3 \<noteq> [] \<and> (hd r3 = CHR ''-'' \<or> hd r3 = CHR ''+'') then tl r3 else r3);
          m = read_digits 0 (ip @ fp);
          e = (if eneg then - read_exponent 0 ed else read_exponent 0 ed) - int (length fp)
      in if e \<ge> 0 then float_limit \<le> m * 10 ^ nat e else float_limit * 10 ^ nat (- e) \<le> m)"

section \<open>Running the scanner\<close>

text \<open>The scanner, the literal being read (reversed), and whether a literal was out of range.\<close>

fun scan_run :: "scan \<Rightarrow> string \<Rightarrow> bool \<Rightarrow> string \<Rightarrow> scan \<times> string \<times> bool" where
  "scan_run s lit bad [] = (s, lit, bad)"
| "scan_run s lit bad (c # cs) =
     (let s' = scan_step s c in
      if in_number (fst s') then scan_run s' (c # lit) bad cs
      else scan_run s' [] (bad \<or> (lit \<noteq> [] \<and> float_overflows (rev lit))) cs)"

text \<open>At the end of the input Go feeds one space and asks whether the top value is complete.\<close>

definition at_end :: "scan \<Rightarrow> bool" where
  "at_end s \<longleftrightarrow> fst s = EndTop \<or> fst (scan_step s (CHR '' '')) = EndTop"

definition json_unmarshals :: "string \<Rightarrow> bool" where
  "json_unmarshals data =
     (let (s, lit, bad) = scan_run (BeginValue, []) [] False data
      in at_end s \<and> \<not> bad \<and> \<not> (lit \<noteq> [] \<and> float_overflows (rev lit)))"

lemma scan_error_stuck: "scan_run (ScanError, st) lit bad cs = (s, lit', bad') \<Longrightarrow> fst s = ScanError"
  by (induction "(ScanError, st)" lit bad cs arbitrary: st rule: scan_run.induct)
     (auto simp: Let_def split: if_splits)

lemma scan_run_append:
  "scan_run s lit bad (xs @ ys) = (case scan_run s lit bad xs of (s', lit', bad') \<Rightarrow> scan_run s' lit' bad' ys)"
  by (induction s lit bad xs rule: scan_run.induct) (auto simp: Let_def)

lemma json_empty: "\<not> json_unmarshals []"
  by (simp add: json_unmarshals_def at_end_def step_begin_value_def json_space_def)

end
