(* ===== verification/Validation.thy ===== *)
theory Validation
  imports Domain Json
begin

text \<open>
  Input validation (\<open>internal/domain/validation.go\<close> and \<open>ValidateQuickActionCommand\<close> of
  \<open>quick_action.go\<close>). A validator returns \<open>Inl\<close> an AppError with the source's code and
  message, or \<open>Inr\<close>. The lemmas give each validator's exact acceptance condition.
\<close>

definition MaxClientIDLength :: nat where "MaxClientIDLength = 128"
definition MaxTopicLength :: nat where "MaxTopicLength = 512"

text \<open>The character class of \<open>^[A-Za-z0-9._:@-]+$\<close>.\<close>

definition client_id_char :: "char \<Rightarrow> bool" where
  "client_id_char c \<longleftrightarrow> (65 \<le> byte_of c \<and> byte_of c \<le> 90) \<or> (97 \<le> byte_of c \<and> byte_of c \<le> 122)
     \<or> is_digit c \<or> c \<in> set ''._:@-''"

definition clientIDPattern :: "string \<Rightarrow> bool" where
  "clientIDPattern s \<longleftrightarrow> s \<noteq> [] \<and> list_all client_id_char s"

definition ValidateClientID :: "string \<Rightarrow> unit result" where
  "ValidateClientID clientID =
     (if clientID = [] then Inl (InvalidInput ''invalid_client_id'' ''client id must not be empty'')
      else if MaxClientIDLength < length clientID \<or> \<not> clientIDPattern clientID
      then Inl (InvalidInput ''invalid_client_id'' ''client id contains unsupported characters or is too long'')
      else Inr ())"

definition sys_runes :: "nat list" where
  "sys_runes = [36, 83, 89, 83]"

text \<open>\<open>strings.HasPrefix(strings.ToUpper(topic), "$SYS/") || strings.EqualFold(topic, "$SYS")\<close>\<close>

definition sys_topic :: "string \<Rightarrow> bool" where
  "sys_topic topic \<longleftrightarrow> take 5 (upper_runes topic) = sys_runes @ [47] \<or> upper_runes topic = sys_runes"

definition ValidatePublishTopic :: "string \<Rightarrow> unit result" where
  "ValidatePublishTopic topic =
     (if topic = [] then Inl (InvalidInput ''invalid_topic'' ''topic must not be empty'')
      else if MaxTopicLength < length topic then Inl (InvalidInput ''invalid_topic'' ''topic is too long'')
      else if ContainsAny topic ''+#''
      then Inl (InvalidInput ''invalid_topic'' ''publish topic must not contain wildcards'')
      else if sys_topic topic
      then Inl (InvalidInput ''invalid_topic'' ''publishing to $SYS topics is not allowed'')
      else Inr ())"

definition ValidateSubscribeFilter :: "string \<Rightarrow> unit result" where
  "ValidateSubscribeFilter filter_text =
     (if filter_text = []
      then Inl (InvalidInput ''invalid_topic_filter'' ''topic filter must not be empty'')
      else if MaxTopicLength < length filter_text
      then Inl (InvalidInput ''invalid_topic_filter'' ''topic filter is too long'')
      else (let idx = IndexRune filter_text (CHR ''#'') in
        if 0 \<le> idx \<and> idx \<noteq> int (length filter_text) - 1
        then Inl (InvalidInput ''invalid_topic_filter'' ''multi-level wildcard must be the final character'')
        else Inr ()))"

definition ValidateTextPayload :: "string \<Rightarrow> int \<Rightarrow> payload_format result" where
  "ValidateTextPayload payload maxBytes =
     (if 0 < maxBytes \<and> maxBytes < int (length payload)
      then Inl (InvalidInput ''payload_too_large'' ''payload exceeds maximum allowed size'')
      else if \<not> valid_string payload
      then Inl (InvalidInput ''unsupported_payload'' ''payload must be valid UTF-8 text'')
      else Inr (if json_unmarshals payload then PayloadFormatJSON else PayloadFormatText))"

definition ValidateQoS :: "byte \<Rightarrow> unit result" where
  "ValidateQoS qos =
     (if 1 < qos then Inl (InvalidInput ''invalid_qos'' ''qos must be 0 or 1'') else Inr ())"

definition InfraredControllerType :: string where
  "InfraredControllerType = ''GSCU1B''"

definition ValidateQuickActionCommand :: "create_quick_action_command \<Rightarrow> int \<Rightarrow> unit result" where
  "ValidateQuickActionCommand cmd maxPayload =
     (if TrimSpace (cq_DeviceID cmd) = []
      then Inl (InvalidInput ''invalid_device_id'' ''device id must not be empty'')
      else if TrimSpace (cq_Name cmd) = []
      then Inl (InvalidInput ''invalid_quick_action_name'' ''quick action name must not be empty'')
      else if 80 < length (to_runes (TrimSpace (cq_Name cmd)))
      then Inl (InvalidInput ''invalid_quick_action_name'' ''quick action name is too long'')
      else (case ValidatePublishTopic (cq_Topic cmd) of Inl e \<Rightarrow> Inl e | Inr _ \<Rightarrow>
            (case ValidateQoS (cq_QoS cmd) of Inl e \<Rightarrow> Inl e | Inr _ \<Rightarrow>
            (case ValidateTextPayload (cq_PayloadText cmd) maxPayload of Inl e \<Rightarrow> Inl e | Inr _ \<Rightarrow> Inr ()))))"

section \<open>What the validators accept\<close>

lemma ValidateClientID_ok:
  "ValidateClientID s = Inr () \<longleftrightarrow> s \<noteq> [] \<and> length s \<le> 128 \<and> list_all client_id_char s"
  by (auto simp: ValidateClientID_def MaxClientIDLength_def clientIDPattern_def)

lemma ValidateClientID_code: "ValidateClientID s = Inl e \<Longrightarrow> ErrorCode e = ''invalid_client_id''"
  by (auto simp: ValidateClientID_def split: if_splits)

lemma ValidatePublishTopic_ok:
  "ValidatePublishTopic t = Inr () \<longleftrightarrow>
     t \<noteq> [] \<and> length t \<le> 512 \<and> CHR ''+'' \<notin> set t \<and> CHR ''#'' \<notin> set t \<and> \<not> sys_topic t"
  by (auto simp: ValidatePublishTopic_def MaxTopicLength_def ContainsAny_def list_ex_iff)

lemma ValidatePublishTopic_code: "ValidatePublishTopic t = Inl e \<Longrightarrow> ErrorCode e = ''invalid_topic''"
  by (auto simp: ValidatePublishTopic_def split: if_splits)

lemma ValidateQoS_ok: "ValidateQoS q = Inr () \<longleftrightarrow> q = 0 \<or> q = 1"
proof -
  have "\<not> 1 < q \<longleftrightarrow> unat q \<le> 1" by (simp add: word_less_nat_alt not_less)
  also have "\<dots> \<longleftrightarrow> q = 0 \<or> q = 1" by (auto simp: word_unat_eq_iff)
  finally show ?thesis by (auto simp: ValidateQoS_def)
qed

lemma ValidateQoS_code: "ValidateQoS q = Inl e \<Longrightarrow> ErrorCode e = ''invalid_qos''"
  by (auto simp: ValidateQoS_def split: if_splits)

lemma ValidateTextPayload_ok:
  "ValidateTextPayload p m = Inr f \<longleftrightarrow>
     (m \<le> 0 \<or> int (length p) \<le> m) \<and> valid_string p \<and>
     f = (if json_unmarshals p then PayloadFormatJSON else PayloadFormatText)"
  by (auto simp: ValidateTextPayload_def)

lemma ValidateTextPayload_code:
  "ValidateTextPayload p m = Inl e \<Longrightarrow> ErrorCode e = ''payload_too_large'' \<or> ErrorCode e = ''unsupported_payload''"
  by (auto simp: ValidateTextPayload_def split: if_splits)

text \<open>A filter is accepted when its only hash sign, if any, is its last byte.\<close>

lemma ValidateSubscribeFilter_ok:
  "ValidateSubscribeFilter f = Inr () \<longleftrightarrow>
     f \<noteq> [] \<and> length f \<le> 512 \<and> CHR ''#'' \<notin> set (butlast f)"
proof (cases "CHR ''#'' \<in> set f")
  case True
  then obtain xs ys where f: "f = xs @ CHR ''#'' # ys" "CHR ''#'' \<notin> set xs"
    by (meson split_list_first)
  have "takeWhile (\<lambda>x. x \<noteq> CHR ''#'') f = xs"
    unfolding f(1) using f(2) by (subst takeWhile_append2) auto
  with f show ?thesis
    by (cases "ys = []") (auto simp: ValidateSubscribeFilter_def MaxTopicLength_def IndexRune_def
        index_from_spec butlast_append)
next
  case False
  then show ?thesis
    by (auto simp: ValidateSubscribeFilter_def MaxTopicLength_def IndexRune_def index_from_spec
        dest: in_set_butlastD)
qed

lemma ValidateSubscribeFilter_code:
  "ValidateSubscribeFilter f = Inl e \<Longrightarrow> ErrorCode e = ''invalid_topic_filter''"
  by (auto simp: ValidateSubscribeFilter_def Let_def split: if_splits)

end
