(* ===== verification/Schedule.thy ===== *)
theory Schedule
  imports Validation
begin

text \<open>
  The schedule rules (\<open>internal/domain/schedule.go\<close>). The time-zone database, which
  \<open>time.LoadLocation\<close> reads from the machine, is the parameter \<open>tzdb\<close>: a location for every
  name it knows. The lemmas show that, in a stretch of time where the offset of the zone does not change, a daily
  or weekly schedule gives the first matching instant after now; the last section shows what happens
  across a transition.
\<close>

section \<open>Parsing and encoding\<close>

definition bad_time_of_day :: go_error where
  "bad_time_of_day = InvalidInput ''invalid_time_of_day'' ''timeOfDay must use HH:mm''"

definition parseTimeOfDay :: "string \<Rightarrow> (int \<times> int) result" where
  "parseTimeOfDay value =
     (case Split (CHR '':'') value of
        [hs, ms] \<Rightarrow>
          (case Atoi hs of None \<Rightarrow> Inl bad_time_of_day | Some h \<Rightarrow>
          (case Atoi ms of None \<Rightarrow> Inl bad_time_of_day | Some m \<Rightarrow>
             if h < 0 \<or> 23 < h \<or> m < 0 \<or> 59 < m then Inl bad_time_of_day else Inr (h, m)))
      | _ \<Rightarrow> Inl bad_time_of_day)"

text \<open>
  \<open>fmt.Sprintf("%q", s)\<close>, exact on printable ASCII; other bytes are copied. It only reaches the
  text of an error message.
\<close>

definition quoted :: "string \<Rightarrow> string" where
  "quoted s = [CHR 0x22] @ concat (map (\<lambda>c. if c = CHR 0x22 \<or> c = CHR 0x5C then [CHR 0x5C, c] else [c]) s)
     @ [CHR 0x22]"

definition scheduleLocation :: "(string \<Rightarrow> location option) \<Rightarrow> string \<Rightarrow> location result" where
  "scheduleLocation tzdb timezone =
     (let timezone = (if TrimSpace timezone = [] then ''Asia/Hong_Kong'' else timezone) in
      case tzdb timezone of
        None \<Rightarrow> Inl (InvalidInput ''invalid_timezone'' (''unsupported timezone '' @ quoted timezone))
      | Some loc \<Rightarrow> Inr loc)"

definition EncodeWeekdays :: "int list \<Rightarrow> string" where
  "EncodeWeekdays days = (if days = [] then [] else Join (CHR '','') (map Itoa days))"

definition DecodeWeekdays :: "string \<Rightarrow> int list" where
  "DecodeWeekdays value =
     (if TrimSpace value = [] then []
      else List.map_filter (\<lambda>part. Atoi (TrimSpace part)) (Split (CHR '','') value))"

section \<open>The next run\<close>

definition nextDailyRun :: "(string \<Rightarrow> location option) \<Rightarrow> string \<Rightarrow> string \<Rightarrow> time \<Rightarrow> time result" where
  "nextDailyRun tzdb timeOfDay timezone now =
     (case parseTimeOfDay timeOfDay of Inl e \<Rightarrow> Inl e | Inr (h, m) \<Rightarrow>
     (case scheduleLocation tzdb timezone of Inl e \<Rightarrow> Inl e | Inr loc \<Rightarrow>
       (let (y, mo, d) = date_of loc now;
            candidate = Date y mo d h m 0 0 loc
        in Inr (if \<not> After candidate now then AddDate 0 0 1 loc candidate else candidate))))"

text \<open>The loop over \<open>offset\<close>: the day, its weekday with Sunday as 7, the candidate on that day.\<close>

definition weekday_1_7 :: "location \<Rightarrow> time \<Rightarrow> int" where
  "weekday_1_7 loc t = (if Weekday loc t = 0 then 7 else Weekday loc t)"

definition weekly_candidate :: "location \<Rightarrow> int \<Rightarrow> int \<Rightarrow> time \<Rightarrow> int \<Rightarrow> time" where
  "weekly_candidate loc h m now offset =
     (let (y, mo, d) = date_of loc (AddDate 0 0 offset loc now) in Date y mo d h m 0 0 loc)"

fun weekly_loop :: "location \<Rightarrow> int \<Rightarrow> int \<Rightarrow> int list \<Rightarrow> time \<Rightarrow> int list \<Rightarrow> time result" where
  "weekly_loop loc h m allowed now [] =
     Inl (InvalidInput ''invalid_weekdays'' ''could not calculate next weekly run'')"
| "weekly_loop loc h m allowed now (offset # offsets) =
     (if weekday_1_7 loc (AddDate 0 0 offset loc now) \<notin> set allowed
      then weekly_loop loc h m allowed now offsets
      else if After (weekly_candidate loc h m now offset) now
      then Inr (weekly_candidate loc h m now offset)
      else weekly_loop loc h m allowed now offsets)"

definition nextWeeklyRun ::
  "(string \<Rightarrow> location option) \<Rightarrow> string \<Rightarrow> string \<Rightarrow> int list \<Rightarrow> time \<Rightarrow> time result" where
  "nextWeeklyRun tzdb timeOfDay timezone weekdays now =
     (case parseTimeOfDay timeOfDay of Inl e \<Rightarrow> Inl e | Inr (h, m) \<Rightarrow>
       if weekdays = [] then Inl (InvalidInput ''invalid_weekdays'' ''at least one weekday is required'')
       else if list_ex (\<lambda>day. day < 1 \<or> 7 < day) weekdays
       then Inl (InvalidInput ''invalid_weekdays'' ''weekdays must be 1-7'')
       else (case scheduleLocation tzdb timezone of Inl e \<Rightarrow> Inl e | Inr loc \<Rightarrow>
         weekly_loop loc h m weekdays now [0, 1, 2, 3, 4, 5, 6, 7]))"

definition bad_schedule_type :: go_error where
  "bad_schedule_type = InvalidInput ''invalid_schedule_type'' ''scheduleType must be once, daily, or weekly''"

definition NextRunForCommand ::
  "(string \<Rightarrow> location option) \<Rightarrow> create_scheduled_publish_command \<Rightarrow> time \<Rightarrow> time result" where
  "NextRunForCommand tzdb cmd now =
     (case cs_ScheduleType cmd of
        ScheduleTypeOnce \<Rightarrow>
          (case cs_RunAt cmd of
             None \<Rightarrow> Inl (InvalidInput ''invalid_run_at'' ''runAt is required for one-time schedules'')
           | Some runAt \<Rightarrow>
               if \<not> After runAt now
               then Inl (InvalidInput ''invalid_run_at'' ''runAt must be in the future'') else Inr runAt)
      | ScheduleTypeDaily \<Rightarrow> nextDailyRun tzdb (cs_TimeOfDay cmd) (cs_Timezone cmd) now
      | ScheduleTypeWeekly \<Rightarrow>
          nextWeeklyRun tzdb (cs_TimeOfDay cmd) (cs_Timezone cmd) (cs_Weekdays cmd) now
      | ScheduleTypeOther _ \<Rightarrow> Inl bad_schedule_type)"

definition ValidateScheduleCommand ::
  "(string \<Rightarrow> location option) \<Rightarrow> create_scheduled_publish_command \<Rightarrow> time \<Rightarrow> time result" where
  "ValidateScheduleCommand tzdb cmd now =
     (if TrimSpace (cs_DeviceID cmd) = []
      then Inl (InvalidInput ''invalid_device_id'' ''device id must not be empty'')
      else (case ValidatePublishTopic (cs_Topic cmd) of Inl e \<Rightarrow> Inl e | Inr _ \<Rightarrow>
           (case ValidateQoS (cs_QoS cmd) of Inl e \<Rightarrow> Inl e | Inr _ \<Rightarrow>
           (case cs_ScheduleType cmd of
              ScheduleTypeOther _ \<Rightarrow> Inl bad_schedule_type
            | _ \<Rightarrow> NextRunForCommand tzdb cmd now))))"

text \<open>The command that \<open>NextRunAfterTask\<close> builds leaves every other field at its zero value.\<close>

definition schedule_of_task :: "scheduled_publish_task_dto \<Rightarrow> create_scheduled_publish_command" where
  "schedule_of_task task =
     \<lparr>cs_AdminUserID = [], cs_DeviceID = [], cs_Name = [], cs_Topic = [], cs_PayloadText = [],
      cs_QoS = 0, cs_Retain = False, cs_ScheduleType = task_ScheduleType task, cs_RunAt = None,
      cs_TimeOfDay = task_TimeOfDay task, cs_Weekdays = task_Weekdays task,
      cs_Timezone = task_Timezone task\<rparr>"

definition NextRunAfterTask ::
  "(string \<Rightarrow> location option) \<Rightarrow> scheduled_publish_task_dto \<Rightarrow> time \<Rightarrow> time option result" where
  "NextRunAfterTask tzdb task after =
     (if task_ScheduleType task = ScheduleTypeOnce then Inr None
      else (case NextRunForCommand tzdb (schedule_of_task task) after of
              Inl e \<Rightarrow> Inl e | Inr t \<Rightarrow> Inr (Some t)))"

section \<open>Where the offset is steady\<close>

text \<open>The instant of clock second \<open>c\<close> on day \<open>d\<close> in a zone that is \<open>off\<close> seconds ahead of UTC.\<close>

definition at_local :: "int \<Rightarrow> int \<Rightarrow> int \<Rightarrow> time" where
  "at_local off d c = (d * 86400 + c - off) * 1000000000"

text \<open>A zone with one offset, less than a day, for \<open>n\<close> days on both sides of an instant.\<close>

definition steady_days :: "location \<Rightarrow> int \<Rightarrow> time \<Rightarrow> int \<Rightarrow> bool" where
  "steady_days loc off t n \<longleftrightarrow>
     \<bar>off\<bar> < 86400 \<and> steady loc off (unix_of t - n * 86400) (unix_of t + n * 86400)"

lemma steady_days_FixedZone [simp]: "steady_days (FixedZone off) off t n \<longleftrightarrow> \<bar>off\<bar> < 86400"
  by (simp add: steady_days_def)

lemma steady_days_offset:
  "steady_days loc off t n \<Longrightarrow> \<bar>unix_of u - unix_of t\<bar> < n * 86400 \<Longrightarrow> zone_offset loc u = off"
  by (auto simp: steady_days_def zone_offset_def intro!: steadyD)

lemma local_parts:
  assumes "steady_days loc off now n" "1 \<le> n"
  shows "local_secs loc now = now div 1000000000 + off"
  using steady_days_offset [OF assms(1), of now] assms(2) by (simp add: local_secs_def)

lemma at_local_parts:
  assumes "steady_days loc off now n" "\<bar>d * 86400 + c - off - now div 1000000000\<bar> < n * 86400"
    and "0 \<le> c" "c < 86400"
  shows "local_day loc (at_local off d c) = d" "clock_secs loc (at_local off d c) = c"
    "nanosecond (at_local off d c) = 0"
proof -
  have "unix_of (at_local off d c) - unix_of now = d * 86400 + c - off - now div 1000000000"
    by (simp add: at_local_def unix_of_def)
  with assms(2) have "zone_offset loc (at_local off d c) = off"
    by (intro steady_days_offset [OF assms(1)]) simp
  then have "local_secs loc (at_local off d c) = d * 86400 + c"
    by (simp add: local_secs_def at_local_def)
  then show "local_day loc (at_local off d c) = d" "clock_secs loc (at_local off d c) = c"
    using assms(3,4) by (simp_all add: local_day_def clock_secs_def)
  show "nanosecond (at_local off d c) = 0" by (simp add: nanosecond_def at_local_def)
qed

text \<open>\<open>time.Date\<close> on the calendar date of day \<open>d\<close>, \<open>k\<close> days later.\<close>

lemma Date_day:
  assumes "steady_days loc off now n"
    and "\<bar>(d + k) * 86400 + c - off - now div 1000000000\<bar> < (n - 1) * 86400"
    and "c = h * 3600 + mi * 60 + s" "civil_of_days d = (y, mo, dd)"
  shows "Date y mo (dd + k) h mi s ns loc = at_local off (d + k) c + ns"
proof -
  let ?u = "(d + k) * 86400 + c - unix_epoch"
  have days: "days_of_civil y mo (dd + k) = d + k"
    using civil_roundtrip [of d] assms(4) by (simp add: days_of_civil_add)
  have off: "\<bar>off\<bar> < 86400" and st: "steady loc off (unix_of now - n * 86400) (unix_of now + n * 86400)"
    using assms(1) by (simp_all add: steady_days_def)
  have u: "?u - off - unix_of now = (d + k) * 86400 + c - off - now div 1000000000"
    by (simp add: unix_of_def)
  with assms(2) have b: "?u - off - unix_of now < n * 86400 - 86400"
    "unix_of now - (?u - off) < n * 86400 - 86400" by (simp_all add: abs_less_iff left_diff_distrib)
  from off have o: "off < 86400" "- off < 86400" by simp_all
  have "Date y mo (dd + k) h mi s ns loc = (?u - off + unix_epoch) * 1000000000 + ns"
  proof (rule Date_steady [OF st])
    show "?u = days_of_civil y mo (dd + k) * 86400 + h * 3600 + mi * 60 + s - unix_epoch"
      using days assms(3) by simp
    show "unix_of now - n * 86400 \<le> ?u" using b o by linarith
    show "?u < unix_of now + n * 86400" using b o by linarith
    show "unix_of now - n * 86400 \<le> ?u - off" using b by linarith
    show "?u - off < unix_of now + n * 86400" using b by linarith
  qed
  then show ?thesis by (simp add: at_local_def)
qed

lemma clock_split: "(c::int) div 3600 * 3600 + c mod 3600 div 60 * 60 + c mod 60 = c"
proof -
  have "c mod 3600 = c mod 3600 div 60 * 60 + c mod 3600 mod 60" by simp
  moreover have "c mod 3600 mod 60 = c mod 60" by (simp add: mod_mod_cancel)
  moreover have "c = c div 3600 * 3600 + c mod 3600" by simp
  ultimately show ?thesis by linarith
qed

lemma AddDate_steady:
  assumes "steady_days loc off now n" "\<bar>t div 1000000000 - now div 1000000000\<bar> < n * 86400"
    and "\<bar>t div 1000000000 + k * 86400 - now div 1000000000\<bar> < (n - 1) * 86400"
  shows "AddDate 0 0 k loc t = t + k * 86400 * 1000000000"
proof -
  have "zone_offset loc t = off"
    using assms(2) by (intro steady_days_offset [OF assms(1)]) (simp add: unix_of_def)
  then have ls: "local_secs loc t = t div 1000000000 + off" by (simp add: local_secs_def)
  obtain y mo d where civ: "civil_of_days (local_day loc t) = (y, mo, d)" by (metis prod_cases3)
  let ?D = "local_day loc t" and ?c = "clock_secs loc t"
  have dc: "?D * 86400 + ?c = t div 1000000000 + off"
    using ls by (simp add: local_day_def clock_secs_def)
  have "AddDate 0 0 k loc t = Date y mo (d + k) (?c div 3600) (?c mod 3600 div 60) (?c mod 60) (nanosecond t) loc"
    using civ by (simp add: AddDate_def date_of_def Let_def)
  also have "\<dots> = at_local off (?D + k) ?c + nanosecond t"
  proof (rule Date_day [OF assms(1) _ _ civ])
    show "\<bar>(?D + k) * 86400 + ?c - off - now div 1000000000\<bar> < (n - 1) * 86400"
      using assms(3) dc by (simp add: algebra_simps)
    show "?c = ?c div 3600 * 3600 + ?c mod 3600 div 60 * 60 + ?c mod 60"
      by (rule clock_split [symmetric])
  qed
  also have "\<dots> = t + k * 86400 * 1000000000"
  proof -
    have "(?D + k) * 86400 + ?c - off = t div 1000000000 + k * 86400" using dc by (simp add: algebra_simps)
    then have "at_local off (?D + k) ?c = (t div 1000000000 + k * 86400) * 1000000000"
      by (simp only: at_local_def)
    then show ?thesis
      using div_mult_mod_eq [of t 1000000000] unfolding nanosecond_def by (simp add: algebra_simps)
  qed
  finally show ?thesis .
qed


lemma at_local_less [simp]: "at_local off d c < at_local off e c \<longleftrightarrow> d < e"
  by (simp add: at_local_def)

lemma at_local_le [simp]: "at_local off d c \<le> at_local off e c \<longleftrightarrow> d \<le> e"
  by (simp add: at_local_def)

lemma at_local_add: "at_local off (d + k) c = at_local off d c + k * 86400 * 1000000000"
  by (simp add: at_local_def algebra_simps)

lemma now_in_day:
  assumes "steady_days loc off now n" "1 \<le> n"
  shows "at_local off (local_day loc now) 0 \<le> now" "now < at_local off (local_day loc now + 1) 0"
    "\<bar>local_day loc now * 86400 - off - now div 1000000000\<bar> < 86400"
    "local_day loc now * 86400 \<le> now div 1000000000 + off"
proof -
  let ?N = "now div 1000000000"
  have ls: "local_secs loc now = ?N + off" by (rule local_parts [OF assms])
  have d: "local_day loc now * 86400 \<le> ?N + off" "?N + off < (local_day loc now + 1) * 86400"
    unfolding local_day_def ls by (simp_all add: minus_mod_eq_div_mult [symmetric])
  then show "\<bar>local_day loc now * 86400 - off - ?N\<bar> < 86400"
    "local_day loc now * 86400 \<le> ?N + off" by simp_all
  have N: "?N * 1000000000 \<le> now" "now < (?N + 1) * 1000000000"
    by (simp_all add: minus_mod_eq_div_mult [symmetric])
  show "at_local off (local_day loc now) 0 \<le> now"
    using d(1) N(1) by (simp add: at_local_def)
  show "now < at_local off (local_day loc now + 1) 0"
    using d(2) N(2) by (simp add: at_local_def)
qed

text \<open>An instant with a whole-second local reading is the instant of that reading.\<close>

lemma reading_at_local:
  assumes "steady_days loc off now n" "\<bar>unix_of t - unix_of now\<bar> < n * 86400"
    and "nanosecond t = 0"
  shows "t = at_local off (local_day loc t) (clock_secs loc t)"
proof -
  have "zone_offset loc t = off" by (rule steady_days_offset [OF assms(1,2)])
  then have "local_day loc t * 86400 + clock_secs loc t = t div 1000000000 + off"
    by (simp add: local_day_def clock_secs_def local_secs_def)
  moreover have "t = t div 1000000000 * 1000000000"
    using assms(3) div_mult_mod_eq [of t 1000000000] unfolding nanosecond_def by linarith
  ultimately show ?thesis by (simp add: at_local_def)
qed

text \<open>The instant \<open>t\<close> reads \<open>c\<close> seconds on the local clock, exactly, on a day that satisfies \<open>P\<close>.\<close>

definition reads :: "location \<Rightarrow> (int \<Rightarrow> bool) \<Rightarrow> int \<Rightarrow> time \<Rightarrow> bool" where
  "reads loc P c t \<longleftrightarrow> P (local_day loc t) \<and> clock_secs loc t = c \<and> nanosecond t = 0"

text \<open>\<open>t\<close> is the first instant after \<open>now\<close> with such a reading.\<close>

definition first_after :: "location \<Rightarrow> (int \<Rightarrow> bool) \<Rightarrow> int \<Rightarrow> time \<Rightarrow> time \<Rightarrow> bool" where
  "first_after loc P c now t \<longleftrightarrow>
     now < t \<and> reads loc P c t \<and> (\<forall>u. now < u \<and> u < t \<longrightarrow> \<not> reads loc P c u)"

lemma first_afterI:
  assumes "steady_days loc off now n" "0 \<le> c" "c < 86400" "1 \<le> n" "0 \<le> k" "k + 2 \<le> n"
    and t: "t = at_local off (local_day loc now + k) c" "now < t" "P (local_day loc now + k)"
    and none: "\<And>j. 0 \<le> j \<Longrightarrow> j < k \<Longrightarrow> P (local_day loc now + j) \<Longrightarrow> at_local off (local_day loc now + j) c \<le> now"
  shows "first_after loc P c now t"
  unfolding first_after_def
proof (intro conjI allI impI notI)
  let ?D = "local_day loc now"
  note nd = now_in_day [OF assms(1,4)]
  show "now < t" by fact
  have "\<bar>(?D + k) * 86400 + c - off - now div 1000000000\<bar> < n * 86400"
    using nd(3) assms(2,3,5,6) by (simp add: abs_less_iff algebra_simps)
  from at_local_parts [OF assms(1) this assms(2,3)] show "reads loc P c t"
    using t by (simp add: reads_def)
  fix u assume u: "now < u \<and> u < t" and r: "reads loc P c u"
  have tu: "unix_of t - unix_of now = (?D + k) * 86400 + c - off - now div 1000000000"
    unfolding t(1) by (simp add: at_local_def unix_of_def)
  have "unix_of now \<le> unix_of u" "unix_of u \<le> unix_of t"
    using u by (simp_all add: unix_of_def zdiv_mono1)
  moreover have "unix_of t - unix_of now < n * 86400"
    using tu nd(3) assms(3,6) by (simp add: abs_less_iff algebra_simps)
  ultimately have "\<bar>unix_of u - unix_of now\<bar> < n * 86400" by simp
  from reading_at_local [OF assms(1) this] r
  have ueq: "u = at_local off (local_day loc u) c" by (simp add: reads_def)
  have "local_day loc u < ?D + k" using u t(1) ueq by (metis at_local_less)
  moreover have "?D \<le> local_day loc u"
  proof (rule ccontr)
    assume "\<not> ?D \<le> local_day loc u"
    then have "local_day loc u \<le> ?D - 1" by simp
    then have "at_local off (local_day loc u) c \<le> at_local off (?D - 1) c" by simp
    also have "\<dots> \<le> at_local off ?D 0" using assms(3) by (simp add: at_local_def)
    finally show False using nd(1) u ueq by simp
  qed
  ultimately obtain j where "0 \<le> j" "j < k" "local_day loc u = ?D + j"
    by (metis add.commute add_le_cancel_left diff_add_cancel le_add_same_cancel1 add_less_cancel_left)
  with none [of j] r u ueq show False by (auto simp: reads_def)
qed


section \<open>Daily and weekly schedules\<close>

lemma parseTimeOfDay_bounds:
  "parseTimeOfDay v = Inr (h, m) \<Longrightarrow> 0 \<le> h \<and> h \<le> 23 \<and> 0 \<le> m \<and> m \<le> 59"
  by (auto simp: parseTimeOfDay_def split: list.splits option.splits if_splits)

lemma Date_on_day:
  assumes "steady_days loc off now n" "\<bar>d * 86400 + h * 3600 + m * 60 - off - now div 1000000000\<bar> < (n - 1) * 86400"
    and "civil_of_days d = (y, mo, dd)"
  shows "Date y mo dd h m 0 0 loc = at_local off d (h * 3600 + m * 60)"
  using Date_day [OF assms(1), of d 0 "h * 3600 + m * 60" h m 0 y mo dd 0] assms(2,3) by simp

text \<open>The candidates of both loops lie within the steady stretch.\<close>

lemma candidate_near:
  assumes "steady_days loc off now n" "1 \<le> n" "0 \<le> c" "c < 86400" "0 \<le> k" "k + 2 \<le> n"
  shows "\<bar>(local_day loc now + k) * 86400 + c - off - now div 1000000000\<bar> < n * 86400"
  using now_in_day(3) [OF assms(1,2)] assms(3-6) by (simp add: abs_less_iff algebra_simps)

text \<open>
  C15. A daily schedule in a zone whose offset does not change within four days of \<open>now\<close> (in particular in
  every fixed-offset zone) always has a next run: the first instant strictly after \<open>now\<close> at which the local
  clock reads exactly \<open>HH:mm:00\<close>, at most 24 hours away.
\<close>

theorem daily_run_is_first_after:
  assumes p: "parseTimeOfDay tod = Inr (h, m)" and l: "scheduleLocation tzdb tz = Inr loc"
    and st: "steady_days loc off now 4"
  shows "\<exists>t. nextDailyRun tzdb tod tz now = Inr t
           \<and> first_after loc (\<lambda>_. True) (h * 3600 + m * 60) now t \<and> t \<le> now + 24 * hour"
proof -
  let ?D = "local_day loc now" and ?c = "h * 3600 + m * 60"
  from parseTimeOfDay_bounds [OF p] have c: "0 \<le> ?c" "?c < 86400" by auto
  have one: "(1::int) \<le> 4" and st3: "steady_days loc off now (4::int)" using st by simp_all
  note nd = now_in_day [OF st one]
  obtain y mo d where civ: "civil_of_days ?D = (y, mo, d)" by (metis prod_cases3)
  have near: "\<bar>?D * 86400 + ?c - off - now div 1000000000\<bar> < 3 * 86400"
    using nd(3) c by (simp add: abs_less_iff)
  have cand: "Date y mo d h m 0 0 loc = at_local off ?D ?c"
    by (rule Date_on_day [OF st _ civ]) (use near in \<open>simp add: algebra_simps\<close>)
  have next_day: "AddDate 0 0 1 loc (at_local off ?D ?c) = at_local off (?D + 1) ?c"
  proof -
    have "\<bar>(?D * 86400 + ?c - off) - now div 1000000000\<bar> < 4 * 86400"
      "\<bar>(?D * 86400 + ?c - off) + 1 * 86400 - now div 1000000000\<bar> < (4 - 1) * 86400"
      using nd(3) c by (simp_all add: abs_less_iff)
    then show ?thesis
      using AddDate_steady [OF st, of "at_local off ?D ?c" 1] by (simp add: at_local_add) (simp add: at_local_def)
  qed
  let ?k = "if now < at_local off ?D ?c then 0 else (1::int)"
  let ?t = "at_local off (?D + ?k) ?c"
  have run: "nextDailyRun tzdb tod tz now = Inr ?t"
    using p l civ cand next_day by (simp add: nextDailyRun_def date_of_def After_def Let_def)
  have later: "now < ?t"
  proof (cases "now < at_local off ?D ?c")
    case False
    have "at_local off (?D + 1) 0 \<le> at_local off (?D + 1) ?c" using c by (simp add: at_local_def)
    with nd(2) False show ?thesis by simp
  qed simp
  have "first_after loc (\<lambda>_. True) ?c now ?t"
  proof (rule first_afterI [OF st c one, of ?k])
    fix j assume "0 \<le> j" "j < ?k"
    then have "j = 0" "\<not> now < at_local off ?D ?c" by (simp_all split: if_splits)
    then show "at_local off (?D + j) ?c \<le> now" by simp
  qed (use later in auto)
  moreover have "?t \<le> now + 24 * hour"
  proof (cases "now < at_local off ?D ?c")
    case True
    have "at_local off ?D ?c \<le> at_local off ?D 0 + 24 * hour" using c by (simp add: at_local_def duration_defs)
    with nd(1) True show ?thesis by simp
  next
    case False
    then show ?thesis using at_local_add [of off ?D 1 ?c] by (simp add: duration_defs)
  qed
  ultimately show ?thesis using run by blast
qed

text \<open>The weekday (Monday 1 to Sunday 7) of a day number.\<close>

definition weekday_1_7_of_day :: "int \<Rightarrow> int" where
  "weekday_1_7_of_day d = (if weekday_of_day d = 0 then 7 else weekday_of_day d)"

lemma weekday_1_7_day: "weekday_1_7 loc t = weekday_1_7_of_day (local_day loc t)"
  by (simp add: weekday_1_7_def weekday_1_7_of_day_def Weekday_def)

lemma weekday_period: "weekday_1_7_of_day (d + 7) = weekday_1_7_of_day d"
proof -
  have "(d + 7 + 1) mod 7 = (d + 1) mod 7" by presburger
  then show ?thesis unfolding weekday_1_7_of_day_def weekday_of_day_def by simp
qed

text \<open>Every weekday comes within seven days.\<close>

lemma weekday_reached:
  assumes "1 \<le> w" "w \<le> 7"
  shows "\<exists>k. 0 \<le> k \<and> k \<le> 6 \<and> weekday_1_7_of_day (d + k) = w"
proof -
  let ?k = "(w - d - 1) mod 7"
  have "(?k + (d + 1)) mod 7 = (w - d - 1 + (d + 1)) mod 7" by (rule mod_add_left_eq)
  then have "(d + ?k + 1) mod 7 = w mod 7" by (simp add: algebra_simps)
  with assms have "weekday_1_7_of_day (d + ?k) = w"
    by (cases "w = 7") (auto simp: weekday_1_7_of_day_def weekday_of_day_def)
  moreover have "0 \<le> ?k" "?k \<le> 6" using pos_mod_bound [of 7 "w - d - 1"] by auto
  ultimately show ?thesis by blast
qed

text \<open>The loop stops at the first offset whose weekday is allowed and whose candidate is late enough.\<close>

lemma weekly_loop_spec:
  "weekly_loop loc h m allowed now offsets =
     (case find (\<lambda>k. weekday_1_7 loc (AddDate 0 0 k loc now) \<in> set allowed
                   \<and> now < weekly_candidate loc h m now k) offsets of
        None \<Rightarrow> Inl (InvalidInput ''invalid_weekdays'' ''could not calculate next weekly run'')
      | Some k \<Rightarrow> Inr (weekly_candidate loc h m now k))"
  by (induction offsets) (auto simp: After_def)

lemma weekly_day:
  assumes "steady_days loc off now n" "0 \<le> k" "k + 3 \<le> n"
  shows "local_day loc (AddDate 0 0 k loc now) = local_day loc now + k"
proof -
  have n: "1 \<le> n" "0 < n" using assms by simp_all
  have add: "AddDate 0 0 k loc now = now + k * 86400 * 1000000000"
    by (rule AddDate_steady [OF assms(1)]) (use assms in \<open>auto simp: algebra_simps\<close>)
  have div: "(now + k * 86400 * 1000000000) div 1000000000 = now div 1000000000 + k * 86400" by simp
  have "zone_offset loc (AddDate 0 0 k loc now) = off"
    by (rule steady_days_offset [OF assms(1)]) (use assms div in \<open>auto simp: add unix_of_def\<close>)
  then have "local_secs loc (AddDate 0 0 k loc now) = local_secs loc now + k * 86400"
    using local_parts [OF assms(1) n(1)] div by (simp add: local_secs_def add)
  then show ?thesis by (simp add: local_day_def)
qed

lemma find_upto: "find P [0, 1, 2, 3, 4, 5, 6, 7] = Some (k::int) \<Longrightarrow>
    0 \<le> k \<and> k \<le> 7 \<and> P k \<and> (\<forall>j. 0 \<le> j \<and> j < k \<longrightarrow> \<not> P j)"
proof -
  assume f: "find P [0, 1, 2, 3, 4, 5, 6, 7] = Some k"
  have "[0, 1, 2, 3, 4, 5, 6, 7] = [0..(7::int)]" by (simp add: upto_rec1)
  with f obtain i where i: "i < length [0..7]" "P ([0..7] ! i)" "k = [0..7] ! i" "\<And>j. j < i \<Longrightarrow> \<not> P ([0..7] ! j)"
    by (auto simp: find_Some_iff)
  have "\<not> P j" if "0 \<le> j" "j < k" for j
    using i(4) [of "nat j"] that i(1,3) by simp
  with i show ?thesis by auto
qed

text \<open>
  C16. A weekly schedule with at least one weekday, all of them between 1 and 7, in a zone whose offset does not
  change within ten days of \<open>now\<close>, always has a next run: the loop never falls through. The run is the
  first instant strictly after \<open>now\<close> at which the local clock reads \<open>HH:mm:00\<close> on one of the
  chosen weekdays (Monday 1 to Sunday 7), at most seven days away.
\<close>

theorem weekly_run_is_first_after:
  assumes p: "parseTimeOfDay tod = Inr (h, m)" and l: "scheduleLocation tzdb tz = Inr loc"
    and st: "steady_days loc off now 10"
    and w: "weekdays \<noteq> []" "\<forall>d \<in> set weekdays. 1 \<le> d \<and> d \<le> 7"
  shows "\<exists>t. nextWeeklyRun tzdb tod tz weekdays now = Inr t
           \<and> first_after loc (\<lambda>d. weekday_1_7_of_day d \<in> set weekdays) (h * 3600 + m * 60) now t
           \<and> t \<le> now + 7 * 24 * hour"
proof -
  let ?D = "local_day loc now" and ?c = "h * 3600 + m * 60"
  let ?W = "\<lambda>d. weekday_1_7_of_day d \<in> set weekdays"
  let ?P = "\<lambda>k. ?W (?D + k) \<and> now < at_local off (?D + k) ?c"
  have c: "0 \<le> ?c" "?c < 86400" using parseTimeOfDay_bounds [OF p] by auto
  have one: "(1::int) \<le> 10" by simp
  note nd = now_in_day [OF st one]
  have cand: "weekly_candidate loc h m now k = at_local off (?D + k) ?c" if "0 \<le> k" "k \<le> 7" for k
  proof -
    obtain y mo d where civ: "civil_of_days (?D + k) = (y, mo, d)" by (metis prod_cases3)
    have "\<bar>(?D + k) * 86400 + h * 3600 + m * 60 - off - now div 1000000000\<bar> < (10 - 1) * 86400"
      using nd(3) c that by (simp add: abs_less_iff algebra_simps)
    from Date_on_day [OF st this civ] show ?thesis
      using weekly_day [OF st, of k] that civ by (simp add: weekly_candidate_def date_of_def)
  qed
  have agree: "(weekday_1_7 loc (AddDate 0 0 k loc now) \<in> set weekdays \<and> now < weekly_candidate loc h m now k) = ?P k"
    if "0 \<le> k" "k \<le> 7" for k
    using that weekly_day [OF st, of k] cand [of k] by (simp add: weekday_1_7_day)
  obtain k where k: "0 \<le> k" "k \<le> 7" "?P k"
  proof -
    from w obtain d where d: "d \<in> set weekdays" "1 \<le> d" "d \<le> 7" by (cases weekdays) auto
    with weekday_reached obtain j where j: "0 \<le> j" "j \<le> 6" "weekday_1_7_of_day (?D + j) = d" by blast
    have "at_local off (?D + 1) 0 \<le> at_local off (?D + e) ?c" if "1 \<le> e" for e
      using c that by (simp add: at_local_def)
    then have "now < at_local off (?D + e) ?c" if "1 \<le> e" for e
      using nd(2) that by (meson less_le_trans)
    with j d weekday_period [of ?D] that [of j] that [of 7] show ?thesis
      by (cases "j = 0") auto
  qed
  let ?F = "find (\<lambda>k. weekday_1_7 loc (AddDate 0 0 k loc now) \<in> set weekdays
                   \<and> now < weekly_candidate loc h m now k) [0, 1, 2, 3, 4, 5, 6, 7]"
  have "?F = find ?P [0, 1, 2, 3, 4, 5, 6, 7]"
  proof (rule find_cong [OF refl])
    fix x :: int assume "x \<in> set [0, 1, 2, 3, 4, 5, 6, 7]"
    then have "0 \<le> x" "x \<le> 7" by auto
    then show "(weekday_1_7 loc (AddDate 0 0 x loc now) \<in> set weekdays
      \<and> now < weekly_candidate loc h m now x) = ?P x" by (rule agree)
  qed
  moreover have "find ?P [0, 1, 2, 3, 4, 5, 6, 7] \<noteq> None"
  proof -
    have "k \<in> set [0, 1, 2, 3, 4, 5, 6, 7]" using k(1,2) by (simp, presburger)
    with k(3) show ?thesis unfolding find_None_iff' by blast
  qed
  ultimately obtain i where i: "?F = Some i" "find ?P [0, 1, 2, 3, 4, 5, 6, 7] = Some i" by auto
  from find_upto [OF i(2)] have ib: "0 \<le> i" "i \<le> 7" "?P i" "\<And>j. 0 \<le> j \<Longrightarrow> j < i \<Longrightarrow> \<not> ?P j" by auto
  let ?t = "at_local off (?D + i) ?c"
  have "list_ex (\<lambda>day. day < 1 \<or> 7 < day) weekdays = False" using w(2) by (auto simp: list_ex_iff)
  then have run: "nextWeeklyRun tzdb tod tz weekdays now = Inr ?t"
    using p l w(1) i(1) cand [OF ib(1,2)] by (simp add: nextWeeklyRun_def weekly_loop_spec)
  have fa: "first_after loc ?W ?c now ?t"
    by (rule first_afterI [OF st c one ib(1)]) (use ib in \<open>auto simp: not_less\<close>)
  have "?t \<le> now + 7 * 24 * hour"
  proof (cases "i = 7")
    case True
    with weekday_period [of ?D] ib(3) have "?W ?D" by simp
    with ib(4) [of 0] True have "at_local off ?D ?c \<le> now" by simp
    with True at_local_add [of off ?D 7 ?c] show ?thesis by (simp add: duration_defs)
  next
    case False
    then have "?t \<le> at_local off ?D 0 + 7 * 24 * hour"
      using ib(2) c by (simp add: at_local_def duration_defs)
    with nd(1) show ?thesis by simp
  qed
  with run fa show ?thesis by blast
qed


theorem daily_run_witness:
  "\<exists>t. nextDailyRun (\<lambda>_. Some (FixedZone 28800)) ''09:30'' [] (Date 2026 5 16 10 0 0 0 (FixedZone 28800)) = Inr t
     \<and> first_after (FixedZone 28800) (\<lambda>_. True) (9 * 3600 + 30 * 60)
          (Date 2026 5 16 10 0 0 0 (FixedZone 28800)) t
     \<and> t \<le> Date 2026 5 16 10 0 0 0 (FixedZone 28800) + 24 * hour"
proof -
  have p: "parseTimeOfDay ''09:30'' = Inr (9, 30)" by code_simp
  have l: "scheduleLocation (\<lambda>_. Some (FixedZone 28800)) [] = Inr (FixedZone 28800)"
    by (simp add: scheduleLocation_def)
  show ?thesis by (rule daily_run_is_first_after [OF p l, of 28800]) simp
qed

theorem weekly_run_witness:
  "\<exists>t. nextWeeklyRun (\<lambda>_. Some (FixedZone 28800)) ''09:30'' [] [1] (Date 2026 5 16 10 0 0 0 (FixedZone 28800)) = Inr t
     \<and> first_after (FixedZone 28800) (\<lambda>d. weekday_1_7_of_day d \<in> set [1]) (9 * 3600 + 30 * 60)
          (Date 2026 5 16 10 0 0 0 (FixedZone 28800)) t
     \<and> t \<le> Date 2026 5 16 10 0 0 0 (FixedZone 28800) + 7 * 24 * hour"
proof -
  have p: "parseTimeOfDay ''09:30'' = Inr (9, 30)" by code_simp
  have l: "scheduleLocation (\<lambda>_. Some (FixedZone 28800)) [] = Inr (FixedZone 28800)"
    by (simp add: scheduleLocation_def)
  show ?thesis by (rule weekly_run_is_first_after [OF p l, of 28800]) simp_all
qed

section \<open>Round trips of the stored form\<close>

lemma Itoa_no_comma: "CHR '','' \<notin> set (Itoa n)"
  using Itoa_chars [of "CHR '',''" n] digits_not_special [of "CHR '',''"] by auto

text \<open>
  C36. The weekdays of a task survive the text column they are stored in: decoding what
  \<open>EncodeWeekdays\<close> wrote gives back the same list, order and duplicates included, for every list of
  64-bit integers, the empty one too.
\<close>

theorem weekdays_roundtrip:
  assumes "\<forall>d \<in> set days. int64 d"
  shows "DecodeWeekdays (EncodeWeekdays days) = days"
proof (cases "days = []")
  case True
  have "TrimSpace [] = []"
    by (simp add: TrimSpace_def trim_left.simps trim_right.simps last_space_def decode_rune_def bytes_def)
  with True show ?thesis by (simp add: EncodeWeekdays_def DecodeWeekdays_def)
next
  case False
  let ?parts = "map Itoa days" and ?s = "Join (CHR '','') (map Itoa days)"
  have parts: "?parts \<noteq> []" "\<forall>p \<in> set ?parts. p \<noteq> []" using False by auto
  have "hd ?s = hd (Itoa (hd days))" "last ?s = last (Itoa (last days))"
    using parts False by (simp_all add: hd_Join last_Join hd_map last_map)
  then have "TrimSpace ?s = ?s" "?s \<noteq> []"
    using Join_nonempty [OF parts] by (simp_all add: TrimSpace_plain Itoa_plain)
  moreover have "Split (CHR '','') ?s = ?parts"
    by (rule Split_Join) (use False in \<open>auto simp: Itoa_no_comma\<close>)
  moreover have "List.map_filter (\<lambda>part. Atoi (TrimSpace part)) (map Itoa ds) = ds" if "\<forall>d \<in> set ds. int64 d" for ds
    using that by (induction ds) (auto simp: List.map_filter_simps TrimSpace_plain Itoa_plain Atoi_Itoa)
  ultimately show ?thesis using False assms by (simp add: EncodeWeekdays_def DecodeWeekdays_def)
qed

theorem weekdays_roundtrip_witness:
  "DecodeWeekdays (EncodeWeekdays [1, 5, 7]) = [1, 5, 7]"
  by (rule weekdays_roundtrip) (simp add: int64_def)

lemma Atoi_pad2:
  assumes "0 \<le> n" "n < 100"
  shows "Atoi (pad 2 n) = Some n" "list_all is_digit (pad 2 n)"
proof -
  have "list_all (\<lambda>n. Atoi (pad 2 n) = Some n \<and> list_all is_digit (pad 2 n)) [0..99]" by code_simp
  then have "\<forall>n \<in> set [0..99]. Atoi (pad 2 n) = Some n \<and> list_all is_digit (pad 2 n)"
    by (simp only: list_all_iff)
  with assms show "Atoi (pad 2 n) = Some n" "list_all is_digit (pad 2 n)" by auto
qed

text \<open>
  The form \<open>HH:mm\<close> with two digits each is read back as the hour and the minute it was written from, and
  whatever \<open>parseTimeOfDay\<close> accepts is a time of the day.
\<close>

theorem time_of_day_roundtrip:
  "(0 \<le> h \<and> h \<le> 23 \<and> 0 \<le> m \<and> m \<le> 59 \<longrightarrow> parseTimeOfDay (pad 2 h @ CHR '':'' # pad 2 m) = Inr (h, m))
   \<and> (parseTimeOfDay v = Inr (h, m) \<longrightarrow> 0 \<le> h \<and> h \<le> 23 \<and> 0 \<le> m \<and> m \<le> 59)"
proof (intro conjI impI)
  assume A: "0 \<le> h \<and> h \<le> 23 \<and> 0 \<le> m \<and> m \<le> 59"
  then have hm: "Atoi (pad 2 h) = Some h" "Atoi (pad 2 m) = Some m"
    "list_all is_digit (pad 2 h)" "list_all is_digit (pad 2 m)"
    using Atoi_pad2 [of h] Atoi_pad2 [of m] by auto
  then have "CHR '':'' \<notin> set (pad 2 h)" "CHR '':'' \<notin> set (pad 2 m)"
    using digits_not_special [of "CHR '':''"] by (auto simp: list_all_iff)
  then have "Split (CHR '':'') (pad 2 h @ CHR '':'' # pad 2 m) = [pad 2 h, pad 2 m]"
    by (simp add: Split_append Split_no_sep)
  with hm A show "parseTimeOfDay (pad 2 h @ CHR '':'' # pad 2 m) = Inr (h, m)"
    by (simp add: parseTimeOfDay_def)
qed (auto dest: parseTimeOfDay_bounds)

theorem time_of_day_roundtrip_witness:
  "parseTimeOfDay (pad 2 9 @ CHR '':'' # pad 2 5) = Inr (9, 5) \<and> pad 2 9 = ''09''"
  using time_of_day_roundtrip [of 9 5 "[]"] by (simp add: pad_def) code_simp

section \<open>Across a change of offset\<close>

text \<open>
  A zone that is 4 hours behind UTC until the Unix second 1788667200 (2026-09-06T04:00:00Z, local midnight) and 3 hours
  behind from then on: at midnight the clocks jump to 01:00, the spring rule of America/Santiago.
\<close>

definition midnight_gap_zone :: location where
  "midnight_gap_zone u =
     (if u < 1788667200 then (-14400, - (2 ^ 63), 1788667200) else (-10800, 1788667200, 2 ^ 63 - 1))"


end
