(* ===== verification/Hub.thy ===== *)
theory Hub
  imports Domain "HOL-Library.Sublist"
begin

text \<open>
  The realtime hub (\<open>internal/realtime/hub.go\<close>): subscribers are buffered channels, and a publish sends to
  each without blocking. The first part is each method as a function on the hub's state; the second is the
  concurrent system: publishers that hold the read lock and visit the subscribers one channel at a time, with
  receivers running in between, while subscribing and cancelling need the write lock and so run only when no
  publisher is inside. Sending on a closed channel panics in Go; the invariant excludes it.
\<close>

section \<open>Events\<close>

datatype rt_data =
    RtDevice device_dto
  | RtSubscribe subscribe_event
  | RtMessage message_dto
  | RtDisconnect disconnect_event
  | RtAlert system_alert

record realtime_event =
  rt_Type :: string
  rt_Data :: rt_data
  rt_At :: string

section \<open>The hub\<close>

record channel =
  ch_queue :: "realtime_event list"
  ch_closed :: bool

text \<open>Channels are numbered; \<open>hub_subs\<close> are the keys of the Go map, in the order of its current iteration.\<close>

record hub =
  hub_subs :: "nat list"
  hub_chans :: "nat \<Rightarrow> channel"
  hub_next :: nat
  hub_buffer :: int

definition NewHub :: "int \<Rightarrow> hub" where
  "NewHub buffer = \<lparr>hub_subs = [], hub_chans = (\<lambda>_. \<lparr>ch_queue = [], ch_closed = False\<rparr>), hub_next = 0,
     hub_buffer = (if buffer \<le> 0 then 64 else buffer)\<rparr>"

text \<open>\<open>select { case ch <- event: default: }\<close>; \<open>None\<close> is the panic of a send on a closed channel.\<close>

definition try_send :: "int \<Rightarrow> realtime_event \<Rightarrow> channel \<Rightarrow> channel option" where
  "try_send capacity ev ch =
     (if ch_closed ch then None
      else if int (length (ch_queue ch)) < capacity then Some (ch\<lparr>ch_queue := ch_queue ch @ [ev]\<rparr>)
      else Some ch)"

definition send_to :: "realtime_event \<Rightarrow> nat \<Rightarrow> hub \<Rightarrow> hub option" where
  "send_to ev c h =
     (case try_send (hub_buffer h) ev (hub_chans h c) of
        None \<Rightarrow> None | Some ch \<Rightarrow> Some (h\<lparr>hub_chans := (hub_chans h)(c := ch)\<rparr>))"

fun send_all :: "realtime_event \<Rightarrow> nat list \<Rightarrow> hub \<Rightarrow> hub option" where
  "send_all ev [] h = Some h"
| "send_all ev (c # cs) h = (case send_to ev c h of None \<Rightarrow> None | Some h' \<Rightarrow> send_all ev cs h')"

definition stamp :: "time \<Rightarrow> realtime_event \<Rightarrow> realtime_event" where
  "stamp now ev = (if rt_At ev = [] then ev\<lparr>rt_At := rfc3339_nano now\<rparr> else ev)"

definition hub_publish :: "time \<Rightarrow> realtime_event \<Rightarrow> hub \<Rightarrow> hub option" where
  "hub_publish now ev h = send_all (stamp now ev) (hub_subs h) h"

definition hub_subscribe :: "hub \<Rightarrow> nat \<times> hub" where
  "hub_subscribe h =
     (hub_next h, h\<lparr>hub_subs := hub_subs h @ [hub_next h],
        hub_chans := (hub_chans h)(hub_next h := \<lparr>ch_queue = [], ch_closed = False\<rparr>),
        hub_next := Suc (hub_next h)\<rparr>)"

definition hub_cancel :: "nat \<Rightarrow> hub \<Rightarrow> hub" where
  "hub_cancel c h =
     (if c \<in> set (hub_subs h)
      then h\<lparr>hub_subs := removeAll c (hub_subs h),
             hub_chans := (hub_chans h)(c := (hub_chans h c)\<lparr>ch_closed := True\<rparr>)\<rparr>
      else h)"

text \<open>One receive from a channel: the oldest event, or nothing when the queue is empty.\<close>

definition hub_receive :: "nat \<Rightarrow> hub \<Rightarrow> realtime_event option \<times> hub" where
  "hub_receive c h =
     (case ch_queue (hub_chans h c) of
        [] \<Rightarrow> (None, h)
      | ev # rest \<Rightarrow> (Some ev, h\<lparr>hub_chans := (hub_chans h)(c := (hub_chans h c)\<lparr>ch_queue := rest\<rparr>)\<rparr>))"

definition hub_ok :: "hub \<Rightarrow> bool" where
  "hub_ok h \<longleftrightarrow> 1 \<le> hub_buffer h \<and> distinct (hub_subs h)
     \<and> (\<forall>c \<in> set (hub_subs h). c < hub_next h \<and> \<not> ch_closed (hub_chans h c))
     \<and> (\<forall>c. int (length (ch_queue (hub_chans h c))) \<le> hub_buffer h)"

lemma hub_ok_NewHub: "hub_ok (NewHub n)"
  by (simp add: hub_ok_def NewHub_def)

lemma send_to_ok:
  assumes "hub_ok h" "c \<in> set (hub_subs h)"
  obtains h' where "send_to ev c h = Some h'" "hub_ok h'" "hub_subs h' = hub_subs h" "hub_next h' = hub_next h"
    "hub_buffer h' = hub_buffer h" "\<And>d. d \<noteq> c \<Longrightarrow> hub_chans h' d = hub_chans h d"
    "ch_queue (hub_chans h' c) = ch_queue (hub_chans h c) @
       (if int (length (ch_queue (hub_chans h c))) < hub_buffer h then [ev] else [])"
    "ch_closed (hub_chans h' c) = ch_closed (hub_chans h c)"
proof -
  have open_c: "\<not> ch_closed (hub_chans h c)" using assms by (simp add: hub_ok_def)
  let ?ch = "(hub_chans h c)\<lparr>ch_queue := ch_queue (hub_chans h c) @
       (if int (length (ch_queue (hub_chans h c))) < hub_buffer h then [ev] else [])\<rparr>"
  let ?h = "h\<lparr>hub_chans := (hub_chans h)(c := ?ch)\<rparr>"
  have sent: "send_to ev c h = Some ?h" using open_c by (simp add: send_to_def try_send_def)
  have "hub_ok ?h" using assms by (auto simp: hub_ok_def)
  with sent show thesis by (rule that) simp_all
qed

lemma send_all_ok:
  assumes "hub_ok h" "set cs \<subseteq> set (hub_subs h)" "distinct cs"
  shows "\<exists>h'. send_all ev cs h = Some h' \<and> hub_ok h' \<and> hub_subs h' = hub_subs h \<and> hub_buffer h' = hub_buffer h
     \<and> hub_next h' = hub_next h
     \<and> (\<forall>c. ch_closed (hub_chans h' c) = ch_closed (hub_chans h c) \<and> ch_queue (hub_chans h' c) = ch_queue (hub_chans h c) @
          (if c \<in> set cs \<and> int (length (ch_queue (hub_chans h c))) < hub_buffer h then [ev] else []))"
  using assms
proof (induction cs arbitrary: h)
  case (Cons c cs)
  then obtain h1 where h1: "send_to ev c h = Some h1" "hub_ok h1" "hub_subs h1 = hub_subs h" "hub_next h1 = hub_next h"
    "hub_buffer h1 = hub_buffer h" "\<And>d. d \<noteq> c \<Longrightarrow> hub_chans h1 d = hub_chans h d"
    "ch_queue (hub_chans h1 c) = ch_queue (hub_chans h c) @
       (if int (length (ch_queue (hub_chans h c))) < hub_buffer h then [ev] else [])"
    "ch_closed (hub_chans h1 c) = ch_closed (hub_chans h c)"
    by (auto elim: send_to_ok [of h c ev])
  from Cons.IH [of h1] Cons.prems h1(2,3) obtain h' where h': "send_all ev cs h1 = Some h'" "hub_ok h'"
    "hub_subs h' = hub_subs h1" "hub_buffer h' = hub_buffer h1" "hub_next h' = hub_next h1"
    "\<And>d. ch_closed (hub_chans h' d) = ch_closed (hub_chans h1 d)"
    "\<And>d. ch_queue (hub_chans h' d) = ch_queue (hub_chans h1 d) @
          (if d \<in> set cs \<and> int (length (ch_queue (hub_chans h1 d))) < hub_buffer h1 then [ev] else [])"
    by auto
  have "c \<notin> set cs" using Cons.prems(3) by simp
  show ?case
  proof (intro exI [of _ h'] conjI allI)
    fix d
    show "ch_closed (hub_chans h' d) = ch_closed (hub_chans h d)"
      using h1(6,8) h'(6) by (cases "d = c") auto
    show "ch_queue (hub_chans h' d) = ch_queue (hub_chans h d) @
          (if d \<in> set (c # cs) \<and> int (length (ch_queue (hub_chans h d))) < hub_buffer h then [ev] else [])"
      using h1(5-7) h'(7) \<open>c \<notin> set cs\<close> by (cases "d = c") auto
  qed (use h1 h' in simp_all)
qed simp

text \<open>
  C26. Publishing to the hub never blocks, never panics and never loses its own bookkeeping: from a well-formed hub a
  publish returns, every subscribed channel with free capacity gets the event at the end of its queue, a full one
  keeps its queue (the event is dropped for it), no other channel changes, and no queue passes the capacity.
\<close>

theorem publish_reaches_free_subscribers:
  assumes "hub_ok h"
  shows "\<exists>h'. hub_publish now ev h = Some h' \<and> hub_ok h' \<and> hub_subs h' = hub_subs h \<and>
     (\<forall>c. ch_queue (hub_chans h' c) = ch_queue (hub_chans h c) @
        (if c \<in> set (hub_subs h) \<and> int (length (ch_queue (hub_chans h c))) < hub_buffer h
         then [stamp now ev] else []))"
  using send_all_ok [OF assms order_refl, of "stamp now ev"] assms
  by (auto simp: hub_publish_def hub_ok_def)

definition sample_event :: realtime_event where
  "sample_event = \<lparr>rt_Type = ''system.alert'', rt_Data = RtDisconnect \<lparr>de_ClientID = ''d'', de_SessionID = [],
     de_Reason = [], de_ExpireSession = False, de_DisconnectedAt = 0\<rparr>, rt_At = ''t''\<rparr>"

theorem publish_reaches_witness:
  "\<exists>h'. hub_publish 0 sample_event (snd (hub_subscribe (NewHub 2))) = Some h' \<and> hub_ok h'
     \<and> ch_queue (hub_chans h' 0) = [sample_event]"
proof -
  have "hub_ok (snd (hub_subscribe (NewHub 2)))"
    by (simp add: hub_subscribe_def NewHub_def hub_ok_def)
  from publish_reaches_free_subscribers [OF this, of 0 sample_event] show ?thesis
    by (auto simp: hub_subscribe_def NewHub_def stamp_def sample_event_def)
qed

lemma hub_ok_subscribe: "hub_ok h \<Longrightarrow> hub_ok (snd (hub_subscribe h))"
  by (auto simp: hub_ok_def hub_subscribe_def)

lemma hub_ok_cancel: "hub_ok h \<Longrightarrow> hub_ok (hub_cancel c h)"
  by (auto simp: hub_ok_def hub_cancel_def distinct_removeAll)

lemma hub_ok_receive: "hub_ok h \<Longrightarrow> hub_ok (snd (hub_receive c h))"
proof -
  assume ok: "hub_ok h"
  then have len: "int (length (ch_queue (hub_chans h c))) \<le> hub_buffer h" by (simp add: hub_ok_def)
  show ?thesis
  proof (cases "ch_queue (hub_chans h c)")
    case Nil
    with ok show ?thesis by (simp add: hub_receive_def)
  next
    case (Cons ev rest)
    with len have "int (length rest) \<le> hub_buffer h" by simp
    with Cons ok show ?thesis by (auto simp: hub_ok_def hub_receive_def)
  qed
qed

section \<open>Concurrent publishers\<close>

text \<open>
  Each publisher in its critical section has its event and the subscribers it still has to visit. The map cannot
  change while a read lock is held, so the remaining list is fixed at the start; its order is Go's arbitrary
  iteration order.
\<close>

record hub_system =
  sys_hub :: hub
  sys_publishers :: "nat \<rightharpoonup> realtime_event \<times> nat list"
  sys_panic :: bool

definition init_system :: "int \<Rightarrow> hub_system" where
  "init_system buffer = \<lparr>sys_hub = NewHub buffer, sys_publishers = Map.empty, sys_panic = False\<rparr>"

inductive hub_step :: "hub_system \<Rightarrow> hub_system \<Rightarrow> bool" where
  publish_enter: "sys_publishers s p = None \<Longrightarrow> set order = set (hub_subs (sys_hub s)) \<Longrightarrow> distinct order \<Longrightarrow>
     hub_step s (s\<lparr>sys_publishers := (sys_publishers s)(p \<mapsto> (ev, order))\<rparr>)"
| publish_send: "sys_publishers s p = Some (ev, c # cs) \<Longrightarrow> send_to ev c (sys_hub s) = Some h \<Longrightarrow>
     hub_step s (s\<lparr>sys_hub := h, sys_publishers := (sys_publishers s)(p \<mapsto> (ev, cs))\<rparr>)"
| publish_panic: "sys_publishers s p = Some (ev, c # cs) \<Longrightarrow> send_to ev c (sys_hub s) = None \<Longrightarrow>
     hub_step s (s\<lparr>sys_panic := True\<rparr>)"
| publish_leave: "sys_publishers s p = Some (ev, []) \<Longrightarrow>
     hub_step s (s\<lparr>sys_publishers := (sys_publishers s)(p := None)\<rparr>)"
| subscribe: "sys_publishers s = Map.empty \<Longrightarrow>
     hub_step s (s\<lparr>sys_hub := snd (hub_subscribe (sys_hub s))\<rparr>)"
| cancel: "sys_publishers s = Map.empty \<Longrightarrow>
     hub_step s (s\<lparr>sys_hub := hub_cancel c (sys_hub s)\<rparr>)"
| receive: "hub_step s (s\<lparr>sys_hub := snd (hub_receive c (sys_hub s))\<rparr>)"

inductive_cases hub_stepE: "hub_step s t"

inductive hub_reachable :: "int \<Rightarrow> hub_system \<Rightarrow> bool" for buffer where
  hub_start: "hub_reachable buffer (init_system buffer)"
| hub_move: "hub_reachable buffer s \<Longrightarrow> hub_step s t \<Longrightarrow> hub_reachable buffer t"

definition system_ok :: "hub_system \<Rightarrow> bool" where
  "system_ok s \<longleftrightarrow> hub_ok (sys_hub s) \<and> \<not> sys_panic s
     \<and> (\<forall>p ev cs. sys_publishers s p = Some (ev, cs) \<longrightarrow> set cs \<subseteq> set (hub_subs (sys_hub s)))"

lemma hub_receive_subs [simp]: "hub_subs (snd (hub_receive c h)) = hub_subs h"
  by (simp add: hub_receive_def split: list.split)

lemma system_ok_step: "hub_step s t \<Longrightarrow> system_ok s \<Longrightarrow> system_ok t"
proof (induction rule: hub_step.induct)
  case (publish_send s p ev c cs h)
  then have ok: "hub_ok (sys_hub s)" "c \<in> set (hub_subs (sys_hub s))"
    by (force simp: system_ok_def)+
  obtain h' where "send_to ev c (sys_hub s) = Some h'" "hub_ok h'" "hub_subs h' = hub_subs (sys_hub s)"
    by (rule send_to_ok [OF ok]) blast
  with publish_send show ?case by (simp add: system_ok_def) fastforce
next
  case (publish_panic s p ev c cs)
  then have ok: "hub_ok (sys_hub s)" "c \<in> set (hub_subs (sys_hub s))"
    by (force simp: system_ok_def)+
  obtain h' where "send_to ev c (sys_hub s) = Some h'" by (rule send_to_ok [OF ok]) blast
  with publish_panic show ?case by simp
next
  case (publish_leave s p ev)
  then show ?case by (auto simp: system_ok_def split: if_splits)
qed (auto simp: system_ok_def hub_ok_subscribe hub_ok_cancel hub_ok_receive split: if_splits)

text \<open>
  C3. No send on a closed channel. In every state reachable by any interleaving of publishers (visiting the subscribers
  in any order, with receives and other publishers in between), subscribers and cancellations, no publisher has
  panicked, every channel still to be visited by a publisher is open, and every queue is within the buffer.
\<close>

theorem hub_never_panics:
  assumes "hub_reachable buffer s"
  shows "\<not> sys_panic s
    \<and> (\<forall>p ev cs c. sys_publishers s p = Some (ev, cs) \<and> c \<in> set cs \<longrightarrow> \<not> ch_closed (hub_chans (sys_hub s) c))
    \<and> (\<forall>c. int (length (ch_queue (hub_chans (sys_hub s) c))) \<le> hub_buffer (sys_hub s))"
proof -
  from assms have "system_ok s"
  proof (induction rule: hub_reachable.induct)
    case hub_start
    then show ?case by (simp add: system_ok_def init_system_def hub_ok_NewHub)
  next
    case (hub_move s t)
    then show ?case by (blast intro: system_ok_step)
  qed
  then show ?thesis unfolding system_ok_def hub_ok_def by blast
qed

theorem hub_never_panics_witness:
  "\<exists>s. hub_reachable 1 s \<and> sys_publishers s 0 = Some (sample_event, [0]) \<and> \<not> sys_panic s"
proof -
  let ?a = "(init_system 1)\<lparr>sys_hub := snd (hub_subscribe (sys_hub (init_system 1)))\<rparr>"
  let ?b = "?a\<lparr>sys_publishers := (sys_publishers ?a)(0 \<mapsto> (sample_event, [0]))\<rparr>"
  have "hub_step (init_system 1) ?a" by (rule hub_step.subscribe) (simp add: init_system_def)
  moreover have "hub_step ?a ?b"
    by (rule hub_step.publish_enter) (simp_all add: init_system_def hub_subscribe_def NewHub_def)
  ultimately have r: "hub_reachable 1 ?b" by (meson hub_reachable.intros)
  from hub_never_panics [OF r] r show ?thesis by (intro exI [of _ ?b]) simp
qed

end
