(* ===== verification/RateLimiter.thy ===== *)
theory RateLimiter
  imports Domain
begin

text \<open>
  The connection limiter of the broker (\<open>internal/broker/rate_limiter.go\<close>): a sliding window of
  accepted connection times per key. The mutex makes \<open>Allow\<close> atomic, so a run is a list of calls. The
  main facts: the in-place compaction of the slice is \<open>filter\<close>, and no window of the configured length ever
  holds more accepted calls of a key than the limit.
\<close>

section \<open>The limiter\<close>

record connect_limiter =
  lim_limit :: int
  lim_window :: int
  lim_hits :: "string \<rightharpoonup> time list"

definition newConnectLimiter :: "int \<Rightarrow> int \<Rightarrow> connect_limiter" where
  "newConnectLimiter limit window =
     (let limit = (if limit \<le> 0 then 120 else limit);
          window = (if window \<le> 0 then minute else window)
      in \<lparr>lim_limit = limit, lim_window = window, lim_hits = Map.empty\<rparr>)"

text \<open>The entry of a key; a missing entry is the nil slice.\<close>

definition hits_of :: "connect_limiter \<Rightarrow> string \<Rightarrow> time list" where
  "hits_of l key = (case lim_hits l key of None \<Rightarrow> [] | Some hs \<Rightarrow> hs)"

text \<open>
  The loop \<open>recent := hits[:0]; for _, hit := range hits { if hit.After(cutoff) { recent = append(recent, hit) } }\<close>.
  \<open>recent\<close> shares the array \<open>arr\<close> of \<open>hits\<close>: the append writes slot \<open>j\<close> of the array the
  loop is reading at slot \<open>i\<close>. The result is the slice of the first \<open>j\<close> slots.
\<close>

function compact :: "time \<Rightarrow> nat \<Rightarrow> nat \<Rightarrow> time list \<Rightarrow> time list" where
  "compact cutoff i j arr =
     (if i < length arr
      then (if After (arr ! i) cutoff then compact cutoff (Suc i) (Suc j) (arr[j := arr ! i])
            else compact cutoff (Suc i) j arr)
      else take j arr)"
  by pat_completeness auto
termination
  by (relation "measure (\<lambda>(cutoff, i, j, arr). length arr - i)") auto

declare compact.simps [simp del]

definition Allow :: "string \<Rightarrow> time \<Rightarrow> connect_limiter \<Rightarrow> bool \<times> connect_limiter" where
  "Allow key now l =
     (let cutoff = now - lim_window l;
          recent = compact cutoff 0 0 (hits_of l key)
      in if lim_limit l \<le> int (length recent)
         then (False, l\<lparr>lim_hits := (lim_hits l)(key \<mapsto> recent)\<rparr>)
         else (True, l\<lparr>lim_hits := (lim_hits l)(key \<mapsto> recent @ [now])\<rparr>))"

text \<open>A run of calls, and the times of the accepted calls of one key, oldest first.\<close>

fun allow_all :: "connect_limiter \<Rightarrow> (string \<times> time) list \<Rightarrow> connect_limiter" where
  "allow_all l [] = l"
| "allow_all l ((k, t) # cs) = allow_all (snd (Allow k t l)) cs"

fun accepted :: "string \<Rightarrow> connect_limiter \<Rightarrow> (string \<times> time) list \<Rightarrow> time list" where
  "accepted key l [] = []"
| "accepted key l ((k, t) # cs) =
     (if k = key \<and> fst (Allow k t l) then [t] else []) @ accepted key (snd (Allow k t l)) cs"

section \<open>The compaction is a filter\<close>

lemma compact_invariant:
  assumes "j \<le> i" "i \<le> length orig" "length arr = length orig"
    and "take j arr = filter (\<lambda>h. cutoff < h) (take i orig)" "drop i arr = drop i orig"
  shows "compact cutoff i j arr = filter (\<lambda>h. cutoff < h) orig"
  using assms
proof (induction cutoff i j arr rule: compact.induct)
  case (1 cutoff i j arr)
  show ?case
  proof (cases "i < length arr")
    case False
    with "1.prems" show ?thesis by (subst compact.simps) simp
  next
    case True
    have hd: "arr ! i = orig ! i" "drop (Suc i) arr = drop (Suc i) orig"
      using "1.prems"(3,5) True by (metis hd_drop_conv_nth) (metis "1.prems"(5) drop_Suc tl_drop)
    have next_take: "take (Suc i) orig = take i orig @ [orig ! i]"
      using True "1.prems"(3) by (simp add: take_Suc_conv_app_nth)
    show ?thesis
    proof (cases "cutoff < arr ! i")
      case True: True
      have "take (Suc j) (arr[j := arr ! i]) = take j arr @ [arr ! i]"
        using \<open>i < length arr\<close> "1.prems"(1) by (simp add: take_Suc_conv_app_nth)
      moreover have "drop (Suc i) (arr[j := arr ! i]) = drop (Suc i) orig"
        using "1.prems"(1) hd(2) by simp
      ultimately have "compact cutoff (Suc i) (Suc j) (arr[j := arr ! i]) = filter (\<lambda>h. cutoff < h) orig"
        using "1.IH"(1) \<open>i < length arr\<close> True "1.prems" hd next_take by (simp add: After_def)
      with True \<open>i < length arr\<close> show ?thesis by (subst compact.simps) (simp add: After_def)
    next
      case False
      then have "compact cutoff (Suc i) j arr = filter (\<lambda>h. cutoff < h) orig"
        using "1.IH"(2) \<open>i < length arr\<close> "1.prems" hd next_take by (simp add: After_def)
      with False \<open>i < length arr\<close> show ?thesis by (subst compact.simps) (simp add: After_def)
    qed
  qed
qed

lemma compact_filter: "compact cutoff 0 0 arr = filter (\<lambda>h. cutoff < h) arr"
  by (rule compact_invariant) simp_all

text \<open>
  C25. Reusing the slice of a key as the destination of its own filtering is safe: the loop that appends to
  \<open>hits[:0]\<close> while it ranges over \<open>hits\<close> returns exactly the entries later than the cutoff, in order,
  and \<open>Allow\<close> therefore accepts a call if and only if fewer than \<open>limit\<close> accepted calls of that key are younger
  than the window; it touches no other key.
\<close>

theorem allow_counts_recent:
  "(fst (Allow key now l) \<longleftrightarrow>
      int (length (filter (\<lambda>h. now - lim_window l < h) (hits_of l key))) < lim_limit l)
   \<and> compact (now - lim_window l) 0 0 (hits_of l key) = filter (\<lambda>h. now - lim_window l < h) (hits_of l key)
   \<and> (\<forall>k. k \<noteq> key \<longrightarrow> hits_of (snd (Allow key now l)) k = hits_of l k)"
  by (auto simp: Allow_def Let_def compact_filter hits_of_def)

theorem allow_counts_recent_witness:
  "\<not> fst (Allow ''a'' 5 \<lparr>lim_limit = 2, lim_window = 10, lim_hits = [''a'' \<mapsto> [-9, 1, 2]]\<rparr>)
   \<and> hits_of (snd (Allow ''a'' 5 \<lparr>lim_limit = 2, lim_window = 10, lim_hits = [''a'' \<mapsto> [-9, 1, 2]]\<rparr>)) ''b'' = []"
  using allow_counts_recent [of "''a''" 5 "\<lparr>lim_limit = 2, lim_window = 10, lim_hits = [''a'' \<mapsto> [-9, 1, 2]]\<rparr>"]
  by (auto simp: hits_of_def)

section \<open>The window bound\<close>

lemma allow_parameters [simp]:
  "lim_limit (snd (Allow k t l)) = lim_limit l" "lim_window (snd (Allow k t l)) = lim_window l"
  by (simp_all add: Allow_def Let_def)

lemma hits_of_Allow:
  "hits_of (snd (Allow k t l)) key =
     (if k = key then filter (\<lambda>h. t - lim_window l < h) (hits_of l key) @ (if fst (Allow k t l) then [t] else [])
      else hits_of l key)"
  by (auto simp: Allow_def Let_def compact_filter hits_of_def)

definition in_window :: "time \<Rightarrow> int \<Rightarrow> time list \<Rightarrow> nat" where
  "in_window T w ts = length (filter (\<lambda>t. T - w < t \<and> t \<le> T) ts)"

text \<open>
  What the limiter keeps true of a key: with \<open>g\<close> the accepted times so far, none later than \<open>latest\<close>, its
  entry is those later than some cutoff that has left the window, and every window holds at most the limit.
\<close>

definition limiter_inv :: "string \<Rightarrow> connect_limiter \<Rightarrow> time list \<Rightarrow> time \<Rightarrow> bool" where
  "limiter_inv key l g latest \<longleftrightarrow>
     (\<exists>c. c \<le> latest - lim_window l \<and> hits_of l key = filter (\<lambda>t. c < t) g)
     \<and> (\<forall>t \<in> set g. t \<le> latest) \<and> 1 \<le> lim_limit l \<and> 0 < lim_window l
     \<and> (\<forall>T. int (in_window T (lim_window l) g) \<le> lim_limit l)"

lemma filter_younger: "c \<le> d \<Longrightarrow> filter (\<lambda>h::int. d < h) (filter (\<lambda>h. c < h) g) = filter (\<lambda>h. d < h) g"
  by (induction g) auto

lemma in_window_latest:
  "\<forall>h \<in> set g. h \<le> T \<Longrightarrow> in_window T w g = length (filter (\<lambda>h. T - w < h) g)"
  unfolding in_window_def by (rule arg_cong [of _ _ length]) (rule filter_cong, auto)

lemma younger_mono: "t \<le> T \<Longrightarrow> length (filter (\<lambda>h::int. T - w < h) g) \<le> length (filter (\<lambda>h. t - w < h) g)"
  by (induction g) auto

lemma window_append:
  assumes le: "\<forall>h \<in> set g. h \<le> t" and bound: "int (in_window T w g) \<le> n"
    and accept: "int (length (filter (\<lambda>h. t - w < h) g)) < n"
  shows "int (in_window T w (g @ [t])) \<le> n"
proof (cases "t \<le> T")
  case False
  then show ?thesis using bound by (simp add: in_window_def)
next
  case True
  have "in_window T w (g @ [t]) \<le> Suc (in_window T w g)" by (simp add: in_window_def)
  also have "in_window T w g = length (filter (\<lambda>h. T - w < h) g)"
    using le True by (intro in_window_latest) auto
  also have "\<dots> \<le> length (filter (\<lambda>h. t - w < h) g)" by (rule younger_mono [OF True])
  finally show ?thesis using accept by simp
qed

lemma limiter_inv_step:
  assumes inv: "limiter_inv key l g latest" and t: "latest \<le> t"
  shows "limiter_inv key (snd (Allow key t l)) (g @ (if fst (Allow key t l) then [t] else [])) t"
proof -
  let ?w = "lim_window l"
  from inv obtain c where c: "c \<le> latest - ?w" "hits_of l key = filter (\<lambda>t. c < t) g"
    and le: "\<forall>t \<in> set g. t \<le> latest" and one: "1 \<le> lim_limit l" "0 < ?w"
    and bound: "\<forall>T. int (in_window T ?w g) \<le> lim_limit l"
    by (auto simp: limiter_inv_def)
  have recent: "filter (\<lambda>h. t - ?w < h) (hits_of l key) = filter (\<lambda>h. t - ?w < h) g"
    unfolding c(2) by (rule filter_younger) (use c(1) t in simp)
  have le': "\<forall>h \<in> set g. h \<le> t" using le t by force
  show ?thesis
  proof (cases "fst (Allow key t l)")
    case True
    then have accept: "int (length (filter (\<lambda>h. t - ?w < h) g)) < lim_limit l"
      using recent by (simp add: Allow_def Let_def compact_filter split: if_splits)
    have "\<forall>T. int (in_window T ?w (g @ [t])) \<le> lim_limit l"
      using window_append [OF le' _ accept] bound by simp
    moreover have "hits_of (snd (Allow key t l)) key = filter (\<lambda>h. t - ?w < h) (g @ [t])"
      using recent one True by (simp add: hits_of_Allow)
    ultimately show ?thesis
      using one le' True unfolding limiter_inv_def by (intro conjI exI [of _ "t - ?w"]) simp_all
  next
    case False
    then have "hits_of (snd (Allow key t l)) key = filter (\<lambda>h. t - ?w < h) g"
      using recent by (simp add: hits_of_Allow)
    then show ?thesis
      using one le' bound False unfolding limiter_inv_def by (intro conjI exI [of _ "t - ?w"]) simp_all
  qed
qed

lemma limiter_inv_other:
  "limiter_inv key l g latest \<Longrightarrow> k \<noteq> key \<Longrightarrow> limiter_inv key (snd (Allow k t l)) g latest"
  by (simp add: limiter_inv_def hits_of_Allow)

lemma limiter_inv_run:
  assumes "limiter_inv key l g latest" "sorted (map snd (filter (\<lambda>c. fst c = key) calls))"
    and "\<forall>c \<in> set calls. fst c = key \<longrightarrow> latest \<le> snd c"
  shows "int (in_window T (lim_window l) (g @ accepted key l calls)) \<le> lim_limit l"
  using assms
proof (induction calls arbitrary: l g latest)
  case Nil
  then show ?case by (simp add: limiter_inv_def)
next
  case (Cons c calls)
  obtain k t where c: "c = (k, t)" by (cases c)
  show ?case
  proof (cases "k = key")
    case True
    let ?l = "snd (Allow key t l)" and ?g = "g @ (if fst (Allow key t l) then [t] else [])"
    have "limiter_inv key ?l ?g t"
      using Cons.prems c True by (intro limiter_inv_step [where latest = latest]) auto
    moreover have "\<forall>c \<in> set calls. fst c = key \<longrightarrow> t \<le> snd c" "sorted (map snd (filter (\<lambda>c. fst c = key) calls))"
      using Cons.prems(2) c True by auto
    ultimately have "int (in_window T (lim_window ?l) (?g @ accepted key ?l calls)) \<le> lim_limit ?l"
      using Cons.IH by blast
    with c True show ?thesis by (simp split: if_splits)
  next
    case False
    with Cons c show ?thesis
      using Cons.IH [OF limiter_inv_other [of key l g latest k t]] by simp
  qed
qed

text \<open>
  C4. Rate limit. Starting from \<open>newConnectLimiter\<close>, whatever calls are made for whatever keys, as long as the
  clock readings of one key do not go back, every half-open time window of the limiter's length contains at most
  \<open>limit\<close> accepted calls of that key; a non-positive limit or window means the default of 120 calls and of one
  minute.
\<close>

theorem limiter_window_bound:
  assumes "sorted (map snd (filter (\<lambda>c. fst c = key) calls))"
  shows "int (in_window T (if window \<le> 0 then minute else window)
           (accepted key (newConnectLimiter limit window) calls)) \<le> (if limit \<le> 0 then 120 else limit)"
proof -
  let ?l = "newConnectLimiter limit window"
  let ?latest = "Min (insert 0 (snd ` set calls))"
  have "limiter_inv key ?l [] ?latest"
    by (auto simp: limiter_inv_def newConnectLimiter_def hits_of_def in_window_def duration_defs)
  moreover have "\<forall>c \<in> set calls. fst c = key \<longrightarrow> ?latest \<le> snd c" by (auto intro: Min_le)
  ultimately have "int (in_window T (lim_window ?l) ([] @ accepted key ?l calls)) \<le> lim_limit ?l"
    using assms by (intro limiter_inv_run)
  then show ?thesis by (simp add: newConnectLimiter_def)
qed

theorem limiter_window_bound_witness:
  "int (in_window 12 10 (accepted ''a'' (newConnectLimiter 2 10) [(''a'', 1), (''b'', 1), (''a'', 3), (''a'', 4), (''a'', 12)])) \<le> 2"
  using limiter_window_bound [of "''a''" "[(''a'', 1), (''b'', 1), (''a'', 3), (''a'', 4), (''a'', 12)]" 12 10 2] by simp

end
