(* ===== verification/Database.thy ===== *)
theory Database
  imports Schedule Hub RateLimiter
begin

text \<open>
  The PostgreSQL database as the program uses it: the tables of
  \<open>internal/storage/postgres/migrations\<close> as lists of rows in insertion order, the few forms of SQL statement
  that the store sends (insert, upsert, update, delete, paged select), and the world in which the services
  run. A table keeps its keys unique and its references valid because an insert that would break them is an
  error, as in PostgreSQL. Whether the server answers at all is not under the program's control: the
  \<open>n\<close>-th statement fails with the error \<open>w_fate n\<close>, when that is not None, and then changes nothing.
\<close>

section \<open>Tables\<close>

record device_row =
  d_id :: string
  d_client_id :: string
  d_type :: string
  d_status :: device_status
  d_session_id :: string
  d_first_seen_at :: time
  d_last_seen_at :: time
  d_last_disconnected_at :: "time option"
  d_metadata :: "string \<rightharpoonup> meta_value"

record topic_row =
  t_device_id :: "string option"
  t_client_id :: string
  t_topic :: string
  t_kind :: topic_kind
  t_qos :: int
  t_first_seen_at :: time
  t_last_seen_at :: time

record message_row =
  m_id :: string
  m_device_id :: "string option"
  m_client_id :: string
  m_session_id :: string
  m_topic :: string
  m_payload_text :: string
  m_payload_format :: payload_format
  m_qos :: int
  m_retain :: bool
  m_received_at :: time

record command_row =
  c_id :: string
  c_admin_user_id :: string
  c_topic :: string
  c_payload_text :: string
  c_qos :: int
  c_retain :: bool
  c_status :: publish_status
  c_error :: string
  c_created_at :: time
  c_published_at :: "time option"

record user_row =
  u_id :: string
  u_username :: string
  u_password_hash :: "byte list"
  u_role :: string
  u_disabled :: bool
  u_created_at :: time

record session_row =
  s_token :: string
  s_user_id :: string
  s_expires_at :: time

record type_change_row =
  x_device_id :: string
  x_old_type :: string
  x_new_type :: string
  x_actor_id :: string
  x_changed_at :: time

record task_row =
  k_id :: string
  k_device_id :: string
  k_admin_user_id :: string
  k_name :: string
  k_topic :: string
  k_payload_text :: string
  k_qos :: int
  k_retain :: bool
  k_schedule_type :: schedule_type
  k_run_at :: "time option"
  k_time_of_day :: string
  k_weekdays :: string
  k_timezone :: string
  k_status :: task_status
  k_next_run_at :: "time option"
  k_last_run_at :: "time option"
  k_last_error :: string
  k_run_count :: int
  k_created_at :: time
  k_updated_at :: time

record run_row =
  r_id :: string
  r_task_id :: string
  r_publish_command_id :: "string option"
  r_status :: run_status
  r_error :: string
  r_scheduled_for :: time
  r_started_at :: time
  r_finished_at :: time

record quick_action_row =
  q_id :: string
  q_device_id :: string
  q_admin_user_id :: string
  q_name :: string
  q_topic :: string
  q_payload_text :: string
  q_qos :: int
  q_retain :: bool
  q_created_at :: time
  q_updated_at :: time

record db =
  db_device_types :: "device_type_dto list"
  db_devices :: "device_row list"
  db_topics :: "topic_row list"
  db_messages :: "message_row list"
  db_commands :: "command_row list"
  db_alerts :: "system_alert list"
  db_users :: "user_row list"
  db_sessions :: "session_row list"
  db_type_changes :: "type_change_row list"
  db_tasks :: "task_row list"
  db_runs :: "run_row list"
  db_quick_actions :: "quick_action_row list"
  db_partitions :: "(string \<times> time \<times> time) list"

section \<open>Statements\<close>

text \<open>
  A statement sees the value \<open>gen_random_uuid()\<close> would draw and the database; it fails or returns its result and
  the new database.
\<close>

type_synonym 'a statement = "string \<Rightarrow> db \<Rightarrow> ('a \<times> db) result"

definition dup_key :: go_error where
  "dup_key = ForeignError ''duplicate key value violates unique constraint''"

definition fk_violation :: go_error where
  "fk_violation = ForeignError ''insert or update violates foreign key constraint''"

text \<open>
  \<open>ref\<close> tells whether the foreign keys of a row point to existing rows. (PostgreSQL looks again only at the keys a
  statement changes; in a database whose references are valid that is the same.)
\<close>

definition insert_row :: "('r \<Rightarrow> 'k) \<Rightarrow> ('r \<Rightarrow> bool) \<Rightarrow> 'r \<Rightarrow> 'r list \<Rightarrow> 'r list result" where
  "insert_row pk ref new tbl =
     (if pk new \<in> pk ` set tbl then Inl dup_key
      else if \<not> ref new then Inl fk_violation
      else Inr (tbl @ [new]))"

text \<open>\<open>INSERT ... ON CONFLICT (key) DO UPDATE SET ... RETURNING\<close>: \<open>merge\<close> is the SET clause.\<close>

definition upsert_row :: "('r \<Rightarrow> 'k) \<Rightarrow> ('r \<Rightarrow> 'p) \<Rightarrow> ('r \<Rightarrow> bool) \<Rightarrow> ('r \<Rightarrow> 'r) \<Rightarrow> 'r \<Rightarrow> 'r list \<Rightarrow>
    ('r \<times> 'r list) result" where
  "upsert_row key pk ref merge new tbl =
     (case find (\<lambda>r. key r = key new) tbl of
        Some old \<Rightarrow>
          if ref (merge old) then Inr (merge old, map (\<lambda>r. if key r = key new then merge r else r) tbl)
          else Inl fk_violation
      | None \<Rightarrow>
          if pk new \<in> pk ` set tbl then Inl dup_key
          else if ref new then Inr (new, tbl @ [new]) else Inl fk_violation)"

definition update_rows :: "('r \<Rightarrow> bool) \<Rightarrow> ('r \<Rightarrow> 'r) \<Rightarrow> 'r list \<Rightarrow> 'r list" where
  "update_rows P f tbl = map (\<lambda>r. if P r then f r else r) tbl"

text \<open>
  \<open>SELECT ..., count(*) OVER() ... WHERE P ORDER BY ts DESC LIMIT l OFFSET o\<close>: every row carries the number of
  rows that satisfy \<open>P\<close>. PostgreSQL leaves the order of equal timestamps open; here they keep the
  table's order. A negative offset is an error.
\<close>

definition newest_first :: "('r \<Rightarrow> time) \<Rightarrow> 'r list \<Rightarrow> 'r list" where
  "newest_first ts rows = sort_key (\<lambda>r. - ts r) rows"

definition page_query :: "('r \<Rightarrow> bool) \<Rightarrow> ('r \<Rightarrow> time) \<Rightarrow> int \<Rightarrow> int \<Rightarrow> 'r list \<Rightarrow> ('r \<times> int) list result" where
  "page_query P ts limit offset tbl =
     (if offset < 0 then Inl (ForeignError ''OFFSET must not be negative'')
      else (let rows = newest_first ts (filter P tbl) in
        Inr (map (\<lambda>r. (r, int (length rows))) (take (nat limit) (drop (nat offset) rows)))))"

text \<open>The offset of a page, in Go's 64-bit arithmetic.\<close>

definition page_offset :: "int \<Rightarrow> int \<Rightarrow> int" where
  "page_offset p ps = wrap64 (wrap64 (p - 1) * ps)"

text \<open>
  The loop \<open>for rows.Next() { item, rowTotal := scan(rows); items = append(items, item); total = rowTotal }\<close>.
\<close>

fun scan_rows :: "('r \<Rightarrow> 'd) \<Rightarrow> ('r \<times> int) list \<Rightarrow> 'd list \<times> int \<Rightarrow> 'd list \<times> int" where
  "scan_rows scan [] acc = acc"
| "scan_rows scan ((r, rowTotal) # rs) (items, tot) = scan_rows scan rs (items @ [scan r], rowTotal)"

lemma scan_rows_eq:
  "scan_rows scan rs (items, tot) =
     (items @ map (scan \<circ> fst) rs, if rs = [] then tot else snd (last rs))"
  by (induction rs arbitrary: items tot) auto

text \<open>
  Column names: an unqualified name must belong to exactly one table of the FROM clause, otherwise PostgreSQL
  rejects the statement before running it.
\<close>

fun resolve_columns :: "string list list \<Rightarrow> string list \<Rightarrow> go_error option" where
  "resolve_columns tables [] = None"
| "resolve_columns tables (c # cs) =
     (let n = length (filter (\<lambda>cols. c \<in> set cols) tables) in
      if n = 0 then Some (ForeignError (''column '' @ c @ '' does not exist''))
      else if 1 < n then Some (ForeignError (''column reference '' @ c @ '' is ambiguous''))
      else resolve_columns tables cs)"

section \<open>The world\<close>

record mqtt_message =
  out_Topic :: string
  out_Payload :: string
  out_Retain :: bool
  out_QoS :: byte

text \<open>
  What the services run in: the database and the open transaction; what the environment will answer (the fate and the
  uuid of each statement, the clock's readings, the identifiers, whether a deadline has passed when it is asked
  for, the embedded broker's answers), each with a counter of the questions asked so far; the messages handed to
  the broker; the hub; the sessions and the limiter of the broker hook.
\<close>

record world =
  w_db :: db
  w_tx :: "db option"
  w_stmts :: nat
  w_fate :: "nat \<Rightarrow> go_error option"
  w_uuid :: "nat \<Rightarrow> string"
  w_clock :: "nat \<Rightarrow> time"
  w_ticks :: nat
  w_ids :: "nat \<Rightarrow> string"
  w_idn :: nat
  w_expired :: "nat \<Rightarrow> bool"
  w_asked :: nat
  w_mqtt :: "nat \<Rightarrow> go_error option"
  w_sent :: "mqtt_message list"
  w_sends :: nat
  w_hub :: hub
  w_sessions :: "nat \<rightharpoonup> string"
  w_limiter :: connect_limiter

text \<open>A statement on the pool commits by itself; one in a transaction works on the transaction's copy.\<close>

definition exec_pool :: "'a statement \<Rightarrow> (world, 'a) eio" where
  "exec_pool f = State (\<lambda>w.
     let n = w_stmts w; w1 = w\<lparr>w_stmts := Suc n\<rparr> in
     case w_fate w n of
       Some e \<Rightarrow> (Inl e, w1)
     | None \<Rightarrow> (case f (w_uuid w n) (w_db w) of Inl e \<Rightarrow> (Inl e, w1) | Inr (x, d) \<Rightarrow> (Inr x, w1\<lparr>w_db := d\<rparr>)))"

definition tx_begin :: "(world, unit) eio" where
  "tx_begin = State (\<lambda>w.
     let n = w_stmts w; w1 = w\<lparr>w_stmts := Suc n\<rparr> in
     case w_fate w n of Some e \<Rightarrow> (Inl e, w1) | None \<Rightarrow> (Inr (), w1\<lparr>w_tx := Some (w_db w)\<rparr>))"

definition exec_tx :: "'a statement \<Rightarrow> (world, 'a) eio" where
  "exec_tx f = State (\<lambda>w.
     let n = w_stmts w; w1 = w\<lparr>w_stmts := Suc n\<rparr> in
     case w_tx w of
       None \<Rightarrow> (Inl (ForeignError ''tx is closed''), w)
     | Some t \<Rightarrow>
        (case w_fate w n of
           Some e \<Rightarrow> (Inl e, w1)
         | None \<Rightarrow> (case f (w_uuid w n) t of Inl e \<Rightarrow> (Inl e, w1) | Inr (x, d) \<Rightarrow> (Inr x, w1\<lparr>w_tx := Some d\<rparr>))))"

definition tx_commit :: "(world, unit) eio" where
  "tx_commit = State (\<lambda>w.
     let n = w_stmts w; w1 = w\<lparr>w_stmts := Suc n\<rparr> in
     case w_tx w of
       None \<Rightarrow> (Inl (ForeignError ''tx is closed''), w)
     | Some t \<Rightarrow>
        (case w_fate w n of
           Some e \<Rightarrow> (Inl e, w1\<lparr>w_tx := None\<rparr>)
         | None \<Rightarrow> (Inr (), w1\<lparr>w_db := t, w_tx := None\<rparr>)))"

definition tx_rollback :: "(world, unit) state" where
  "tx_rollback = State (\<lambda>w. ((), w\<lparr>w_tx := None\<rparr>))"

text \<open>\<open>tx, err := pool.Begin(ctx); ...; defer tx.Rollback(ctx); body\<close>\<close>

definition in_tx :: "(world, 'a) eio \<Rightarrow> (world, 'a) eio" where
  "in_tx body = ebind tx_begin (\<lambda>_. do { r \<leftarrow> body; _ \<leftarrow> tx_rollback; State_Monad.return r })"

text \<open>The clock, the identifier generator and the question whether a deadline has passed.\<close>

definition clock_now :: "(world, time) state" where
  "clock_now = State (\<lambda>w. (w_clock w (w_ticks w), w\<lparr>w_ticks := Suc (w_ticks w)\<rparr>))"

definition new_id :: "(world, string) state" where
  "new_id = State (\<lambda>w. (w_ids w (w_idn w), w\<lparr>w_idn := Suc (w_idn w)\<rparr>))"

definition ctx_Err :: "(world, go_error option) state" where
  "ctx_Err = State (\<lambda>w.
     (if w_expired w (w_asked w) then Some DeadlineExceeded else None, w\<lparr>w_asked := Suc (w_asked w)\<rparr>))"

text \<open>
  A database with the two device types the migrations create and one administrator, and an environment in which everything
  succeeds and time advances one second per reading; the concrete inputs of the examples are made from them.
\<close>

definition seed_db :: db where
  "seed_db = \<lparr>
     db_device_types = [\<lparr>dt_Code = ''unknown'', dt_Name = ''Unknown Device'', dt_Description = [], dt_Schema = [], dt_CreatedAt = 0\<rparr>,
       \<lparr>dt_Code = ''GSCU1B'', dt_Name = ''Infrared'', dt_Description = [], dt_Schema = [], dt_CreatedAt = 0\<rparr>],
     db_devices = [], db_topics = [], db_messages = [], db_commands = [], db_alerts = [],
     db_users = [\<lparr>u_id = ''u1'', u_username = ''admin'', u_password_hash = [7], u_role = ''admin'', u_disabled = False, u_created_at = 0\<rparr>],
     db_sessions = [], db_type_changes = [], db_tasks = [], db_runs = [], db_quick_actions = [], db_partitions = []\<rparr>"

definition start_world :: "db \<Rightarrow> world" where
  "start_world d = \<lparr>w_db = d, w_tx = None, w_stmts = 0, w_fate = (\<lambda>_. None), w_uuid = (\<lambda>n. ''x'' @ Itoa (int n)),
     w_clock = (\<lambda>n. int n * second + second), w_ticks = 0, w_ids = (\<lambda>n. ''n'' @ Itoa (int n)), w_idn = 0,
     w_expired = (\<lambda>_. False), w_asked = 0, w_mqtt = (\<lambda>_. None), w_sent = [], w_sends = 0, w_hub = NewHub 8,
     w_sessions = Map.empty, w_limiter = newConnectLimiter 120 minute\<rparr>"

section \<open>Facts about statements and transactions\<close>

lemma run_clock_now [simp]:
  "run_state clock_now w = (w_clock w (w_ticks w), w\<lparr>w_ticks := Suc (w_ticks w)\<rparr>)"
  by (simp add: clock_now_def)

lemma run_new_id [simp]: "run_state new_id w = (w_ids w (w_idn w), w\<lparr>w_idn := Suc (w_idn w)\<rparr>)"
  by (simp add: new_id_def)

lemma run_ctx_Err [simp]:
  "run_state ctx_Err w =
     (if w_expired w (w_asked w) then Some DeadlineExceeded else None, w\<lparr>w_asked := Suc (w_asked w)\<rparr>)"
  by (simp add: ctx_Err_def)

lemma run_rollback [simp]: "run_state tx_rollback w = ((), w\<lparr>w_tx := None\<rparr>)"
  by (simp add: tx_rollback_def)

text \<open>The error of a statement leaves the database as it was.\<close>

lemma exec_pool_error: "run_state (exec_pool f) w = (Inl e, w') \<Longrightarrow> w' = w\<lparr>w_stmts := Suc (w_stmts w)\<rparr>"
  by (auto simp: exec_pool_def Let_def split: option.splits sum.splits)

lemma exec_pool_ok:
  "run_state (exec_pool f) w = (Inr x, w') \<Longrightarrow>
     \<exists>d. f (w_uuid w (w_stmts w)) (w_db w) = Inr (x, d) \<and> w_fate w (w_stmts w) = None
       \<and> w' = w\<lparr>w_stmts := Suc (w_stmts w), w_db := d\<rparr>"
  by (auto simp: exec_pool_def Let_def split: option.splits sum.splits)

lemma exec_pool_run:
  "w_fate w (w_stmts w) = None \<Longrightarrow>
   run_state (exec_pool f) w =
     (case f (w_uuid w (w_stmts w)) (w_db w) of
        Inl e \<Rightarrow> (Inl e, w\<lparr>w_stmts := Suc (w_stmts w)\<rparr>)
      | Inr (x, d) \<Rightarrow> (Inr x, w\<lparr>w_stmts := Suc (w_stmts w), w_db := d\<rparr>))"
  by (auto simp: exec_pool_def Let_def split: sum.splits)

lemma exec_tx_ok:
  "run_state (exec_tx f) w = (Inr x, w') \<Longrightarrow>
     \<exists>t d. w_tx w = Some t \<and> f (w_uuid w (w_stmts w)) t = Inr (x, d) \<and> w_fate w (w_stmts w) = None
       \<and> w' = w\<lparr>w_stmts := Suc (w_stmts w), w_tx := Some d\<rparr>"
  by (auto simp: exec_tx_def Let_def split: option.splits sum.splits)

lemma exec_tx_db [simp]: "w_db (snd (run_state (exec_tx f) w)) = w_db w"
  by (auto simp: exec_tx_def Let_def split: option.splits sum.splits)

lemma tx_begin_ok:
  "run_state tx_begin w = (Inr u, w') \<Longrightarrow>
     w_fate w (w_stmts w) = None \<and> w' = w\<lparr>w_stmts := Suc (w_stmts w), w_tx := Some (w_db w)\<rparr>"
  by (auto simp: tx_begin_def Let_def split: option.splits)

lemma tx_begin_db [simp]: "w_db (snd (run_state tx_begin w)) = w_db w"
  by (auto simp: tx_begin_def Let_def split: option.splits)

lemma tx_commit_ok:
  "run_state tx_commit w = (Inr u, w') \<Longrightarrow>
     \<exists>t. w_tx w = Some t \<and> w_fate w (w_stmts w) = None \<and> w' = w\<lparr>w_stmts := Suc (w_stmts w), w_db := t, w_tx := None\<rparr>"
  by (auto simp: tx_commit_def Let_def split: option.splits)

lemma tx_commit_error: "run_state tx_commit w = (Inl e, w') \<Longrightarrow> w_db w' = w_db w"
  by (auto simp: tx_commit_def Let_def split: option.splits)

text \<open>
  The parts of the world that only the environment or another component may change; every statement leaves them
  alone, whatever it does.
\<close>

definition outside_db :: "world \<Rightarrow> (nat \<Rightarrow> go_error option) \<times> (nat \<Rightarrow> string) \<times> (nat \<Rightarrow> time) \<times> nat \<times>
    (nat \<Rightarrow> string) \<times> nat \<times> mqtt_message list \<times> hub \<times> (nat \<rightharpoonup> string) \<times> connect_limiter" where
  "outside_db w = (w_fate w, w_uuid w, w_clock w, w_ticks w, w_ids w, w_idn w, w_sent w, w_hub w, w_sessions w, w_limiter w)"

lemma exec_pool_outside: "leaves outside_db (exec_pool f)"
  by (auto simp: outside_db_def exec_pool_def Let_def split: option.splits sum.splits intro!: state_io_relI)

lemma tx_outside:
  "leaves outside_db tx_begin" "leaves outside_db (exec_tx f)" "leaves outside_db tx_commit" "leaves outside_db tx_rollback"
  by (auto simp: outside_db_def tx_begin_def exec_tx_def tx_commit_def tx_rollback_def Let_def
      split: option.splits sum.splits intro!: state_io_relI)

lemma in_tx_outside: "leaves outside_db body \<Longrightarrow> leaves outside_db (in_tx body)"
  unfolding in_tx_def by (intro io_rules preorder_frame tx_outside)

text \<open>A statement keeps a property of databases.\<close>

definition stmt_keeps :: "(db \<Rightarrow> bool) \<Rightarrow> 'a statement \<Rightarrow> bool" where
  "stmt_keeps I f \<longleftrightarrow> (\<forall>u d x d'. I d \<longrightarrow> f u d = Inr (x, d') \<longrightarrow> I d')"

text \<open>The committed database and the copy of an open transaction both satisfy \<open>I\<close>.\<close>

definition world_inv :: "(db \<Rightarrow> bool) \<Rightarrow> world \<Rightarrow> bool" where
  "world_inv I w \<longleftrightarrow> I (w_db w) \<and> (\<forall>t. w_tx w = Some t \<longrightarrow> I t)"

lemma exec_pool_keeps: "stmt_keeps I f \<Longrightarrow> keeps (world_inv I) (exec_pool f)"
  unfolding stmt_keeps_def state_io_rel_def
  by (auto simp: world_inv_def exec_pool_def Let_def split: option.split sum.split)

lemma exec_tx_keeps: "stmt_keeps I f \<Longrightarrow> keeps (world_inv I) (exec_tx f)"
  unfolding stmt_keeps_def state_io_rel_def
  by (auto simp: world_inv_def exec_tx_def Let_def split: option.split sum.split)

lemma tx_keeps:
  "keeps (world_inv I) tx_begin" "keeps (world_inv I) tx_commit" "keeps (world_inv I) tx_rollback"
  by (auto simp: world_inv_def tx_begin_def tx_commit_def tx_rollback_def Let_def
      split: option.splits intro!: state_io_relI)

lemma in_tx_keeps: "keeps (world_inv I) body \<Longrightarrow> keeps (world_inv I) (in_tx body)"
  unfolding in_tx_def by (intro io_rules preorder_invariant tx_keeps)

section \<open>Facts about tables\<close>

lemma insert_row_ok:
  "insert_row pk ref new tbl = Inr tbl' \<Longrightarrow> tbl' = tbl @ [new] \<and> pk new \<notin> pk ` set tbl \<and> ref new"
  by (auto simp: insert_row_def split: if_splits)

lemma update_rows_map: "(\<And>r. k (f r) = k r) \<Longrightarrow> map k (update_rows P f tbl) = map k tbl"
  unfolding update_rows_def by (rule map_key_update)

lemma upsert_row_cases:
  assumes "upsert_row key pk ref merge new tbl = Inr (r, tbl')"
  obtains (update) old where "find (\<lambda>x. key x = key new) tbl = Some old" "r = merge old"
      "tbl' = map (\<lambda>x. if key x = key new then merge x else x) tbl"
  | (insert) "key new \<notin> key ` set tbl" "pk new \<notin> pk ` set tbl" "r = new" "tbl' = tbl @ [new]"
proof (cases "find (\<lambda>x. key x = key new) tbl")
  case None
  then have "key new \<notin> key ` set tbl" by (auto simp: find_None_iff' image_iff)
  moreover have "pk new \<notin> pk ` set tbl" "r = new" "tbl' = tbl @ [new]"
    using assms None by (auto simp: upsert_row_def split: if_splits)
  ultimately show ?thesis using insert by blast
next
  case (Some old)
  then show ?thesis using assms update by (simp add: upsert_row_def split: if_splits)
qed

lemma upsert_row_ref: "upsert_row key pk ref merge new tbl = Inr (r, tbl') \<Longrightarrow> ref r"
  by (auto simp: upsert_row_def split: option.splits if_splits)

lemma upsert_row_distinct:
  assumes "upsert_row key pk ref merge new tbl = Inr (r, tbl')"
    and "\<And>x. key (merge x) = key x" "\<And>x. pk (merge x) = pk x"
    and "distinct (map key tbl)" "distinct (map pk tbl)"
  shows "distinct (map key tbl') \<and> distinct (map pk tbl')"
  using assms(1)
proof (cases rule: upsert_row_cases)
  case (update old)
  then show ?thesis
    using assms(4,5) map_key_update [of key merge, OF assms(2)] map_key_update [of pk merge, OF assms(3)]
    by (simp del: map_map)
next
  case insert
  then show ?thesis using assms(4,5) by simp
qed

lemma upsert_row_in:
  assumes "upsert_row key pk ref merge new tbl = Inr (r, tbl')" "\<And>x. key (merge x) = key x"
  shows "r \<in> set tbl' \<and> key r = key new"
  using assms(1)
proof (cases rule: upsert_row_cases)
  case (update old)
  then have "old \<in> set tbl" "key old = key new" by (auto dest: find_SomeD)
  then show ?thesis using update(2,3) assms(2) by (auto intro!: image_eqI [of _ _ old])
next
  case insert
  then show ?thesis by simp
qed

text \<open>Every row of the new table is an old row of another key, or the returned row.\<close>

lemma upsert_row_rows:
  assumes "upsert_row key pk ref merge new tbl = Inr (r, tbl')" "distinct (map key tbl)" "\<And>x. key (merge x) = key x"
    and "y \<in> set tbl'"
  shows "y = r \<or> (y \<in> set tbl \<and> key y \<noteq> key new)"
  using assms(1)
proof (cases rule: upsert_row_cases)
  case (update old)
  then have old: "old \<in> set tbl" "key old = key new" by (auto dest: find_SomeD)
  from assms(4) update(3) obtain x where x: "x \<in> set tbl" "y = (if key x = key new then merge x else x)" by auto
  show ?thesis
  proof (cases "key x = key new")
    case True
    with x(1) old assms(2) have "x = old" by (auto simp: distinct_map inj_on_def)
    with x True update(2) show ?thesis by simp
  next
    case False
    with x show ?thesis by simp
  qed
next
  case insert
  then have "\<forall>z \<in> set tbl. key z \<noteq> key new" by (auto simp: image_iff)
  with insert(3,4) assms(4) show ?thesis by auto
qed

lemma upsert_row_keeps_keys:
  assumes "upsert_row key pk ref merge new tbl = Inr (r, tbl')" "\<And>x. f (merge x) = f x"
  shows "f ` set tbl \<subseteq> f ` set tbl'"
  using assms(1)
proof (cases rule: upsert_row_cases)
  case (update old)
  have "f ` set tbl' = f ` set tbl" unfolding update(3) set_map image_image
    by (rule image_cong) (auto simp: assms(2))
  then show ?thesis by simp
next
  case insert
  then show ?thesis by auto
qed

text \<open>Rows of a page: newest first, at most a page full, all satisfying the filter.\<close>

lemma newest_first_perm [simp]: "set (newest_first ts rows) = set rows" "length (newest_first ts rows) = length rows"
  by (simp_all add: newest_first_def)

lemma page_offset_exact:
  assumes "1 \<le> p" "1 \<le> ps" "ps \<le> 200" "p \<le> 40000000000000000"
  shows "page_offset p ps = (p - 1) * ps"
proof -
  have p: "wrap64 (p - 1) = p - 1" using assms by (intro wrap64_id) (simp add: int64_def)
  have "0 \<le> (p - 1) * ps" "(p - 1) * ps \<le> 40000000000000000 * 200"
    using assms by (simp, intro mult_mono) auto
  then have "int64 ((p - 1) * ps)" by (simp add: int64_def)
  with p show ?thesis by (simp add: page_offset_def wrap64_id)
qed

end
