(* ===== verification/Ports.thy ===== *)
theory Ports
  imports Hub
begin

text \<open>
  The interfaces of \<open>internal/ports/ports.go\<close>. A Go interface is a record of its methods over the world \<open>'w\<close> in
  which they run; a value that may be nil is an option. The context argument carries only cancellation: the one
  question the program asks of it, \<open>ctx.Err()\<close>, is an operation of its own.
\<close>

type_synonym 'w clock = "('w, time) state"
type_synonym 'w id_generator = "('w, string) state"
type_synonym 'w context_err = "('w, go_error option) state"

record 'w password_hasher =
  ph_Hash :: "string \<Rightarrow> ('w, byte list) eio"
  ph_Compare :: "byte list \<Rightarrow> string \<Rightarrow> unit result"

record 'w ingestion_repository =
  ir_UpsertConnected :: "connect_event \<Rightarrow> ('w, device_dto) eio"
  ir_RecordSubscription :: "subscribe_event \<Rightarrow> ('w, unit) eio"
  ir_PersistPublish :: "publish_event \<Rightarrow> ('w, message_dto) eio"
  ir_MarkDisconnected :: "disconnect_event \<Rightarrow> ('w, unit) eio"
  ir_MarkStaleOnline :: "time \<Rightarrow> ('w, int) eio"

record 'w device_repository =
  dr_ListDevices :: "device_filter \<Rightarrow> ('w, device_dto page) eio"
  dr_GetDevice :: "string \<Rightarrow> ('w, device_dto) eio"
  dr_ChangeDeviceType :: "change_device_type_command \<Rightarrow> time \<Rightarrow> ('w, device_dto) eio"
  dr_ListDeviceTypes :: "('w, device_type_dto list) eio"

record 'w topic_repository =
  tr_ListDeviceTopics :: "string \<Rightarrow> topic_filter \<Rightarrow> ('w, observed_topic_dto page) eio"
  tr_ListTopics :: "topic_filter \<Rightarrow> ('w, observed_topic_dto page) eio"
  tr_RecordAdminPublishTopic :: "string \<Rightarrow> string \<Rightarrow> byte \<Rightarrow> time \<Rightarrow> ('w, unit) eio"

record 'w message_repository =
  mr_QueryMessages :: "message_filter \<Rightarrow> ('w, message_dto page) eio"

record 'w publish_command_repository =
  pr_CreatePublishCommand :: "string \<Rightarrow> publish_command \<Rightarrow> time \<Rightarrow> ('w, publish_command_dto) eio"
  pr_MarkPublishCommand :: "string \<Rightarrow> publish_status \<Rightarrow> string \<Rightarrow> time option \<Rightarrow> ('w, unit) eio"
  pr_ListPublishCommands :: "command_filter \<Rightarrow> ('w, publish_command_dto page) eio"

record 'w scheduled_publish_repository =
  sr_CreateScheduledTask :: "scheduled_publish_task_dto \<Rightarrow> ('w, scheduled_publish_task_dto) eio"
  sr_ListScheduledTasks :: "scheduled_publish_filter \<Rightarrow> ('w, scheduled_publish_task_dto page) eio"
  sr_CancelScheduledTask :: "string \<Rightarrow> time \<Rightarrow> ('w, scheduled_publish_task_dto) eio"
  sr_ListDueScheduledTasks :: "time \<Rightarrow> int \<Rightarrow> ('w, scheduled_publish_task_dto list) eio"
  sr_FinishScheduledRun :: "scheduled_publish_finish \<Rightarrow> ('w, unit) eio"

record 'w quick_action_repository =
  qr_CreateQuickAction :: "quick_action_dto \<Rightarrow> ('w, quick_action_dto) eio"
  qr_ListQuickActions :: "quick_action_filter \<Rightarrow> ('w, quick_action_dto page) eio"
  qr_GetQuickAction :: "string \<Rightarrow> ('w, quick_action_dto) eio"
  qr_DeleteQuickAction :: "string \<Rightarrow> ('w, unit) eio"

record 'w alert_repository =
  ar_UpsertAlert :: "system_alert \<Rightarrow> ('w, system_alert) eio"
  ar_ListAlerts :: "alert_filter \<Rightarrow> ('w, system_alert page) eio"

record 'w auth_repository =
  aur_FindAdminByUsername :: "string \<Rightarrow> ('w, admin_user) eio"
  aur_GetAdminByID :: "string \<Rightarrow> ('w, admin_user_dto) eio"
  aur_CreateSession :: "admin_session \<Rightarrow> ('w, unit) eio"
  aur_DeleteSession :: "string \<Rightarrow> ('w, unit) eio"
  aur_FindSession :: "string \<Rightarrow> time \<Rightarrow> ('w, admin_session) eio"
  aur_BootstrapAdmin :: "string \<Rightarrow> string \<Rightarrow> byte list \<Rightarrow> time \<Rightarrow> ('w, unit) eio"

type_synonym 'w mqtt_publisher = "string \<Rightarrow> string \<Rightarrow> publish_options \<Rightarrow> ('w, unit) eio"

type_synonym 'w realtime_publisher = "realtime_event \<Rightarrow> ('w, unit) eio"

end
