(* ===== verification/Store.thy ===== *)
theory Store
  imports Database Ports "HOL-Library.List_Lexorder" "HOL-Library.Char_ord"
begin

text \<open>
  The PostgreSQL store (\<open>internal/storage/postgres/store.go\<close>): every method, each SQL statement as a function on the
  tables and each method as the sequence of statements it sends, in a transaction where the code opens one. Parameters
  of the model: \<open>ilike\<close>, the operator of that name, and \<open>collate\<close>, the sort key the
  database's collation gives a text. Timestamps keep the resolution of Go's clock.
\<close>

section \<open>References\<close>

definition type_exists :: "db \<Rightarrow> string \<Rightarrow> bool" where
  "type_exists d c \<longleftrightarrow> c \<in> dt_Code ` set (db_device_types d)"

definition device_exists :: "db \<Rightarrow> string \<Rightarrow> bool" where
  "device_exists d i \<longleftrightarrow> i \<in> d_id ` set (db_devices d)"

definition user_exists :: "db \<Rightarrow> string \<Rightarrow> bool" where
  "user_exists d i \<longleftrightarrow> i \<in> u_id ` set (db_users d)"

definition task_exists :: "db \<Rightarrow> string \<Rightarrow> bool" where
  "task_exists d i \<longleftrightarrow> i \<in> k_id ` set (db_tasks d)"

definition command_exists :: "db \<Rightarrow> string \<Rightarrow> bool" where
  "command_exists d i \<longleftrightarrow> i \<in> c_id ` set (db_commands d)"

definition null_or :: "(string \<Rightarrow> bool) \<Rightarrow> string option \<Rightarrow> bool" where
  "null_or P x = (case x of None \<Rightarrow> True | Some i \<Rightarrow> P i)"

definition client_of :: "db \<Rightarrow> string \<Rightarrow> string option" where
  "client_of d i = map_option d_client_id (find (\<lambda>r. d_id r = i) (db_devices d))"

text \<open>The rows a table operation returns, with the table put back.\<close>

definition put_table :: "('a \<times> 't) result \<Rightarrow> ('t \<Rightarrow> db) \<Rightarrow> ('a \<times> db) result" where
  "put_table res put = (case res of Inl e \<Rightarrow> Inl e | Inr (x, tbl) \<Rightarrow> Inr (x, put tbl))"

definition put_new :: "'t result \<Rightarrow> ('t \<Rightarrow> db) \<Rightarrow> (unit \<times> db) result" where
  "put_new res put = (case res of Inl e \<Rightarrow> Inl e | Inr tbl \<Rightarrow> Inr ((), put tbl))"

section \<open>Scanning rows\<close>

definition byte_of_smallint :: "int \<Rightarrow> byte" where
  "byte_of_smallint q = word_of_int q"

definition null_text :: "string option \<Rightarrow> string" where
  "null_text x = (case x of None \<Rightarrow> [] | Some s \<Rightarrow> s)"

definition scanDevice :: "device_row \<Rightarrow> device_dto" where
  "scanDevice r = \<lparr>dev_ID = d_id r, dev_ClientID = d_client_id r, dev_Type = d_type r, dev_Status = d_status r,
     dev_SessionID = d_session_id r, dev_FirstSeenAt = d_first_seen_at r, dev_LastSeenAt = d_last_seen_at r,
     dev_LastDisconnectedAt = d_last_disconnected_at r, dev_Metadata = d_metadata r\<rparr>"

definition scanTopic :: "topic_row \<Rightarrow> observed_topic_dto" where
  "scanTopic r = \<lparr>ot_DeviceID = null_text (t_device_id r), ot_ClientID = t_client_id r, ot_Topic = t_topic r,
     ot_Kind = t_kind r, ot_QoS = byte_of_smallint (t_qos r), ot_FirstSeenAt = t_first_seen_at r,
     ot_LastSeenAt = t_last_seen_at r\<rparr>"

definition scanMessage :: "message_row \<Rightarrow> message_dto" where
  "scanMessage r = \<lparr>msg_ID = m_id r, msg_DeviceID = null_text (m_device_id r), msg_ClientID = m_client_id r,
     msg_SessionID = m_session_id r, msg_Topic = m_topic r, msg_PayloadText = m_payload_text r,
     msg_PayloadFormat = m_payload_format r, msg_QoS = byte_of_smallint (m_qos r), msg_Retain = m_retain r,
     msg_ReceivedAt = m_received_at r\<rparr>"

definition scanCommand :: "command_row \<Rightarrow> publish_command_dto" where
  "scanCommand r = \<lparr>pc_ID = c_id r, pc_AdminUserID = c_admin_user_id r, pc_Topic = c_topic r,
     pc_PayloadText = c_payload_text r, pc_QoS = byte_of_smallint (c_qos r), pc_Retain = c_retain r,
     pc_Status = c_status r, pc_Error = c_error r, pc_CreatedAt = c_created_at r, pc_PublishedAt = c_published_at r\<rparr>"

text \<open>The client id comes from a join or a subselect; a NULL cannot be scanned into a string.\<close>

definition null_scan :: go_error where
  "null_scan = ForeignError ''cannot scan NULL into *string''"

definition scanScheduledTask :: "task_row \<times> string option \<Rightarrow> scheduled_publish_task_dto result" where
  "scanScheduledTask rc =
     (case rc of (r, None) \<Rightarrow> Inl null_scan
      | (r, Some client) \<Rightarrow> Inr \<lparr>task_ID = k_id r, task_DeviceID = k_device_id r, task_ClientID = client,
          task_AdminUserID = k_admin_user_id r, task_Name = k_name r, task_Topic = k_topic r,
          task_PayloadText = k_payload_text r, task_QoS = byte_of_smallint (k_qos r), task_Retain = k_retain r,
          task_ScheduleType = k_schedule_type r, task_RunAt = k_run_at r, task_TimeOfDay = k_time_of_day r,
          task_Weekdays = DecodeWeekdays (k_weekdays r), task_Timezone = k_timezone r, task_Status = k_status r,
          task_NextRunAt = k_next_run_at r, task_LastRunAt = k_last_run_at r, task_LastError = k_last_error r,
          task_RunCount = k_run_count r, task_CreatedAt = k_created_at r, task_UpdatedAt = k_updated_at r\<rparr>)"

definition scanQuickAction :: "quick_action_row \<times> string option \<Rightarrow> quick_action_dto result" where
  "scanQuickAction rc =
     (case rc of (r, None) \<Rightarrow> Inl null_scan
      | (r, Some client) \<Rightarrow> Inr \<lparr>qa_ID = q_id r, qa_DeviceID = q_device_id r, qa_ClientID = client,
          qa_AdminUserID = q_admin_user_id r, qa_Name = q_name r, qa_Topic = q_topic r,
          qa_PayloadText = q_payload_text r, qa_QoS = byte_of_smallint (q_qos r), qa_Retain = q_retain r,
          qa_CreatedAt = q_created_at r, qa_UpdatedAt = q_updated_at r\<rparr>)"

text \<open>\<open>for rows.Next() { item, err := scan(rows); if err != nil { return nil, err }; items = append(items, item) }\<close>\<close>

fun scan_all :: "('r \<Rightarrow> 'd result) \<Rightarrow> 'r list \<Rightarrow> 'd list result" where
  "scan_all scan [] = Inr []"
| "scan_all scan (r # rs) =
     (case scan r of Inl e \<Rightarrow> Inl e
      | Inr x \<Rightarrow> (case scan_all scan rs of Inl e \<Rightarrow> Inl e | Inr xs \<Rightarrow> Inr (x # xs)))"

text \<open>A page: normalised parameters, offset, query, scan of the rows with the total of the last one.\<close>

definition read_page :: "int \<Rightarrow> int \<Rightarrow> (db \<Rightarrow> ('r \<times> int) list result) \<Rightarrow> ('r \<Rightarrow> 'd) \<Rightarrow> (world, 'd page) eio" where
  "read_page p ps query scan =
     ebind (exec_pool (\<lambda>_ d. case query d of Inl e \<Rightarrow> Inl e | Inr rows \<Rightarrow> Inr (rows, d))) (\<lambda>rows.
       let (items, tot) = scan_rows scan rows ([], 0) in
       ok \<lparr>page_items = items, page_no = p, page_size = ps, page_total = tot\<rparr>)"

text \<open>The same with a scan that may fail.\<close>

definition read_page_checked ::
  "int \<Rightarrow> int \<Rightarrow> (db \<Rightarrow> ('r \<times> int) list result) \<Rightarrow> ('r \<Rightarrow> 'd result) \<Rightarrow> (world, 'd page) eio" where
  "read_page_checked p ps query scan =
     ebind (exec_pool (\<lambda>_ d. case query d of Inl e \<Rightarrow> Inl e | Inr rows \<Rightarrow> Inr (rows, d))) (\<lambda>rows.
       ebind (check (scan_all (scan \<circ> fst) rows)) (\<lambda>items.
       ok \<lparr>page_items = items, page_no = p, page_size = ps,
           page_total = (if rows = [] then 0 else snd (last rows))\<rparr>))"

text \<open>The filter \<open>($1='' OR column=$1)\<close>.\<close>

definition any_or :: "string \<Rightarrow> string \<Rightarrow> bool" where
  "any_or wanted v \<longleftrightarrow> wanted = [] \<or> v = wanted"

section \<open>Devices, topics and messages\<close>

definition connect_metadata :: "connect_event \<Rightarrow> (string \<rightharpoonup> meta_value)" where
  "connect_metadata ev = [''username'' \<mapsto> MetaText (ce_Username ev), ''remote'' \<mapsto> MetaText (ce_Remote ev),
     ''listener'' \<mapsto> MetaText (ce_Listener ev), ''protocolVersion'' \<mapsto> MetaInt (uint (ce_ProtocolVersion ev))]"

definition upsert_connected_stmt :: "connect_event \<Rightarrow> device_row statement" where
  "upsert_connected_stmt ev uuid d =
     put_table
       (upsert_row d_client_id d_id (\<lambda>r. type_exists d (d_type r))
          (\<lambda>old. old\<lparr>d_status := DeviceStatusOnline, d_session_id := ce_SessionID ev,
                     d_last_seen_at := ce_ConnectedAt ev, d_metadata := d_metadata old ++ connect_metadata ev\<rparr>)
          \<lparr>d_id = uuid, d_client_id = ce_ClientID ev, d_type = ''unknown'', d_status = DeviceStatusOnline,
           d_session_id = ce_SessionID ev, d_first_seen_at = ce_ConnectedAt ev, d_last_seen_at = ce_ConnectedAt ev,
           d_last_disconnected_at = None, d_metadata = connect_metadata ev\<rparr>
          (db_devices d))
       (\<lambda>t. d\<lparr>db_devices := t\<rparr>)"

definition UpsertConnected :: "connect_event \<Rightarrow> (world, device_dto) eio" where
  "UpsertConnected ev = ebind (exec_pool (upsert_connected_stmt ev)) (\<lambda>row. ok (scanDevice row))"

definition ensure_device_stmt :: "string \<Rightarrow> string \<Rightarrow> time \<Rightarrow> string statement" where
  "ensure_device_stmt clientID sessionID at uuid d =
     put_table
       (case upsert_row d_client_id d_id (\<lambda>r. type_exists d (d_type r))
          (\<lambda>old. old\<lparr>d_session_id := sessionID, d_last_seen_at := at\<rparr>)
          \<lparr>d_id = uuid, d_client_id = clientID, d_type = ''unknown'', d_status = DeviceStatusOnline,
           d_session_id = sessionID, d_first_seen_at = at, d_last_seen_at = at,
           d_last_disconnected_at = None, d_metadata = Map.empty\<rparr>
          (db_devices d)
        of Inl e \<Rightarrow> Inl e | Inr (row, t) \<Rightarrow> Inr (d_id row, t))
       (\<lambda>t. d\<lparr>db_devices := t\<rparr>)"

definition ensureDevice :: "string \<Rightarrow> string \<Rightarrow> time \<Rightarrow> (world, string) eio" where
  "ensureDevice clientID sessionID at = exec_tx (ensure_device_stmt clientID sessionID at)"

definition topic_key :: "topic_row \<Rightarrow> string \<times> string \<times> topic_kind" where
  "topic_key r = (t_client_id r, t_topic r, t_kind r)"

text \<open>The upsert of an observed topic shared by \<open>RecordSubscription\<close> and \<open>PersistPublish\<close>.\<close>

definition observe_topic_stmt ::
  "string option \<Rightarrow> string \<Rightarrow> string \<Rightarrow> topic_kind \<Rightarrow> byte \<Rightarrow> time \<Rightarrow> unit statement" where
  "observe_topic_stmt deviceID clientID topic kind qos at uuid d =
     put_table
       (case upsert_row topic_key topic_key (\<lambda>r. null_or (device_exists d) (t_device_id r))
          (\<lambda>old. old\<lparr>t_device_id := deviceID, t_qos := uint qos, t_last_seen_at := at\<rparr>)
          \<lparr>t_device_id = deviceID, t_client_id = clientID, t_topic = topic, t_kind = kind, t_qos = uint qos,
           t_first_seen_at = at, t_last_seen_at = at\<rparr>
          (db_topics d)
        of Inl e \<Rightarrow> Inl e | Inr (_, t) \<Rightarrow> Inr ((), t))
       (\<lambda>t. d\<lparr>db_topics := t\<rparr>)"

fun record_filters :: "string \<Rightarrow> subscribe_event \<Rightarrow> subscription list \<Rightarrow> (world, unit) eio" where
  "record_filters deviceID ev [] = ok ()"
| "record_filters deviceID ev (sub # subs) =
     ebind (exec_tx (observe_topic_stmt (Some deviceID) (se_ClientID ev) (sub_Filter sub) TopicKindSubscribeFilter
              (sub_QoS sub) (se_ObservedAt ev)))
       (\<lambda>_. record_filters deviceID ev subs)"

definition RecordSubscription :: "subscribe_event \<Rightarrow> (world, unit) eio" where
  "RecordSubscription ev = in_tx
     (ebind (ensureDevice (se_ClientID ev) (se_SessionID ev) (se_ObservedAt ev)) (\<lambda>deviceID.
      ebind (record_filters deviceID ev (se_Subscriptions ev)) (\<lambda>_.
      tx_commit)))"

text \<open>Partitions: one per calendar month, named after it.\<close>

definition fmt_0d :: "nat \<Rightarrow> int \<Rightarrow> string" where
  "fmt_0d n v = (if v < 0 then ''-'' @ pad (n - 1) (- v) else pad n v)"

definition month_start :: "time \<Rightarrow> time" where
  "month_start at = (let (y, m, _) = date_of UTC at in Date y m 1 0 0 0 0 UTC)"

definition month_end :: "time \<Rightarrow> time" where
  "month_end at = AddDate 0 1 0 UTC (month_start at)"

definition partition_name :: "time \<Rightarrow> string" where
  "partition_name at =
     (let (y, m, _) = date_of UTC (month_start at) in ''mqtt_messages_'' @ fmt_0d 4 y @ ''_'' @ fmt_0d 2 m)"

text \<open>
  \<open>CREATE TABLE IF NOT EXISTS name PARTITION OF mqtt_messages FOR VALUES FROM lo TO hi\<close>: nothing happens when the name is
  taken; otherwise the range must not be empty, must not meet another partition, and no row already in
  the default partition may belong to it.
\<close>

definition create_partition_stmt :: "string \<Rightarrow> time \<Rightarrow> time \<Rightarrow> unit statement" where
  "create_partition_stmt name lo hi uuid d =
     (if name \<in> fst ` set (db_partitions d) then Inr ((), d)
      else if hi \<le> lo then Inl (ForeignError ''empty range bound specified for partition'')
      else if \<exists>(n, lo', hi') \<in> set (db_partitions d). lo < hi' \<and> lo' < hi
      then Inl (ForeignError ''partition would overlap'')
      else if \<exists>m \<in> set (db_messages d). lo \<le> m_received_at m \<and> m_received_at m < hi
      then Inl (ForeignError ''updated partition constraint for default partition would be violated by some row'')
      else Inr ((), d\<lparr>db_partitions := db_partitions d @ [(name, lo, hi)]\<rparr>))"

definition EnsureMessagePartition :: "time \<Rightarrow> (world, unit) eio" where
  "EnsureMessagePartition at =
     exec_pool (create_partition_stmt (partition_name at) (month_start at) (month_end at))"

definition insert_message_stmt :: "string option \<Rightarrow> publish_event \<Rightarrow> message_row statement" where
  "insert_message_stmt deviceID ev uuid d =
     (let row = \<lparr>m_id = uuid, m_device_id = deviceID, m_client_id = pe_ClientID ev, m_session_id = pe_SessionID ev,
            m_topic = pe_Topic ev, m_payload_text = pe_PayloadText ev, m_payload_format = pe_PayloadFormat ev,
            m_qos = uint (pe_QoS ev), m_retain = pe_Retain ev, m_received_at = pe_ReceivedAt ev\<rparr> in
      put_table
        (case insert_row (\<lambda>r. (m_id r, m_received_at r)) (\<lambda>r. null_or (device_exists d) (m_device_id r)) row (db_messages d)
         of Inl e \<Rightarrow> Inl e | Inr t \<Rightarrow> Inr (row, t))
        (\<lambda>t. d\<lparr>db_messages := t\<rparr>))"

definition PersistPublish :: "publish_event \<Rightarrow> (world, message_dto) eio" where
  "PersistPublish ev =
     ebind (EnsureMessagePartition (pe_ReceivedAt ev)) (\<lambda>_. in_tx
       (ebind (if pe_ClientID ev = ''inline'' then ok None
               else ebind (ensureDevice (pe_ClientID ev) (pe_SessionID ev) (pe_ReceivedAt ev)) (\<lambda>key_id. ok (Some key_id)))
          (\<lambda>deviceID.
        ebind (exec_tx (observe_topic_stmt deviceID (pe_ClientID ev) (pe_Topic ev)
                 (if pe_ClientID ev = ''inline'' then TopicKindAdminPublishTopic else TopicKindPublishTopic)
                 (pe_QoS ev) (pe_ReceivedAt ev))) (\<lambda>_.
        ebind (exec_tx (insert_message_stmt deviceID ev)) (\<lambda>row.
        ebind tx_commit (\<lambda>_.
        ok (scanMessage row)))))))"

definition mark_disconnected_stmt :: "disconnect_event \<Rightarrow> unit statement" where
  "mark_disconnected_stmt ev uuid d =
     Inr ((), d\<lparr>db_devices := update_rows
        (\<lambda>r. d_client_id r = de_ClientID ev \<and> (de_SessionID ev = [] \<or> d_session_id r = de_SessionID ev))
        (\<lambda>r. r\<lparr>d_status := DeviceStatusOffline, d_last_disconnected_at := Some (de_DisconnectedAt ev),
               d_last_seen_at := de_DisconnectedAt ev\<rparr>)
        (db_devices d)\<rparr>)"

definition MarkDisconnected :: "disconnect_event \<Rightarrow> (world, unit) eio" where
  "MarkDisconnected ev = exec_pool (mark_disconnected_stmt ev)"

definition mark_stale_stmt :: "time \<Rightarrow> int statement" where
  "mark_stale_stmt at uuid d =
     Inr (int (length (filter (\<lambda>r. d_status r = DeviceStatusOnline) (db_devices d))),
          d\<lparr>db_devices := update_rows (\<lambda>r. d_status r = DeviceStatusOnline)
             (\<lambda>r. r\<lparr>d_status := DeviceStatusStaleOffline, d_last_disconnected_at := Some at\<rparr>) (db_devices d)\<rparr>)"

definition MarkStaleOnline :: "time \<Rightarrow> (world, int) eio" where
  "MarkStaleOnline at = exec_pool (mark_stale_stmt at)"

definition device_matches :: "(string \<Rightarrow> string \<Rightarrow> bool) \<Rightarrow> device_filter \<Rightarrow> device_row \<Rightarrow> bool" where
  "device_matches ilike f r \<longleftrightarrow> any_or (df_Status f) (device_status_text (d_status r)) \<and> any_or (df_Type f) (d_type r)
     \<and> (df_Query f = [] \<or> ilike (d_client_id r) (''%'' @ df_Query f @ ''%''))"

definition ListDevices :: "(string \<Rightarrow> string \<Rightarrow> bool) \<Rightarrow> device_filter \<Rightarrow> (world, device_dto page) eio" where
  "ListDevices ilike f =
     (let (p, ps) = NormalizePage (df_Page f) (df_PageSize f); offset = page_offset p ps in
      read_page p ps (\<lambda>d. page_query (device_matches ilike f) d_last_seen_at ps offset (db_devices d)) scanDevice)"

definition find_row :: "('r \<Rightarrow> bool) \<Rightarrow> 'r list \<Rightarrow> 'r result" where
  "find_row P tbl = (case find P tbl of None \<Rightarrow> Inl NoRows | Some r \<Rightarrow> Inr r)"

definition GetDevice :: "string \<Rightarrow> (world, device_dto) eio" where
  "GetDevice key_id =
     ebind (exec_pool (\<lambda>_ d. case find_row (\<lambda>r. d_id r = key_id) (db_devices d) of Inl e \<Rightarrow> Inl e | Inr r \<Rightarrow> Inr (r, d)))
       (\<lambda>row. ok (scanDevice row))"

definition update_type_stmt :: "string \<Rightarrow> string \<Rightarrow> device_row statement" where
  "update_type_stmt key_id typ uuid d =
     (case find_row (\<lambda>r. d_id r = key_id) (db_devices d) of
        Inl e \<Rightarrow> Inl e
      | Inr r \<Rightarrow>
          if type_exists d typ
          then Inr (r\<lparr>d_type := typ\<rparr>,
                 d\<lparr>db_devices := update_rows (\<lambda>r. d_id r = key_id) (\<lambda>r. r\<lparr>d_type := typ\<rparr>) (db_devices d)\<rparr>)
          else Inl fk_violation)"

definition log_type_change_stmt :: "change_device_type_command \<Rightarrow> string \<Rightarrow> time \<Rightarrow> unit statement" where
  "log_type_change_stmt cmd oldType at uuid d =
     (if device_exists d (cdt_DeviceID cmd)
      then Inr ((), d\<lparr>db_type_changes := db_type_changes d @
             [\<lparr>x_device_id = cdt_DeviceID cmd, x_old_type = oldType, x_new_type = cdt_Type cmd,
               x_actor_id = cdt_ActorID cmd, x_changed_at = at\<rparr>]\<rparr>)
      else Inl fk_violation)"

definition ChangeDeviceType :: "change_device_type_command \<Rightarrow> time \<Rightarrow> (world, device_dto) eio" where
  "ChangeDeviceType cmd changedAt = in_tx
     (ebind (exec_tx (\<lambda>_ d. case find_row (\<lambda>r. d_id r = cdt_DeviceID cmd) (db_devices d) of
                               Inl e \<Rightarrow> Inl e | Inr r \<Rightarrow> Inr (d_type r, d))) (\<lambda>oldType.
      ebind (exec_tx (update_type_stmt (cdt_DeviceID cmd) (cdt_Type cmd))) (\<lambda>row.
      ebind (exec_tx (log_type_change_stmt cmd oldType changedAt)) (\<lambda>_.
      ebind tx_commit (\<lambda>_.
      ok (scanDevice row))))))"

definition ListDeviceTypes :: "(string \<Rightarrow> string) \<Rightarrow> (world, device_type_dto list) eio" where
  "ListDeviceTypes collate = exec_pool (\<lambda>_ d. Inr (sort_key (\<lambda>t. collate (dt_Code t)) (db_device_types d), d))"

definition topic_matches :: "(string \<Rightarrow> string \<Rightarrow> bool) \<Rightarrow> topic_filter \<Rightarrow> topic_row \<Rightarrow> bool" where
  "topic_matches ilike f r \<longleftrightarrow> any_or (tf_Direction f) (topic_kind_text (t_kind r))
     \<and> (tf_Query f = [] \<or> ilike (t_topic r) (''%'' @ tf_Query f @ ''%''))"

definition ListDeviceTopics ::
  "(string \<Rightarrow> string \<Rightarrow> bool) \<Rightarrow> string \<Rightarrow> topic_filter \<Rightarrow> (world, observed_topic_dto page) eio" where
  "ListDeviceTopics ilike deviceID f =
     (let (p, ps) = NormalizePage (tf_Page f) (tf_PageSize f); offset = page_offset p ps in
      read_page p ps (\<lambda>d. page_query (\<lambda>r. t_device_id r = Some deviceID \<and> topic_matches ilike f r)
        t_last_seen_at ps offset (db_topics d)) scanTopic)"

definition ListTopics :: "(string \<Rightarrow> string \<Rightarrow> bool) \<Rightarrow> topic_filter \<Rightarrow> (world, observed_topic_dto page) eio" where
  "ListTopics ilike f =
     (let (p, ps) = NormalizePage (tf_Page f) (tf_PageSize f); offset = page_offset p ps in
      read_page p ps (\<lambda>d. page_query (topic_matches ilike f) t_last_seen_at ps offset (db_topics d)) scanTopic)"

definition admin_topic_stmt :: "string \<Rightarrow> string \<Rightarrow> byte \<Rightarrow> time \<Rightarrow> unit statement" where
  "admin_topic_stmt clientID topic qos at uuid d =
     put_table
       (case upsert_row topic_key topic_key (\<lambda>r. null_or (device_exists d) (t_device_id r))
          (\<lambda>old. old\<lparr>t_qos := uint qos, t_last_seen_at := at\<rparr>)
          \<lparr>t_device_id = None, t_client_id = clientID, t_topic = topic, t_kind = TopicKindAdminPublishTopic,
           t_qos = uint qos, t_first_seen_at = at, t_last_seen_at = at\<rparr>
          (db_topics d)
        of Inl e \<Rightarrow> Inl e | Inr (_, t) \<Rightarrow> Inr ((), t))
       (\<lambda>t. d\<lparr>db_topics := t\<rparr>)"

definition RecordAdminPublishTopic :: "string \<Rightarrow> string \<Rightarrow> byte \<Rightarrow> time \<Rightarrow> (world, unit) eio" where
  "RecordAdminPublishTopic clientID topic qos at = exec_pool (admin_topic_stmt clientID topic qos at)"

definition message_matches :: "message_filter \<Rightarrow> message_row \<Rightarrow> bool" where
  "message_matches f r \<longleftrightarrow> (mf_DeviceID f = [] \<or> m_device_id r = Some (mf_DeviceID f)) \<and> any_or (mf_Topic f) (m_topic r)
     \<and> (case mf_From f of None \<Rightarrow> True | Some t \<Rightarrow> t \<le> m_received_at r)
     \<and> (case mf_To f of None \<Rightarrow> True | Some t \<Rightarrow> m_received_at r \<le> t)"

definition QueryMessages :: "message_filter \<Rightarrow> (world, message_dto page) eio" where
  "QueryMessages f =
     (let (p, ps) = NormalizePage (mf_Page f) (mf_PageSize f); offset = page_offset p ps in
      read_page p ps (\<lambda>d. page_query (message_matches f) m_received_at ps offset (db_messages d)) scanMessage)"

definition delete_messages_stmt :: "time \<Rightarrow> int statement" where
  "delete_messages_stmt before uuid d =
     Inr (int (length (filter (\<lambda>r. m_received_at r < before) (db_messages d))),
          d\<lparr>db_messages := filter (\<lambda>r. \<not> m_received_at r < before) (db_messages d)\<rparr>)"

definition DeleteMessagesBefore :: "time \<Rightarrow> (world, int) eio" where
  "DeleteMessagesBefore before = exec_pool (delete_messages_stmt before)"

section \<open>Publish commands\<close>

definition create_command_stmt :: "string \<Rightarrow> publish_command \<Rightarrow> time \<Rightarrow> command_row statement" where
  "create_command_stmt key_id cmd createdAt uuid d =
     (let row = \<lparr>c_id = key_id, c_admin_user_id = cmd_AdminUserID cmd, c_topic = cmd_Topic cmd,
            c_payload_text = cmd_PayloadText cmd, c_qos = uint (cmd_QoS cmd), c_retain = cmd_Retain cmd,
            c_status = PublishStatusPending, c_error = [], c_created_at = createdAt, c_published_at = None\<rparr> in
      put_table
        (case insert_row c_id (\<lambda>_. True) row (db_commands d) of Inl e \<Rightarrow> Inl e | Inr t \<Rightarrow> Inr (row, t))
        (\<lambda>t. d\<lparr>db_commands := t\<rparr>))"

definition CreatePublishCommand :: "string \<Rightarrow> publish_command \<Rightarrow> time \<Rightarrow> (world, publish_command_dto) eio" where
  "CreatePublishCommand key_id cmd createdAt =
     ebind (exec_pool (create_command_stmt key_id cmd createdAt)) (\<lambda>row. ok (scanCommand row))"

definition mark_command_stmt :: "string \<Rightarrow> publish_status \<Rightarrow> string \<Rightarrow> time option \<Rightarrow> unit statement" where
  "mark_command_stmt key_id status errText publishedAt uuid d =
     Inr ((), d\<lparr>db_commands := update_rows (\<lambda>r. c_id r = key_id)
        (\<lambda>r. r\<lparr>c_status := status, c_error := errText, c_published_at := publishedAt\<rparr>) (db_commands d)\<rparr>)"

definition MarkPublishCommand :: "string \<Rightarrow> publish_status \<Rightarrow> string \<Rightarrow> time option \<Rightarrow> (world, unit) eio" where
  "MarkPublishCommand key_id status errText publishedAt = exec_pool (mark_command_stmt key_id status errText publishedAt)"

definition ListPublishCommands :: "command_filter \<Rightarrow> (world, publish_command_dto page) eio" where
  "ListPublishCommands f =
     (let (p, ps) = NormalizePage (cf_Page f) (cf_PageSize f); offset = page_offset p ps in
      read_page p ps (\<lambda>d. page_query
        (\<lambda>r. any_or (cf_Topic f) (c_topic r) \<and> any_or (cf_Status f) (publish_status_text (c_status r)))
        c_created_at ps offset (db_commands d)) scanCommand)"

section \<open>Scheduled tasks\<close>

definition create_task_stmt :: "scheduled_publish_task_dto \<Rightarrow> (task_row \<times> string option) statement" where
  "create_task_stmt task uuid d =
     (let row = \<lparr>k_id = task_ID task, k_device_id = task_DeviceID task, k_admin_user_id = task_AdminUserID task,
            k_name = task_Name task, k_topic = task_Topic task, k_payload_text = task_PayloadText task,
            k_qos = uint (task_QoS task), k_retain = task_Retain task, k_schedule_type = task_ScheduleType task,
            k_run_at = task_RunAt task, k_time_of_day = task_TimeOfDay task,
            k_weekdays = EncodeWeekdays (task_Weekdays task), k_timezone = task_Timezone task,
            k_status = task_Status task, k_next_run_at = task_NextRunAt task, k_last_run_at = None,
            k_last_error = [], k_run_count = 0, k_created_at = task_CreatedAt task, k_updated_at = task_CreatedAt task\<rparr> in
      put_table
        (case insert_row k_id (\<lambda>r. device_exists d (k_device_id r) \<and> user_exists d (k_admin_user_id r)) row (db_tasks d)
         of Inl e \<Rightarrow> Inl e | Inr t \<Rightarrow> Inr ((row, client_of d (k_device_id row)), t))
        (\<lambda>t. d\<lparr>db_tasks := t\<rparr>))"

definition CreateScheduledTask :: "scheduled_publish_task_dto \<Rightarrow> (world, scheduled_publish_task_dto) eio" where
  "CreateScheduledTask task = ebind (exec_pool (create_task_stmt task)) (\<lambda>row. check (scanScheduledTask row))"

definition task_columns :: "string list" where
  "task_columns = [''id'', ''device_id'', ''admin_user_id'', ''name'', ''topic'', ''payload_text'', ''qos'', ''retain'',
     ''schedule_type'', ''run_at'', ''time_of_day'', ''weekdays'', ''timezone'', ''status'', ''next_run_at'',
     ''last_run_at'', ''last_error'', ''run_count'', ''created_at'', ''updated_at'']"

definition device_columns :: "string list" where
  "device_columns = [''id'', ''client_id'', ''type'', ''status'', ''session_id'', ''first_seen_at'', ''last_seen_at'',
     ''last_disconnected_at'', ''metadata'']"

text \<open>
  \<open>SELECT id, device_id, ... FROM scheduled_publish_tasks JOIN devices ON ...\<close>. The unqualified names of the statement are
  resolved against the two joined tables before anything is read.
\<close>

definition ListScheduledTasks ::
  "scheduled_publish_filter \<Rightarrow> (world, scheduled_publish_task_dto page) eio" where
  "ListScheduledTasks f =
     (let (p, ps) = NormalizePage (sf_Page f) (sf_PageSize f); offset = page_offset p ps in
      read_page_checked p ps
        (\<lambda>d. case resolve_columns [task_columns, device_columns] task_columns of
               Some e \<Rightarrow> Inl e
             | None \<Rightarrow> page_query (\<lambda>(r, c). any_or (sf_DeviceID f) (k_device_id r) \<and> any_or (sf_Status f) (task_status_text (k_status r)))
                 (\<lambda>(r, c). k_created_at r) ps offset
                 (filter (\<lambda>(r, c). c \<noteq> None) (map (\<lambda>r. (r, client_of d (k_device_id r))) (db_tasks d))))
        scanScheduledTask)"

definition cancel_task_stmt :: "string \<Rightarrow> time \<Rightarrow> (task_row \<times> string option) statement" where
  "cancel_task_stmt key_id updatedAt uuid d =
     (case find_row (\<lambda>r. k_id r = key_id) (db_tasks d) of
        Inl e \<Rightarrow> Inl e
      | Inr r \<Rightarrow>
         (let upd = (\<lambda>r. r\<lparr>k_status := TaskCanceled, k_next_run_at := None, k_updated_at := updatedAt\<rparr>) in
          Inr ((upd r, client_of d (k_device_id r)),
               d\<lparr>db_tasks := update_rows (\<lambda>r. k_id r = key_id) upd (db_tasks d)\<rparr>)))"

definition CancelScheduledTask :: "string \<Rightarrow> time \<Rightarrow> (world, scheduled_publish_task_dto) eio" where
  "CancelScheduledTask key_id updatedAt =
     ebind (exec_pool (cancel_task_stmt key_id updatedAt)) (\<lambda>row. check (scanScheduledTask row))"

definition is_due :: "time \<Rightarrow> task_row \<Rightarrow> bool" where
  "is_due now r \<longleftrightarrow> k_status r = TaskActive \<and> (case k_next_run_at r of None \<Rightarrow> False | Some t \<Rightarrow> t \<le> now)"

definition due_at :: "task_row \<Rightarrow> time" where
  "due_at r = (case k_next_run_at r of None \<Rightarrow> 0 | Some t \<Rightarrow> t)"

definition due_tasks_stmt :: "time \<Rightarrow> int \<Rightarrow> (task_row \<times> string option) list statement" where
  "due_tasks_stmt now limit uuid d =
     (if limit < 0 then Inl (ForeignError ''LIMIT must not be negative'')
      else Inr (map (\<lambda>r. (r, client_of d (k_device_id r)))
                  (take (nat limit) (sort_key due_at (filter (is_due now) (db_tasks d)))), d))"

definition ListDueScheduledTasks :: "time \<Rightarrow> int \<Rightarrow> (world, scheduled_publish_task_dto list) eio" where
  "ListDueScheduledTasks now limit =
     ebind (exec_pool (due_tasks_stmt now limit)) (\<lambda>rows. check (scan_all scanScheduledTask rows))"

definition insert_run_stmt :: "scheduled_publish_finish \<Rightarrow> unit statement" where
  "insert_run_stmt result uuid d =
     put_new
       (insert_row r_id (\<lambda>r. task_exists d (r_task_id r) \<and> null_or (command_exists d) (r_publish_command_id r))
          \<lparr>r_id = fin_RunID result, r_task_id = fin_TaskID result,
           r_publish_command_id = (if fin_PublishCommandID result = [] then None else Some (fin_PublishCommandID result)),
           r_status = fin_RunStatus result, r_error = fin_Error result, r_scheduled_for = fin_ScheduledFor result,
           r_started_at = fin_StartedAt result, r_finished_at = fin_FinishedAt result\<rparr>
          (db_runs d))
       (\<lambda>t. d\<lparr>db_runs := t\<rparr>)"

definition finish_task_stmt :: "scheduled_publish_finish \<Rightarrow> unit statement" where
  "finish_task_stmt result uuid d =
     (let hit = (\<lambda>r. k_id r = fin_TaskID result \<and> k_status r = TaskActive) in
      if \<exists>r \<in> set (db_tasks d). hit r \<and> 2147483647 \<le> k_run_count r then Inl (ForeignError ''integer out of range'')
      else Inr ((), d\<lparr>db_tasks := update_rows hit
        (\<lambda>r. r\<lparr>k_status := fin_TaskStatus result, k_next_run_at := fin_NextRunAt result,
               k_last_run_at := Some (fin_FinishedAt result), k_last_error := fin_Error result,
               k_run_count := k_run_count r + 1, k_updated_at := fin_FinishedAt result\<rparr>)
        (db_tasks d)\<rparr>))"

definition FinishScheduledRun :: "scheduled_publish_finish \<Rightarrow> (world, unit) eio" where
  "FinishScheduledRun result = in_tx
     (ebind (exec_tx (insert_run_stmt result)) (\<lambda>_.
      ebind (exec_tx (finish_task_stmt result)) (\<lambda>_.
      tx_commit)))"

section \<open>Quick actions\<close>

definition quick_action_key :: "quick_action_row \<Rightarrow> string \<times> string" where
  "quick_action_key r = (q_device_id r, q_name r)"

definition create_quick_action_stmt :: "quick_action_dto \<Rightarrow> (quick_action_row \<times> string option) statement" where
  "create_quick_action_stmt a uuid d =
     put_table
       (case upsert_row quick_action_key q_id (\<lambda>r. device_exists d (q_device_id r) \<and> user_exists d (q_admin_user_id r))
          (\<lambda>old. old\<lparr>q_admin_user_id := qa_AdminUserID a, q_topic := qa_Topic a, q_payload_text := qa_PayloadText a,
                     q_qos := uint (qa_QoS a), q_retain := qa_Retain a, q_updated_at := qa_UpdatedAt a\<rparr>)
          \<lparr>q_id = qa_ID a, q_device_id = qa_DeviceID a, q_admin_user_id = qa_AdminUserID a, q_name = qa_Name a,
           q_topic = qa_Topic a, q_payload_text = qa_PayloadText a, q_qos = uint (qa_QoS a), q_retain = qa_Retain a,
           q_created_at = qa_CreatedAt a, q_updated_at = qa_UpdatedAt a\<rparr>
          (db_quick_actions d)
        of Inl e \<Rightarrow> Inl e | Inr (row, t) \<Rightarrow> Inr ((row, client_of d (q_device_id row)), t))
       (\<lambda>t. d\<lparr>db_quick_actions := t\<rparr>)"

definition CreateQuickAction :: "quick_action_dto \<Rightarrow> (world, quick_action_dto) eio" where
  "CreateQuickAction a = ebind (exec_pool (create_quick_action_stmt a)) (\<lambda>row. check (scanQuickAction row))"

definition joined_quick_actions :: "db \<Rightarrow> (quick_action_row \<times> string option) list" where
  "joined_quick_actions d =
     filter (\<lambda>(r, c). c \<noteq> None) (map (\<lambda>r. (r, client_of d (q_device_id r))) (db_quick_actions d))"

definition ListQuickActions :: "quick_action_filter \<Rightarrow> (world, quick_action_dto page) eio" where
  "ListQuickActions f =
     (let (p, ps) = NormalizePage (qf_Page f) (qf_PageSize f); offset = page_offset p ps in
      read_page_checked p ps
        (\<lambda>d. page_query (\<lambda>(r, c). any_or (qf_DeviceID f) (q_device_id r)) (\<lambda>(r, c). q_created_at r) ps offset
               (joined_quick_actions d))
        scanQuickAction)"

definition GetQuickAction :: "string \<Rightarrow> (world, quick_action_dto) eio" where
  "GetQuickAction key_id =
     ebind (exec_pool (\<lambda>_ d. case find_row (\<lambda>(r, c). q_id r = key_id) (joined_quick_actions d) of
              Inl e \<Rightarrow> Inl e | Inr rc \<Rightarrow> Inr (rc, d)))
       (\<lambda>row. check (scanQuickAction row))"

definition delete_quick_action_stmt :: "string \<Rightarrow> unit statement" where
  "delete_quick_action_stmt key_id uuid d =
     Inr ((), d\<lparr>db_quick_actions := filter (\<lambda>r. q_id r \<noteq> key_id) (db_quick_actions d)\<rparr>)"

definition DeleteQuickAction :: "string \<Rightarrow> (world, unit) eio" where
  "DeleteQuickAction key_id = exec_pool (delete_quick_action_stmt key_id)"

section \<open>Alerts\<close>

definition upsert_alert_stmt :: "system_alert \<Rightarrow> system_alert statement" where
  "upsert_alert_stmt alert uuid d =
     put_table
       (upsert_row al_Code al_ID (\<lambda>_. True)
          (\<lambda>old. old\<lparr>al_Level := al_Level alert, al_Message := al_Message alert, al_Status := AlertStatusOpen,
                     al_LastSeenAt := al_LastSeenAt alert\<rparr>)
          alert (db_alerts d))
       (\<lambda>t. d\<lparr>db_alerts := t\<rparr>)"

definition UpsertAlert :: "system_alert \<Rightarrow> (world, system_alert) eio" where
  "UpsertAlert alert = exec_pool (upsert_alert_stmt alert)"

definition ListAlerts :: "alert_filter \<Rightarrow> (world, system_alert page) eio" where
  "ListAlerts f =
     (let (p, ps) = NormalizePage (af_Page f) (af_PageSize f); offset = page_offset p ps in
      read_page p ps (\<lambda>d. page_query
        (\<lambda>r. any_or (af_Level f) (alert_level_text (al_Level r)) \<and> any_or (af_Status f) (alert_status_text (al_Status r)))
        al_LastSeenAt ps offset (db_alerts d)) (\<lambda>r. r))"

section \<open>Administrators and sessions\<close>

definition FindAdminByUsername :: "string \<Rightarrow> (world, admin_user) eio" where
  "FindAdminByUsername username = exec_pool (\<lambda>_ d.
     case find_row (\<lambda>r. u_username r = username) (db_users d) of
       Inl e \<Rightarrow> Inl e
     | Inr r \<Rightarrow> Inr (\<lparr>adm_ID = u_id r, adm_Username = u_username r, adm_PasswordHash = u_password_hash r,
                      adm_Role = u_role r, adm_Disabled = u_disabled r\<rparr>, d))"

definition GetAdminByID :: "string \<Rightarrow> (world, admin_user_dto) eio" where
  "GetAdminByID key_id = exec_pool (\<lambda>_ d.
     case find_row (\<lambda>r. u_id r = key_id \<and> \<not> u_disabled r) (db_users d) of
       Inl e \<Rightarrow> Inl e
     | Inr r \<Rightarrow> Inr (\<lparr>au_ID = u_id r, au_Username = u_username r, au_Role = u_role r\<rparr>, d))"

definition create_session_stmt :: "admin_session \<Rightarrow> unit statement" where
  "create_session_stmt s uuid d =
     put_new
       (insert_row s_token (\<lambda>r. user_exists d (s_user_id r))
          \<lparr>s_token = ses_Token s, s_user_id = ses_UserID s, s_expires_at = ses_ExpiresAt s\<rparr> (db_sessions d))
       (\<lambda>t. d\<lparr>db_sessions := t\<rparr>)"

definition CreateSession :: "admin_session \<Rightarrow> (world, unit) eio" where
  "CreateSession s = exec_pool (create_session_stmt s)"

definition delete_session_stmt :: "string \<Rightarrow> unit statement" where
  "delete_session_stmt token uuid d =
     Inr ((), d\<lparr>db_sessions := filter (\<lambda>r. s_token r \<noteq> token) (db_sessions d)\<rparr>)"

definition DeleteSession :: "string \<Rightarrow> (world, unit) eio" where
  "DeleteSession token = exec_pool (delete_session_stmt token)"

definition FindSession :: "string \<Rightarrow> time \<Rightarrow> (world, admin_session) eio" where
  "FindSession token now = exec_pool (\<lambda>_ d.
     case find_row (\<lambda>r. s_token r = token \<and> now < s_expires_at r) (db_sessions d) of
       Inl e \<Rightarrow> Inl e
     | Inr r \<Rightarrow> Inr (\<lparr>ses_Token = s_token r, ses_UserID = s_user_id r, ses_ExpiresAt = s_expires_at r\<rparr>, d))"

text \<open>\<open>ON CONFLICT (username) DO NOTHING\<close>\<close>

definition bootstrap_admin_stmt :: "string \<Rightarrow> string \<Rightarrow> byte list \<Rightarrow> time \<Rightarrow> unit statement" where
  "bootstrap_admin_stmt key_id username passwordHash now uuid d =
     (if username \<in> u_username ` set (db_users d) then Inr ((), d)
      else put_new
        (insert_row u_id (\<lambda>_. True)
           \<lparr>u_id = key_id, u_username = username, u_password_hash = passwordHash, u_role = ''admin'', u_disabled = False,
            u_created_at = now\<rparr> (db_users d))
        (\<lambda>t. d\<lparr>db_users := t\<rparr>))"

definition BootstrapAdmin :: "string \<Rightarrow> string \<Rightarrow> byte list \<Rightarrow> time \<Rightarrow> (world, unit) eio" where
  "BootstrapAdmin key_id username passwordHash now = exec_pool (bootstrap_admin_stmt key_id username passwordHash now)"

section \<open>The store as the repositories of \<open>ports\<close>\<close>

definition store_ingestion :: "world ingestion_repository" where
  "store_ingestion = \<lparr>ir_UpsertConnected = UpsertConnected, ir_RecordSubscription = RecordSubscription,
     ir_PersistPublish = PersistPublish, ir_MarkDisconnected = MarkDisconnected, ir_MarkStaleOnline = MarkStaleOnline\<rparr>"

definition store_devices :: "(string \<Rightarrow> string \<Rightarrow> bool) \<Rightarrow> (string \<Rightarrow> string) \<Rightarrow> world device_repository" where
  "store_devices ilike collate = \<lparr>dr_ListDevices = ListDevices ilike, dr_GetDevice = GetDevice,
     dr_ChangeDeviceType = ChangeDeviceType, dr_ListDeviceTypes = ListDeviceTypes collate\<rparr>"

definition store_topics :: "(string \<Rightarrow> string \<Rightarrow> bool) \<Rightarrow> world topic_repository" where
  "store_topics ilike = \<lparr>tr_ListDeviceTopics = ListDeviceTopics ilike, tr_ListTopics = ListTopics ilike,
     tr_RecordAdminPublishTopic = RecordAdminPublishTopic\<rparr>"

definition store_messages :: "world message_repository" where
  "store_messages = \<lparr>mr_QueryMessages = QueryMessages\<rparr>"

definition store_commands :: "world publish_command_repository" where
  "store_commands = \<lparr>pr_CreatePublishCommand = CreatePublishCommand, pr_MarkPublishCommand = MarkPublishCommand,
     pr_ListPublishCommands = ListPublishCommands\<rparr>"

definition store_tasks :: "world scheduled_publish_repository" where
  "store_tasks = \<lparr>sr_CreateScheduledTask = CreateScheduledTask, sr_ListScheduledTasks = ListScheduledTasks,
     sr_CancelScheduledTask = CancelScheduledTask, sr_ListDueScheduledTasks = ListDueScheduledTasks,
     sr_FinishScheduledRun = FinishScheduledRun\<rparr>"

definition store_quick_actions :: "world quick_action_repository" where
  "store_quick_actions = \<lparr>qr_CreateQuickAction = CreateQuickAction, qr_ListQuickActions = ListQuickActions,
     qr_GetQuickAction = GetQuickAction, qr_DeleteQuickAction = DeleteQuickAction\<rparr>"

definition store_alerts :: "world alert_repository" where
  "store_alerts = \<lparr>ar_UpsertAlert = UpsertAlert, ar_ListAlerts = ListAlerts\<rparr>"

definition store_auth :: "world auth_repository" where
  "store_auth = \<lparr>aur_FindAdminByUsername = FindAdminByUsername, aur_GetAdminByID = GetAdminByID,
     aur_CreateSession = CreateSession, aur_DeleteSession = DeleteSession, aur_FindSession = FindSession,
     aur_BootstrapAdmin = BootstrapAdmin\<rparr>"

end
