(* ===== verification/Integrity.thy ===== *)
theory Integrity
  imports Store
begin

text \<open>
  The consistency of the database: keys are unique, references point to existing rows, the partitions of the message
  table are disjoint, and a message or topic that names a device carries that device's client id. Every statement of
  the store keeps it, hence every method does, whether it succeeds, fails or is cut off between two statements.
\<close>

section \<open>The invariant\<close>

definition devices_ok :: "string set \<Rightarrow> device_row list \<Rightarrow> bool" where [wf_defs]:
  "devices_ok types ds \<longleftrightarrow> distinct (map d_id ds) \<and> distinct (map d_client_id ds) \<and> d_type ` set ds \<subseteq> types"

text \<open>\<open>devs\<close> is the set of pairs of device id and client id.\<close>

definition owned :: "(string \<times> string) set \<Rightarrow> string option \<Rightarrow> string \<Rightarrow> bool" where
  "owned devs dev client \<longleftrightarrow> (\<forall>i. dev = Some i \<longrightarrow> (i, client) \<in> devs)"

definition topics_ok :: "(string \<times> string) set \<Rightarrow> topic_row list \<Rightarrow> bool" where [wf_defs]:
  "topics_ok devs ts \<longleftrightarrow> distinct (map topic_key ts) \<and> (\<forall>r \<in> set ts. owned devs (t_device_id r) (t_client_id r))"

definition messages_ok :: "(string \<times> string) set \<Rightarrow> message_row list \<Rightarrow> bool" where [wf_defs]:
  "messages_ok devs ms \<longleftrightarrow> distinct (map (\<lambda>r. (m_id r, m_received_at r)) ms)
     \<and> (\<forall>r \<in> set ms. owned devs (m_device_id r) (m_client_id r))"

definition alerts_ok :: "system_alert list \<Rightarrow> bool" where [wf_defs]:
  "alerts_ok as \<longleftrightarrow> distinct (map al_ID as) \<and> distinct (map al_Code as)"

definition users_ok :: "user_row list \<Rightarrow> bool" where [wf_defs]:
  "users_ok us \<longleftrightarrow> distinct (map u_id us) \<and> distinct (map u_username us)"

definition sessions_ok :: "string set \<Rightarrow> session_row list \<Rightarrow> bool" where [wf_defs]:
  "sessions_ok users ss \<longleftrightarrow> distinct (map s_token ss) \<and> s_user_id ` set ss \<subseteq> users"

definition tasks_ok :: "string set \<Rightarrow> string set \<Rightarrow> task_row list \<Rightarrow> bool" where [wf_defs]:
  "tasks_ok devs users ts \<longleftrightarrow> distinct (map k_id ts) \<and> k_device_id ` set ts \<subseteq> devs \<and> k_admin_user_id ` set ts \<subseteq> users"

definition runs_ok :: "string set \<Rightarrow> string set \<Rightarrow> run_row list \<Rightarrow> bool" where [wf_defs]:
  "runs_ok tasks cmds rs \<longleftrightarrow> distinct (map r_id rs) \<and> r_task_id ` set rs \<subseteq> tasks
     \<and> (\<forall>r \<in> set rs. \<forall>i. r_publish_command_id r = Some i \<longrightarrow> i \<in> cmds)"

definition quick_actions_ok :: "string set \<Rightarrow> string set \<Rightarrow> quick_action_row list \<Rightarrow> bool" where [wf_defs]:
  "quick_actions_ok devs users qs \<longleftrightarrow> distinct (map q_id qs) \<and> distinct (map quick_action_key qs)
     \<and> q_device_id ` set qs \<subseteq> devs \<and> q_admin_user_id ` set qs \<subseteq> users"

fun disjoint_ranges :: "(string \<times> time \<times> time) list \<Rightarrow> bool" where
  "disjoint_ranges [] = True"
| "disjoint_ranges ((n, lo, hi) # ps) \<longleftrightarrow>
     lo < hi \<and> (\<forall>(n', lo', hi') \<in> set ps. n' \<noteq> n \<and> (hi \<le> lo' \<or> hi' \<le> lo)) \<and> disjoint_ranges ps"

definition owners :: "db \<Rightarrow> (string \<times> string) set" where
  "owners d = (\<lambda>r. (d_id r, d_client_id r)) ` set (db_devices d)"

definition device_ids :: "db \<Rightarrow> string set" where
  "device_ids d = d_id ` set (db_devices d)"

definition db_ok :: "db \<Rightarrow> bool" where
  "db_ok d \<longleftrightarrow>
     distinct (map dt_Code (db_device_types d))
     \<and> devices_ok (dt_Code ` set (db_device_types d)) (db_devices d)
     \<and> topics_ok (owners d) (db_topics d)
     \<and> messages_ok (owners d) (db_messages d)
     \<and> distinct (map c_id (db_commands d))
     \<and> alerts_ok (db_alerts d)
     \<and> users_ok (db_users d)
     \<and> sessions_ok (u_id ` set (db_users d)) (db_sessions d)
     \<and> x_device_id ` set (db_type_changes d) \<subseteq> device_ids d
     \<and> tasks_ok (device_ids d) (u_id ` set (db_users d)) (db_tasks d)
     \<and> runs_ok (k_id ` set (db_tasks d)) (c_id ` set (db_commands d)) (db_runs d)
     \<and> quick_actions_ok (device_ids d) (u_id ` set (db_users d)) (db_quick_actions d)
     \<and> disjoint_ranges (db_partitions d)"

lemma db_ok_facts:
  assumes "db_ok d"
  shows "devices_ok (dt_Code ` set (db_device_types d)) (db_devices d)"
    "topics_ok (owners d) (db_topics d)"
    "messages_ok (owners d) (db_messages d)"
    "distinct (map c_id (db_commands d))"
    "alerts_ok (db_alerts d)"
    "users_ok (db_users d)"
    "sessions_ok (u_id ` set (db_users d)) (db_sessions d)"
    "x_device_id ` set (db_type_changes d) \<subseteq> device_ids d"
    "tasks_ok (device_ids d) (u_id ` set (db_users d)) (db_tasks d)"
    "runs_ok (k_id ` set (db_tasks d)) (c_id ` set (db_commands d)) (db_runs d)"
    "quick_actions_ok (device_ids d) (u_id ` set (db_users d)) (db_quick_actions d)"
    "disjoint_ranges (db_partitions d)"
  using assms by (simp_all add: db_ok_def)

section \<open>A table changes, the rest follows\<close>

text \<open>
  One rule per table: what a new content of the table has to satisfy for the whole database to stay consistent. Rows
  that others refer to must not disappear.
\<close>

lemma owned_mono: "owned devs i c \<Longrightarrow> devs \<subseteq> devs' \<Longrightarrow> owned devs' i c"
  by (auto simp: owned_def)

lemma refs_mono:
  "topics_ok D ts \<Longrightarrow> D \<subseteq> D' \<Longrightarrow> topics_ok D' ts"
  "messages_ok D ms \<Longrightarrow> D \<subseteq> D' \<Longrightarrow> messages_ok D' ms"
  "sessions_ok U ss \<Longrightarrow> U \<subseteq> U' \<Longrightarrow> sessions_ok U' ss"
  "tasks_ok E U ks \<Longrightarrow> E \<subseteq> E' \<Longrightarrow> U \<subseteq> U' \<Longrightarrow> tasks_ok E' U' ks"
  "quick_actions_ok E U qs \<Longrightarrow> E \<subseteq> E' \<Longrightarrow> U \<subseteq> U' \<Longrightarrow> quick_actions_ok E' U' qs"
  "runs_ok K C rs \<Longrightarrow> K \<subseteq> K' \<Longrightarrow> C \<subseteq> C' \<Longrightarrow> runs_ok K' C' rs"
  unfolding topics_ok_def messages_ok_def sessions_ok_def tasks_ok_def quick_actions_ok_def runs_ok_def
  by (blast intro: owned_mono)+

lemma db_ok_devices:
  assumes "db_ok d" "devices_ok (dt_Code ` set (db_device_types d)) t"
    and "owners d \<subseteq> (\<lambda>r. (d_id r, d_client_id r)) ` set t"
  shows "db_ok (d\<lparr>db_devices := t\<rparr>)"
proof -
  let ?d = "d\<lparr>db_devices := t\<rparr>"
  have o: "owners d \<subseteq> owners ?d" using assms(3) by (simp add: owners_def)
  have i: "device_ids d \<subseteq> device_ids ?d"
    using image_mono [OF o, of fst] by (simp add: owners_def device_ids_def image_image)
  show ?thesis
    unfolding db_ok_def
    using assms(1,2) refs_mono(1,2) [OF _ o] refs_mono(4,5) [OF _ i subset_refl] i
    by (simp add: db_ok_def subset_trans [OF _ i])
qed

lemma db_ok_topics: "db_ok d \<Longrightarrow> topics_ok (owners d) t \<Longrightarrow> db_ok (d\<lparr>db_topics := t\<rparr>)"
  by (simp add: db_ok_def owners_def device_ids_def)

lemma db_ok_messages: "db_ok d \<Longrightarrow> messages_ok (owners d) t \<Longrightarrow> db_ok (d\<lparr>db_messages := t\<rparr>)"
  by (simp add: db_ok_def owners_def device_ids_def)

lemma db_ok_commands:
  assumes "db_ok d" "distinct (map c_id t)" "c_id ` set (db_commands d) \<subseteq> c_id ` set t"
  shows "db_ok (d\<lparr>db_commands := t\<rparr>)"
  using assms refs_mono(6) [OF _ subset_refl assms(3)] by (simp add: db_ok_def owners_def device_ids_def)

lemma db_ok_alerts: "db_ok d \<Longrightarrow> alerts_ok t \<Longrightarrow> db_ok (d\<lparr>db_alerts := t\<rparr>)"
  by (simp add: db_ok_def owners_def device_ids_def)

lemma db_ok_users:
  assumes "db_ok d" "users_ok t" "u_id ` set (db_users d) \<subseteq> u_id ` set t"
  shows "db_ok (d\<lparr>db_users := t\<rparr>)"
  using assms refs_mono(3) [OF _ assms(3)] refs_mono(4,5) [OF _ subset_refl assms(3)]
  by (simp add: db_ok_def owners_def device_ids_def)

lemma db_ok_sessions:
  "db_ok d \<Longrightarrow> sessions_ok (u_id ` set (db_users d)) t \<Longrightarrow> db_ok (d\<lparr>db_sessions := t\<rparr>)"
  by (simp add: db_ok_def owners_def device_ids_def)

lemma db_ok_type_changes:
  "db_ok d \<Longrightarrow> x_device_id ` set t \<subseteq> device_ids d \<Longrightarrow> db_ok (d\<lparr>db_type_changes := t\<rparr>)"
  by (simp add: db_ok_def owners_def device_ids_def)

lemma db_ok_tasks:
  assumes "db_ok d" "tasks_ok (device_ids d) (u_id ` set (db_users d)) t" "k_id ` set (db_tasks d) \<subseteq> k_id ` set t"
  shows "db_ok (d\<lparr>db_tasks := t\<rparr>)"
  using assms refs_mono(6) [OF _ assms(3) subset_refl] by (simp add: db_ok_def owners_def device_ids_def)

lemma db_ok_runs:
  "db_ok d \<Longrightarrow> runs_ok (k_id ` set (db_tasks d)) (c_id ` set (db_commands d)) t \<Longrightarrow> db_ok (d\<lparr>db_runs := t\<rparr>)"
  by (simp add: db_ok_def owners_def device_ids_def)

lemma db_ok_quick_actions:
  "db_ok d \<Longrightarrow> quick_actions_ok (device_ids d) (u_id ` set (db_users d)) t \<Longrightarrow> db_ok (d\<lparr>db_quick_actions := t\<rparr>)"
  by (simp add: db_ok_def owners_def device_ids_def)

lemma db_ok_partitions: "db_ok d \<Longrightarrow> disjoint_ranges t \<Longrightarrow> db_ok (d\<lparr>db_partitions := t\<rparr>)"
  by (simp add: db_ok_def owners_def device_ids_def)

lemma put_table_ok: "put_table res put = Inr (x, d') \<longleftrightarrow> (\<exists>t. res = Inr (x, t) \<and> d' = put t)"
  by (auto simp: put_table_def split: sum.split prod.split)

lemma put_new_ok: "put_new res put = Inr (u, d') \<longleftrightarrow> (\<exists>t. res = Inr t \<and> d' = put t)"
  by (auto simp: put_new_def split: sum.split)

lemma update_rows_image: "(\<And>r. k (f r) = k r) \<Longrightarrow> k ` set (update_rows P f tbl) = k ` set tbl"
  by (metis list.set_map update_rows_map)

lemma find_row_ok: "find_row P tbl = Inr r \<Longrightarrow> r \<in> set tbl \<and> P r"
  by (auto simp: find_row_def dest: find_SomeD split: option.splits)

section \<open>Statements\<close>

text \<open>A statement whose successful runs lead from consistent databases to consistent ones.\<close>

lemma stmt_keepsI: "(\<And>u d x d'. I d \<Longrightarrow> f u d = Inr (x, d') \<Longrightarrow> I d') \<Longrightarrow> stmt_keeps I f"
  by (auto simp: stmt_keeps_def)

text \<open>An upsert on the devices that touches neither ids, client ids nor types.\<close>

lemma upsert_device_keeps:
  assumes ok: "db_ok d"
    and up: "upsert_row d_client_id d_id (\<lambda>r. type_exists d (d_type r)) merge new (db_devices d) = Inr (r, t)"
    and m: "\<And>x. d_client_id (merge x) = d_client_id x" "\<And>x. d_id (merge x) = d_id x"
  shows "db_ok (d\<lparr>db_devices := t\<rparr>)"
proof (rule db_ok_devices [OF ok])
  from ok have dev: "devices_ok (dt_Code ` set (db_device_types d)) (db_devices d)" by (simp add: db_ok_def)
  then have "distinct (map d_client_id t) \<and> distinct (map d_id t)"
    by (intro upsert_row_distinct [OF up m]) (simp_all add: devices_ok_def)
  moreover have "d_type ` set t \<subseteq> dt_Code ` set (db_device_types d)"
  proof
    fix y assume "y \<in> d_type ` set t"
    then obtain x where x: "x \<in> set t" "y = d_type x" by auto
    have "distinct (map d_client_id (db_devices d))" using dev by (simp add: devices_ok_def)
    from upsert_row_rows [OF up this m(1) x(1)] show "y \<in> dt_Code ` set (db_device_types d)"
      using dev x(2) upsert_row_ref [OF up] by (auto simp: devices_ok_def type_exists_def)
  qed
  ultimately show "devices_ok (dt_Code ` set (db_device_types d)) t" by (simp add: devices_ok_def)
  show "owners d \<subseteq> (\<lambda>r. (d_id r, d_client_id r)) ` set t"
    unfolding owners_def by (rule upsert_row_keeps_keys [OF up]) (simp add: m)
qed

lemma upsert_connected_keeps: "stmt_keeps db_ok (upsert_connected_stmt ev)"
  by (rule stmt_keepsI)
    (auto simp: upsert_connected_stmt_def put_table_ok elim!: upsert_device_keeps)

lemma ensure_device_keeps: "stmt_keeps db_ok (ensure_device_stmt c s at)"
  by (rule stmt_keepsI)
    (auto simp: ensure_device_stmt_def put_table_ok split: sum.splits elim!: upsert_device_keeps)

text \<open>The id that \<open>ensureDevice\<close> returns belongs to the client's row.\<close>

lemma ensure_device_owner:
  assumes "ensure_device_stmt c s at u d = Inr (i, d')"
  shows "(i, c) \<in> owners d'"
proof -
  from assms obtain r t where up: "upsert_row d_client_id d_id (\<lambda>r. type_exists d (d_type r))
          (\<lambda>old. old\<lparr>d_session_id := s, d_last_seen_at := at\<rparr>)
          \<lparr>d_id = u, d_client_id = c, d_type = ''unknown'', d_status = DeviceStatusOnline,
           d_session_id = s, d_first_seen_at = at, d_last_seen_at = at,
           d_last_disconnected_at = None, d_metadata = Map.empty\<rparr> (db_devices d) = Inr (r, t)"
    and i: "i = d_id r" "d' = d\<lparr>db_devices := t\<rparr>"
    by (auto simp: ensure_device_stmt_def put_table_ok split: sum.splits)
  have "r \<in> set t \<and> d_client_id r = c" using upsert_row_in [OF up] by simp
  then show ?thesis using i by (auto simp: owners_def)
qed

text \<open>Topics: the device written must be the owner of the client id.\<close>

lemma upsert_topic_keeps:
  assumes ok: "db_ok d"
    and up: "upsert_row topic_key topic_key ref merge new (db_topics d) = Inr (r, t)"
    and m: "\<And>x. topic_key (merge x) = topic_key x" and r: "owned (owners d) (t_device_id r) (t_client_id r)"
  shows "db_ok (d\<lparr>db_topics := t\<rparr>)"
proof (rule db_ok_topics [OF ok])
  from ok have dist: "distinct (map topic_key (db_topics d))"
    and own: "\<forall>r \<in> set (db_topics d). owned (owners d) (t_device_id r) (t_client_id r)"
    by (simp_all add: db_ok_def topics_ok_def)
  have "distinct (map topic_key t)" using upsert_row_distinct [OF up m m dist dist] by simp
  moreover have "owned (owners d) (t_device_id y) (t_client_id y)" if "y \<in> set t" for y
    using upsert_row_rows [OF up dist m that] own r by auto
  ultimately show "topics_ok (owners d) t" by (simp add: topics_ok_def)
qed

lemma observe_topic_keeps:
  assumes "db_ok d" "owned (owners d) dev c" "observe_topic_stmt dev c topic kind qos at u d = Inr (x, d')"
  shows "db_ok d' \<and> owners d' = owners d"
proof -
  from assms(3) obtain r t where up: "upsert_row topic_key topic_key (\<lambda>r. null_or (device_exists d) (t_device_id r))
          (\<lambda>old. old\<lparr>t_device_id := dev, t_qos := uint qos, t_last_seen_at := at\<rparr>)
          \<lparr>t_device_id = dev, t_client_id = c, t_topic = topic, t_kind = kind, t_qos = uint qos,
           t_first_seen_at = at, t_last_seen_at = at\<rparr> (db_topics d) = Inr (r, t)"
    and d': "d' = d\<lparr>db_topics := t\<rparr>"
    by (auto simp: observe_topic_stmt_def put_table_ok split: sum.splits)
  have "topic_key r = (c, topic, kind)"
    using upsert_row_in [OF up] by (simp add: topic_key_def)
  moreover have "t_device_id r = dev" using up by (cases rule: upsert_row_cases) simp_all
  ultimately have "owned (owners d) (t_device_id r) (t_client_id r)"
    using assms(2) by (simp add: topic_key_def)
  then show ?thesis
    using upsert_topic_keeps [OF assms(1) up] d' by (simp add: topic_key_def owners_def)
qed

lemma admin_topic_keeps: "stmt_keeps db_ok (admin_topic_stmt c topic qos at)"
proof (rule stmt_keepsI)
  fix u d x d' assume ok: "db_ok d" and "admin_topic_stmt c topic qos at u d = Inr (x, d')"
  then obtain r t where up: "upsert_row topic_key topic_key (\<lambda>r. null_or (device_exists d) (t_device_id r))
          (\<lambda>old. old\<lparr>t_qos := uint qos, t_last_seen_at := at\<rparr>)
          \<lparr>t_device_id = None, t_client_id = c, t_topic = topic, t_kind = TopicKindAdminPublishTopic,
           t_qos = uint qos, t_first_seen_at = at, t_last_seen_at = at\<rparr> (db_topics d) = Inr (r, t)"
    and d': "d' = d\<lparr>db_topics := t\<rparr>"
    by (auto simp: admin_topic_stmt_def put_table_ok split: sum.splits)
  have "owned (owners d) (t_device_id r) (t_client_id r)"
    using up
  proof (cases rule: upsert_row_cases)
    case (update old)
    then have "old \<in> set (db_topics d)" by (auto dest: find_SomeD)
    then show ?thesis using ok update(2) by (simp add: db_ok_def topics_ok_def)
  next
    case insert
    then show ?thesis by (simp add: owned_def)
  qed
  then show "db_ok d'" using upsert_topic_keeps [OF ok up] d' by (simp add: topic_key_def)
qed

lemma insert_message_keeps:
  assumes ok: "db_ok d" and own: "owned (owners d) dev (pe_ClientID ev)"
    and run: "insert_message_stmt dev ev u d = Inr (r, d')"
  shows "db_ok d'"
proof -
  from run obtain t where t: "t = db_messages d @ [r]" "d' = d\<lparr>db_messages := t\<rparr>"
    and new: "(m_id r, m_received_at r) \<notin> (\<lambda>r. (m_id r, m_received_at r)) ` set (db_messages d)"
    and r: "m_device_id r = dev" "m_client_id r = pe_ClientID ev"
    by (auto simp: insert_message_stmt_def Let_def put_table_ok dest!: insert_row_ok split: sum.splits)
  have "messages_ok (owners d) t"
    using ok own r new by (simp add: t(1) db_ok_def messages_ok_def)
  then show ?thesis unfolding t(2) by (rule db_ok_messages [OF ok])
qed

text \<open>Updates that keep the keys and the references of a table.\<close>

lemma update_devices_keeps:
  assumes "db_ok d" "\<And>r. d_id (f r) = d_id r" "\<And>r. d_client_id (f r) = d_client_id r"
    and "\<And>r. r \<in> set (db_devices d) \<Longrightarrow> P r \<Longrightarrow> type_exists d (d_type (f r))"
  shows "db_ok (d\<lparr>db_devices := update_rows P f (db_devices d)\<rparr>)"
proof (rule db_ok_devices [OF assms(1)])
  have "d_type ` set (update_rows P f (db_devices d)) \<subseteq> dt_Code ` set (db_device_types d)"
    using assms(1,4) by (force simp: update_rows_def db_ok_def devices_ok_def type_exists_def)
  then show "devices_ok (dt_Code ` set (db_device_types d)) (update_rows P f (db_devices d))"
    using assms(1-3) by (simp add: db_ok_def devices_ok_def update_rows_map)
  show "owners d \<subseteq> (\<lambda>r. (d_id r, d_client_id r)) ` set (update_rows P f (db_devices d))"
    by (subst update_rows_image) (simp_all add: assms(2,3) owners_def)
qed

lemma device_type_exists: "db_ok d \<Longrightarrow> r \<in> set (db_devices d) \<Longrightarrow> type_exists d (d_type r)"
  by (auto simp: db_ok_def devices_ok_def type_exists_def)

lemma mark_disconnected_keeps: "stmt_keeps db_ok (mark_disconnected_stmt ev)"
  by (rule stmt_keepsI) (auto simp: mark_disconnected_stmt_def device_type_exists intro!: update_devices_keeps)

lemma mark_stale_keeps: "stmt_keeps db_ok (mark_stale_stmt at)"
  by (rule stmt_keepsI) (auto simp: mark_stale_stmt_def device_type_exists intro!: update_devices_keeps)

lemma update_type_keeps: "stmt_keeps db_ok (update_type_stmt i typ)"
  by (rule stmt_keepsI) (auto simp: update_type_stmt_def intro!: update_devices_keeps split: sum.splits if_splits)

lemma log_type_change_keeps: "stmt_keeps db_ok (log_type_change_stmt cmd old at)"
  by (rule stmt_keepsI, frule db_ok_facts(8))
    (auto simp: log_type_change_stmt_def device_exists_def device_ids_def image_subset_iff
      intro!: db_ok_type_changes split: if_splits)

lemma delete_messages_keeps: "stmt_keeps db_ok (delete_messages_stmt before)"
  by (rule stmt_keepsI, frule db_ok_facts(3))
    (auto simp: delete_messages_stmt_def messages_ok_def distinct_map_filter intro!: db_ok_messages)

lemma disjoint_ranges_append:
  assumes "disjoint_ranges ps" "name \<notin> fst ` set ps" "lo < hi" "\<forall>(n, lo', hi') \<in> set ps. \<not> (lo < hi' \<and> lo' < hi)"
  shows "disjoint_ranges (ps @ [(name, lo, hi)])"
  using assms by (induction ps rule: disjoint_ranges.induct) force+

lemma create_partition_keeps: "stmt_keeps db_ok (create_partition_stmt name lo hi)"
proof (rule stmt_keepsI)
  fix u d x d' assume ok: "db_ok d" and run: "create_partition_stmt name lo hi u d = Inr (x, d')"
  show "db_ok d'"
  proof (cases "name \<in> fst ` set (db_partitions d)")
    case True
    then show ?thesis using ok run by (simp add: create_partition_stmt_def)
  next
    case False
    have range: "lo < hi" and free: "\<forall>(n, lo', hi') \<in> set (db_partitions d). \<not> (lo < hi' \<and> lo' < hi)"
      and d': "d' = d\<lparr>db_partitions := db_partitions d @ [(name, lo, hi)]\<rparr>"
      using run False by (auto simp: create_partition_stmt_def split: if_splits)
    show ?thesis
      unfolding d' by (intro db_ok_partitions ok disjoint_ranges_append db_ok_facts(12) False range free)
  qed
qed

lemma create_command_keeps: "stmt_keeps db_ok (create_command_stmt i cmd at)"
  by (rule stmt_keepsI, frule db_ok_facts(4))
    (auto simp: create_command_stmt_def Let_def put_table_ok dest!: insert_row_ok
      intro!: db_ok_commands split: sum.splits)

lemma mark_command_keeps: "stmt_keeps db_ok (mark_command_stmt i st e at)"
  by (rule stmt_keepsI, frule db_ok_facts(4))
    (auto simp: mark_command_stmt_def update_rows_map update_rows_image intro!: db_ok_commands)

lemma create_task_keeps: "stmt_keeps db_ok (create_task_stmt task)"
  by (rule stmt_keepsI, frule db_ok_facts(9))
    (auto simp: create_task_stmt_def Let_def put_table_ok tasks_ok_def device_exists_def device_ids_def
      user_exists_def dest!: insert_row_ok intro!: db_ok_tasks split: sum.splits)

lemma update_tasks_keeps:
  assumes "db_ok d" "\<And>r. k_id (f r) = k_id r" "\<And>r. k_device_id (f r) = k_device_id r"
    "\<And>r. k_admin_user_id (f r) = k_admin_user_id r"
  shows "db_ok (d\<lparr>db_tasks := update_rows P f (db_tasks d)\<rparr>)"
  using assms db_ok_facts(9) [OF assms(1)]
  by (intro db_ok_tasks) (simp_all add: tasks_ok_def update_rows_map update_rows_image)

lemma cancel_task_keeps: "stmt_keeps db_ok (cancel_task_stmt i at)"
  by (rule stmt_keepsI) (auto simp: cancel_task_stmt_def Let_def intro!: update_tasks_keeps split: sum.splits)

lemma finish_task_keeps: "stmt_keeps db_ok (finish_task_stmt result)"
  by (rule stmt_keepsI) (auto simp: finish_task_stmt_def Let_def intro!: update_tasks_keeps split: if_splits)

lemma insert_run_keeps: "stmt_keeps db_ok (insert_run_stmt result)"
  by (rule stmt_keepsI, frule db_ok_facts(10))
    (auto simp: insert_run_stmt_def put_new_ok runs_ok_def task_exists_def command_exists_def null_or_def
      dest!: insert_row_ok intro!: db_ok_runs split: if_splits)

lemma create_quick_action_keeps: "stmt_keeps db_ok (create_quick_action_stmt a)"
proof (rule stmt_keepsI)
  fix u d x d' assume ok: "db_ok d" and run: "create_quick_action_stmt a u d = Inr (x, d')"
  let ?ref = "\<lambda>r. device_exists d (q_device_id r) \<and> user_exists d (q_admin_user_id r)"
  let ?merge = "\<lambda>old. old\<lparr>q_admin_user_id := qa_AdminUserID a, q_topic := qa_Topic a,
    q_payload_text := qa_PayloadText a, q_qos := uint (qa_QoS a), q_retain := qa_Retain a, q_updated_at := qa_UpdatedAt a\<rparr>"
  from run obtain r t new where
    up: "upsert_row quick_action_key q_id ?ref ?merge new (db_quick_actions d) = Inr (r, t)"
    and d': "d' = d\<lparr>db_quick_actions := t\<rparr>"
    unfolding create_quick_action_stmt_def put_table_ok by (fastforce split: sum.splits)
  have m: "quick_action_key (?merge x) = quick_action_key x" "q_id (?merge x) = q_id x" for x
    by (simp_all add: quick_action_key_def)
  from db_ok_facts(11) [OF ok]
  have q: "quick_actions_ok (device_ids d) (u_id ` set (db_users d)) (db_quick_actions d)" .
  then have dist: "distinct (map quick_action_key (db_quick_actions d))" "distinct (map q_id (db_quick_actions d))"
    by (simp_all add: quick_actions_ok_def)
  have "q_device_id y \<in> device_ids d \<and> q_admin_user_id y \<in> u_id ` set (db_users d)" if "y \<in> set t" for y
    using upsert_row_rows [OF up dist(1) m(1) that] upsert_row_ref [OF up] q
    by (auto simp: quick_actions_ok_def device_exists_def user_exists_def device_ids_def)
  then have "quick_actions_ok (device_ids d) (u_id ` set (db_users d)) t"
    using upsert_row_distinct [OF up m dist] by (auto simp: quick_actions_ok_def)
  then show "db_ok d'" unfolding d' by (rule db_ok_quick_actions [OF ok])
qed

lemma delete_quick_action_keeps: "stmt_keeps db_ok (delete_quick_action_stmt i)"
  by (rule stmt_keepsI, frule db_ok_facts(11))
    (auto simp: delete_quick_action_stmt_def quick_actions_ok_def distinct_map_filter image_subset_iff
      intro!: db_ok_quick_actions)

lemma upsert_alert_keeps: "stmt_keeps db_ok (upsert_alert_stmt alert)"
proof (rule stmt_keepsI)
  fix u d x d' assume ok: "db_ok d" and run: "upsert_alert_stmt alert u d = Inr (x, d')"
  then obtain t where up: "upsert_row al_Code al_ID (\<lambda>_. True)
          (\<lambda>old. old\<lparr>al_Level := al_Level alert, al_Message := al_Message alert, al_Status := AlertStatusOpen,
                     al_LastSeenAt := al_LastSeenAt alert\<rparr>) alert (db_alerts d) = Inr (x, t)"
    and d': "d' = d\<lparr>db_alerts := t\<rparr>"
    by (auto simp: upsert_alert_stmt_def put_table_ok)
  have "alerts_ok t" using upsert_row_distinct [OF up] ok by (simp add: db_ok_def alerts_ok_def)
  then show "db_ok d'" unfolding d' by (rule db_ok_alerts [OF ok])
qed

lemma create_session_keeps: "stmt_keeps db_ok (create_session_stmt s)"
  by (rule stmt_keepsI, frule db_ok_facts(7))
    (auto simp: create_session_stmt_def put_new_ok sessions_ok_def user_exists_def
      dest!: insert_row_ok intro!: db_ok_sessions)

lemma delete_session_keeps: "stmt_keeps db_ok (delete_session_stmt token)"
  by (rule stmt_keepsI, frule db_ok_facts(7))
    (auto simp: delete_session_stmt_def sessions_ok_def distinct_map_filter image_subset_iff intro!: db_ok_sessions)

lemma bootstrap_admin_keeps: "stmt_keeps db_ok (bootstrap_admin_stmt i username hash now)"
  by (rule stmt_keepsI, frule db_ok_facts(6))
    (auto simp: bootstrap_admin_stmt_def put_new_ok users_ok_def
      dest!: insert_row_ok intro!: db_ok_users split: if_splits)

text \<open>A query changes nothing.\<close>

definition read_only :: "'a statement \<Rightarrow> bool" where
  "read_only f \<longleftrightarrow> (\<forall>u d x d'. f u d = Inr (x, d') \<longrightarrow> d' = d)"

lemma read_only_keeps: "read_only f \<Longrightarrow> stmt_keeps I f"
  by (auto simp: read_only_def stmt_keeps_def)

lemma read_only_case [simp]:
  "read_only (\<lambda>_ d. case q d of Inl e \<Rightarrow> Inl e | Inr r \<Rightarrow> Inr (g r, d))"
  "read_only (\<lambda>_ d. Inr (h d, d))"
  by (auto simp: read_only_def split: sum.splits)

lemma read_only_due [simp]: "read_only (due_tasks_stmt now limit)"
  by (auto simp: read_only_def due_tasks_stmt_def split: if_splits)

lemmas statement_keeps =
  upsert_connected_keeps ensure_device_keeps admin_topic_keeps mark_disconnected_keeps mark_stale_keeps
  update_type_keeps log_type_change_keeps delete_messages_keeps create_partition_keeps create_command_keeps
  mark_command_keeps create_task_keeps cancel_task_keeps finish_task_keeps insert_run_keeps
  create_quick_action_keeps delete_quick_action_keeps upsert_alert_keeps create_session_keeps
  delete_session_keeps bootstrap_admin_keeps

section \<open>Methods\<close>

lemmas method_rules = io_rules preorder_invariant exec_pool_keeps exec_tx_keeps tx_keeps in_tx_keeps
  statement_keeps read_only_keeps

text \<open>
  In the two methods that write topics and messages for a device, the id found by \<open>ensureDevice\<close> stays the client's in
  the transaction's copy.
\<close>

definition tx_owner :: "string option \<Rightarrow> string \<Rightarrow> world \<Rightarrow> bool" where
  "tx_owner dev c w \<longleftrightarrow> world_inv db_ok w \<and> (\<forall>t. w_tx w = Some t \<longrightarrow> owned (owners t) dev c)"

lemma ensureDevice_owner:
  "hoare (world_inv db_ok) (ensureDevice c s at) (\<lambda>i. tx_owner (Some i) c) (world_inv db_ok)"
proof (rule hoareI)
  fix w i w' assume inv: "world_inv db_ok w" and run: "run_state (ensureDevice c s at) w = (Inr i, w')"
  have "world_inv db_ok w'"
    using keepsD [OF exec_tx_keeps [OF ensure_device_keeps] run [unfolded ensureDevice_def] inv] .
  moreover obtain t d where "ensure_device_stmt c s at (w_uuid w (w_stmts w)) t = Inr (i, d)" "w_tx w' = Some d"
    using exec_tx_ok [OF run [unfolded ensureDevice_def]] by auto
  ultimately show "tx_owner (Some i) c w'"
    by (auto simp: tx_owner_def owned_def dest: ensure_device_owner)
next
  fix w e w' assume inv: "world_inv db_ok w" and run: "run_state (ensureDevice c s at) w = (Inl e, w')"
  then show "world_inv db_ok w'"
    using keepsD [OF exec_tx_keeps [OF ensure_device_keeps] run [unfolded ensureDevice_def] inv] by simp
qed

text \<open>A statement of the transaction that keeps the invariant and the owners, given the owner.\<close>

lemma exec_tx_owner:
  assumes "\<And>u d x d'. db_ok d \<Longrightarrow> owned (owners d) dev c \<Longrightarrow> f u d = Inr (x, d') \<Longrightarrow> db_ok d' \<and> owners d' = owners d"
  shows "hoare (tx_owner dev c) (exec_tx f) (\<lambda>_. tx_owner dev c) (world_inv db_ok)"
proof (rule hoareI)
  fix w x w' assume "tx_owner dev c w" "run_state (exec_tx f) w = (Inr x, w')"
  then obtain t d where t: "w_tx w = Some t" "f (w_uuid w (w_stmts w)) t = Inr (x, d)"
    and w': "w' = w\<lparr>w_stmts := Suc (w_stmts w), w_tx := Some d\<rparr>"
    and I: "db_ok (w_db w)" "db_ok t" "owned (owners t) dev c"
    by (auto simp: tx_owner_def world_inv_def dest!: exec_tx_ok)
  from assms [OF I(2,3) t(2)] I show "tx_owner dev c w'"
    by (simp add: tx_owner_def world_inv_def w')
next
  fix w e w' assume "tx_owner dev c w" "run_state (exec_tx f) w = (Inl e, w')"
  then show "world_inv db_ok w'"
    by (auto simp: tx_owner_def world_inv_def exec_tx_def Let_def split: option.splits sum.splits)
qed

lemma tx_commit_owner: "hoare (tx_owner dev c) tx_commit (\<lambda>_. world_inv db_ok) (world_inv db_ok)"
  by (rule hoareI) (auto simp: tx_owner_def intro: keepsD [OF tx_keeps(2)])

lemma in_tx_hoare:
  assumes "hoare (world_inv I) body (\<lambda>_. world_inv I) (world_inv I)"
  shows "keeps (world_inv I) (in_tx body)"
  by (intro in_tx_keeps) (use assms in \<open>simp add: hoare_keeps\<close>)

lemma observe_topic_hoare:
  "hoare (tx_owner dev c) (exec_tx (observe_topic_stmt dev c topic kind qos at)) (\<lambda>_. tx_owner dev c) (world_inv db_ok)"
  by (rule exec_tx_owner) (rule observe_topic_keeps)

lemma record_filters_hoare:
  "hoare (tx_owner (Some i) (se_ClientID ev)) (record_filters i ev subs)
     (\<lambda>_. tx_owner (Some i) (se_ClientID ev)) (world_inv db_ok)"
proof (induction subs)
  case Nil
  show ?case by (simp add: hoare_def)
next
  case (Cons sub subs)
  then show ?case by (auto intro: hoare_ebind observe_topic_hoare)
qed

lemma RecordSubscription_keeps: "keeps (world_inv db_ok) (RecordSubscription ev)"
  unfolding RecordSubscription_def
  by (intro in_tx_hoare hoare_ebind) (rule ensureDevice_owner record_filters_hoare tx_commit_owner)+

lemma insert_message_hoare:
  "hoare (tx_owner dev (pe_ClientID ev)) (exec_tx (insert_message_stmt dev ev))
     (\<lambda>_. tx_owner dev (pe_ClientID ev)) (world_inv db_ok)"
proof (rule exec_tx_owner)
  fix u d x d' assume "db_ok d" "owned (owners d) dev (pe_ClientID ev)" and run: "insert_message_stmt dev ev u d = Inr (x, d')"
  then have "db_ok d'" by (rule insert_message_keeps)
  moreover have "owners d' = owners d"
    using run by (auto simp: insert_message_stmt_def Let_def put_table_ok owners_def)
  ultimately show "db_ok d' \<and> owners d' = owners d" by simp
qed

lemma PersistPublish_keeps: "keeps (world_inv db_ok) (PersistPublish ev)"
proof -
  let ?dev = "if pe_ClientID ev = ''inline'' then ok None
    else ebind (ensureDevice (pe_ClientID ev) (pe_SessionID ev) (pe_ReceivedAt ev)) (\<lambda>i. ok (Some i))"
  have "hoare (world_inv db_ok) ?dev (\<lambda>dev. tx_owner dev (pe_ClientID ev)) (world_inv db_ok)"
  proof (cases "pe_ClientID ev = ''inline''")
    case True
    then show ?thesis by (simp add: hoare_def tx_owner_def owned_def)
  next
    case False
    then show ?thesis by (simp del: run_ebind) (rule hoare_ebind [OF ensureDevice_owner], rule hoare_ok)
  qed
  then show ?thesis
    unfolding PersistPublish_def EnsureMessagePartition_def
    by (intro rel_ebind preorder_invariant exec_pool_keeps create_partition_keeps in_tx_hoare hoare_ebind)
      (assumption | rule observe_topic_hoare insert_message_hoare tx_commit_owner hoare_ok)+
qed

lemma read_page_keeps: "keeps (world_inv I) (read_page p ps query scan)"
  unfolding read_page_def by (intro rel_ebind preorder_invariant exec_pool_keeps read_only_keeps)
    (auto intro: rel_return split: prod.split)

lemma read_page_checked_keeps: "keeps (world_inv I) (read_page_checked p ps query scan)"
  unfolding read_page_checked_def by (intro method_rules) (auto simp: read_only_case)

text \<open>The calls of the store, and a run of any number of them.\<close>

datatype store_call =
    CallUpsertConnected connect_event | CallRecordSubscription subscribe_event | CallPersistPublish publish_event
  | CallMarkDisconnected disconnect_event | CallMarkStaleOnline time
  | CallListDevices device_filter | CallGetDevice string | CallChangeDeviceType change_device_type_command time
  | CallListDeviceTypes | CallListDeviceTopics string topic_filter | CallListTopics topic_filter
  | CallRecordAdminPublishTopic string string byte time | CallQueryMessages message_filter
  | CallCreatePublishCommand string publish_command time
  | CallMarkPublishCommand string publish_status string "time option" | CallListPublishCommands command_filter
  | CallCreateScheduledTask scheduled_publish_task_dto | CallListScheduledTasks scheduled_publish_filter
  | CallCancelScheduledTask string time | CallListDueScheduledTasks time int
  | CallFinishScheduledRun scheduled_publish_finish
  | CallCreateQuickAction quick_action_dto | CallListQuickActions quick_action_filter | CallGetQuickAction string
  | CallDeleteQuickAction string | CallUpsertAlert system_alert | CallListAlerts alert_filter
  | CallFindAdminByUsername string | CallGetAdminByID string | CallCreateSession admin_session
  | CallDeleteSession string | CallFindSession string time | CallBootstrapAdmin string string "byte list" time
  | CallEnsureMessagePartition time | CallDeleteMessagesBefore time

fun call :: "(string \<Rightarrow> string \<Rightarrow> bool) \<Rightarrow> (string \<Rightarrow> string) \<Rightarrow> store_call \<Rightarrow> (world, unit) state" where
  "call ilike collate (CallUpsertConnected ev) = discard (UpsertConnected ev)"
| "call ilike collate (CallRecordSubscription ev) = discard (RecordSubscription ev)"
| "call ilike collate (CallPersistPublish ev) = discard (PersistPublish ev)"
| "call ilike collate (CallMarkDisconnected ev) = discard (MarkDisconnected ev)"
| "call ilike collate (CallMarkStaleOnline at) = discard (MarkStaleOnline at)"
| "call ilike collate (CallListDevices f) = discard (ListDevices ilike f)"
| "call ilike collate (CallGetDevice i) = discard (GetDevice i)"
| "call ilike collate (CallChangeDeviceType cmd at) = discard (ChangeDeviceType cmd at)"
| "call ilike collate CallListDeviceTypes = discard (ListDeviceTypes collate)"
| "call ilike collate (CallListDeviceTopics i f) = discard (ListDeviceTopics ilike i f)"
| "call ilike collate (CallListTopics f) = discard (ListTopics ilike f)"
| "call ilike collate (CallRecordAdminPublishTopic c topic q at) = discard (RecordAdminPublishTopic c topic q at)"
| "call ilike collate (CallQueryMessages f) = discard (QueryMessages f)"
| "call ilike collate (CallCreatePublishCommand i cmd at) = discard (CreatePublishCommand i cmd at)"
| "call ilike collate (CallMarkPublishCommand i st e at) = discard (MarkPublishCommand i st e at)"
| "call ilike collate (CallListPublishCommands f) = discard (ListPublishCommands f)"
| "call ilike collate (CallCreateScheduledTask task) = discard (CreateScheduledTask task)"
| "call ilike collate (CallListScheduledTasks f) = discard (ListScheduledTasks f)"
| "call ilike collate (CallCancelScheduledTask i at) = discard (CancelScheduledTask i at)"
| "call ilike collate (CallListDueScheduledTasks now limit) = discard (ListDueScheduledTasks now limit)"
| "call ilike collate (CallFinishScheduledRun result) = discard (FinishScheduledRun result)"
| "call ilike collate (CallCreateQuickAction a) = discard (CreateQuickAction a)"
| "call ilike collate (CallListQuickActions f) = discard (ListQuickActions f)"
| "call ilike collate (CallGetQuickAction i) = discard (GetQuickAction i)"
| "call ilike collate (CallDeleteQuickAction i) = discard (DeleteQuickAction i)"
| "call ilike collate (CallUpsertAlert alert) = discard (UpsertAlert alert)"
| "call ilike collate (CallListAlerts f) = discard (ListAlerts f)"
| "call ilike collate (CallFindAdminByUsername u) = discard (FindAdminByUsername u)"
| "call ilike collate (CallGetAdminByID i) = discard (GetAdminByID i)"
| "call ilike collate (CallCreateSession s) = discard (CreateSession s)"
| "call ilike collate (CallDeleteSession token) = discard (DeleteSession token)"
| "call ilike collate (CallFindSession token now) = discard (FindSession token now)"
| "call ilike collate (CallBootstrapAdmin i u hash now) = discard (BootstrapAdmin i u hash now)"
| "call ilike collate (CallEnsureMessagePartition at) = discard (EnsureMessagePartition at)"
| "call ilike collate (CallDeleteMessagesBefore before) = discard (DeleteMessagesBefore before)"

fun calls :: "(string \<Rightarrow> string \<Rightarrow> bool) \<Rightarrow> (string \<Rightarrow> string) \<Rightarrow> store_call list \<Rightarrow> (world, unit) state" where
  "calls ilike collate [] = ret ()"
| "calls ilike collate (c # cs) = State_Monad.bind (call ilike collate c) (\<lambda>_. calls ilike collate cs)"

lemmas method_defs =
  UpsertConnected_def MarkDisconnected_def MarkStaleOnline_def ListDevices_def GetDevice_def ChangeDeviceType_def
  ListDeviceTypes_def ListDeviceTopics_def ListTopics_def RecordAdminPublishTopic_def QueryMessages_def
  CreatePublishCommand_def MarkPublishCommand_def ListPublishCommands_def CreateScheduledTask_def
  ListScheduledTasks_def CancelScheduledTask_def ListDueScheduledTasks_def FinishScheduledRun_def
  CreateQuickAction_def ListQuickActions_def GetQuickAction_def DeleteQuickAction_def UpsertAlert_def ListAlerts_def
  FindAdminByUsername_def GetAdminByID_def CreateSession_def DeleteSession_def FindSession_def BootstrapAdmin_def
  EnsureMessagePartition_def DeleteMessagesBefore_def

lemma call_keeps: "keeps (world_inv db_ok) (call ilike collate c)"
proof (cases c)
  case (CallRecordSubscription ev)
  then show ?thesis by (simp add: rel_discard preorder_invariant RecordSubscription_keeps)
next
  case (CallPersistPublish ev)
  then show ?thesis by (simp add: rel_discard preorder_invariant PersistPublish_keeps)
qed (simp_all add: method_defs Let_def split_beta,
  (intro method_rules read_page_keeps read_page_checked_keeps read_only_case read_only_due | assumption)+)

lemma calls_keep: "keeps (world_inv db_ok) (calls ilike collate cs)"
  by (induction cs) (auto intro!: rel_bind rel_return preorder_invariant call_keeps)

text \<open>
  C6. Integrity. Whatever methods of the store run, in whatever order and with whatever arguments, and whichever of their
  statements fail, the tables stay consistent: keys unique, references valid, message partitions disjoint, and
  every message and topic that names a device carrying that device's client id.
\<close>

theorem store_keeps_integrity:
  assumes "db_ok (w_db w)" "w_tx w = None"
  shows "db_ok (w_db (snd (run_state (calls ilike collate cs) w)))"
  using keepsD [OF calls_keep, of ilike collate cs w] assms
  by (cases "run_state (calls ilike collate cs) w") (simp add: world_inv_def)

lemma seed_db_ok: "db_ok seed_db"
  by (simp add: db_ok_def seed_db_def devices_ok_def topics_ok_def messages_ok_def alerts_ok_def users_ok_def sessions_ok_def
      tasks_ok_def runs_ok_def quick_actions_ok_def)

theorem store_keeps_integrity_witness:
  "db_ok (w_db (snd (run_state (calls (\<lambda>_ _. True) (\<lambda>s. s)
     [CallRecordSubscription \<lparr>se_ClientID = ''c'', se_SessionID = ''s'',
        se_Subscriptions = [\<lparr>sub_Filter = ''a'', sub_QoS = 1\<rparr>], se_ObservedAt = 5\<rparr>]) (start_world seed_db))))"
  by (rule store_keeps_integrity) (simp_all add: start_world_def seed_db_ok)

end
