(* ===== verification/Contracts.thy ===== *)
theory Contracts
  imports Ports
begin

text \<open>
  What the services rely on when they call a repository, one locale per interface: the interface, an observer that
  reads the part of the world the interface is about, and the laws every call obeys. Success is described exactly;
  a call that returns an error has changed nothing. The laws are proved for the store in
  \<open>StoreLaws\<close>; the services' lemmas are proved from them alone.
\<close>

section \<open>Publish commands\<close>

definition new_command :: "string \<Rightarrow> publish_command \<Rightarrow> time \<Rightarrow> publish_command_dto" where
  "new_command i cmd at = \<lparr>pc_ID = i, pc_AdminUserID = cmd_AdminUserID cmd, pc_Topic = cmd_Topic cmd,
     pc_PayloadText = cmd_PayloadText cmd, pc_QoS = cmd_QoS cmd, pc_Retain = cmd_Retain cmd,
     pc_Status = PublishStatusPending, pc_Error = [], pc_CreatedAt = at, pc_PublishedAt = None\<rparr>"

definition marked :: "publish_status \<Rightarrow> string \<Rightarrow> time option \<Rightarrow> publish_command_dto \<Rightarrow> publish_command_dto" where
  "marked st e at c = c\<lparr>pc_Status := st, pc_Error := e, pc_PublishedAt := at\<rparr>"

locale command_log =
  fixes repo :: "'w publish_command_repository"
    and commands :: "'w \<Rightarrow> string \<Rightarrow> publish_command_dto option"
  assumes create_ok: "run_state (pr_CreatePublishCommand repo i cmd at) w = (Inr c, w') \<Longrightarrow>
      c = new_command i cmd at \<and> commands w i = None \<and> commands w' = (commands w)(i \<mapsto> c)"
    and create_error: "run_state (pr_CreatePublishCommand repo i cmd at) w = (Inl e, w') \<Longrightarrow> commands w' = commands w"
    and mark_ok: "run_state (pr_MarkPublishCommand repo i st txt pub) w = (Inr u, w') \<Longrightarrow>
      commands w' = (commands w)(i := map_option (marked st txt pub) (commands w i))"
    and mark_error: "run_state (pr_MarkPublishCommand repo i st txt pub) w = (Inl e, w') \<Longrightarrow> commands w' = commands w"

section \<open>Scheduled tasks\<close>

record task_view =
  tv_id :: string
  tv_status :: task_status
  tv_next :: "time option"
  tv_runs :: int

definition view_of_task :: "scheduled_publish_task_dto \<Rightarrow> task_view" where
  "view_of_task t = \<lparr>tv_id = task_ID t, tv_status = task_Status t, tv_next = task_NextRunAt t, tv_runs = task_RunCount t\<rparr>"

definition canceled :: "string \<Rightarrow> task_view \<Rightarrow> task_view" where
  "canceled i v = (if tv_id v = i then v\<lparr>tv_status := TaskCanceled, tv_next := None\<rparr> else v)"

definition finished :: "scheduled_publish_finish \<Rightarrow> task_view \<Rightarrow> task_view" where
  "finished r v =
     (if tv_id v = fin_TaskID r \<and> tv_status v = TaskActive
      then v\<lparr>tv_status := fin_TaskStatus r, tv_next := fin_NextRunAt r, tv_runs := tv_runs v + 1\<rparr> else v)"

locale task_queue =
  fixes repo :: "'w scheduled_publish_repository"
    and tasks :: "'w \<Rightarrow> task_view set"
  assumes create_ok: "run_state (sr_CreateScheduledTask repo task) w = (Inr t, w') \<Longrightarrow>
      (\<forall>v \<in> tasks w. tv_id v \<noteq> task_ID task)
      \<and> tasks w' = insert \<lparr>tv_id = task_ID task, tv_status = task_Status task, tv_next = task_NextRunAt task, tv_runs = 0\<rparr> (tasks w)"
    and create_error: "run_state (sr_CreateScheduledTask repo task) w = (Inl e, w') \<Longrightarrow> tasks w' = tasks w"
    and cancel_ok: "run_state (sr_CancelScheduledTask repo i at) w = (Inr t, w') \<Longrightarrow>
      tasks w' = canceled i ` tasks w \<and> task_ID t = i \<and> task_Status t = TaskCanceled \<and> task_NextRunAt t = None
      \<and> view_of_task t \<in> tasks w'"
    and cancel_error: "run_state (sr_CancelScheduledTask repo i at) w = (Inl e, w') \<Longrightarrow>
      tasks w' = tasks w \<or> tasks w' = canceled i ` tasks w"
    and due_ok: "run_state (sr_ListDueScheduledTasks repo now limit) w = (Inr ts, w') \<Longrightarrow>
      tasks w' = tasks w \<and> int (length ts) \<le> max 0 limit
      \<and> (\<forall>t \<in> set ts. view_of_task t \<in> tasks w \<and> task_Status t = TaskActive \<and> (\<exists>n \<le> now. task_NextRunAt t = Some n))"
    and due_error: "run_state (sr_ListDueScheduledTasks repo now limit) w = (Inl e, w') \<Longrightarrow> tasks w' = tasks w"
    and finish_ok: "run_state (sr_FinishScheduledRun repo r) w = (Inr u, w') \<Longrightarrow> tasks w' = finished r ` tasks w"
    and finish_error: "run_state (sr_FinishScheduledRun repo r) w = (Inl e, w') \<Longrightarrow> tasks w' = tasks w"

section \<open>Sessions\<close>

locale session_table =
  fixes repo :: "'w auth_repository"
    and sessions :: "'w \<Rightarrow> admin_session set"
    and users :: "'w \<Rightarrow> admin_user set"
  assumes user_ok: "run_state (aur_FindAdminByUsername repo name) w = (Inr a, w') \<Longrightarrow>
      a \<in> users w \<and> adm_Username a = name"
    and get_ok: "run_state (aur_GetAdminByID repo i) w = (Inr u, w') \<Longrightarrow>
      \<exists>a \<in> users w. adm_ID a = i \<and> \<not> adm_Disabled a \<and> u = \<lparr>au_ID = i, au_Username = adm_Username a, au_Role = adm_Role a\<rparr>"
    and reads: "leaves sessions (aur_FindAdminByUsername repo name)" "leaves users (aur_FindAdminByUsername repo name)"
      "leaves sessions (aur_GetAdminByID repo i)" "leaves users (aur_GetAdminByID repo i)"
      "leaves sessions (aur_FindSession repo token now)" "leaves users (aur_FindSession repo token now)"
      "leaves users (aur_CreateSession repo s)" "leaves users (aur_DeleteSession repo token)"
    and create_ok: "run_state (aur_CreateSession repo s) w = (Inr x, w') \<Longrightarrow>
      (\<forall>r \<in> sessions w. ses_Token r \<noteq> ses_Token s) \<and> sessions w' = insert s (sessions w)"
    and create_error: "run_state (aur_CreateSession repo s) w = (Inl e, w') \<Longrightarrow> sessions w' = sessions w"
    and delete_ok: "run_state (aur_DeleteSession repo token) w = (Inr x, w') \<Longrightarrow>
      sessions w' = {r \<in> sessions w. ses_Token r \<noteq> token}"
    and delete_error: "run_state (aur_DeleteSession repo token) w = (Inl e, w') \<Longrightarrow> sessions w' = sessions w"
    and find_ok: "run_state (aur_FindSession repo token now) w = (Inr s, w') \<Longrightarrow>
      s \<in> sessions w \<and> ses_Token s = token \<and> now < ses_ExpiresAt s"

section \<open>Ingestion\<close>

text \<open>
  The messages stored so far, in order, and for every client its status with the session that the device
  row belongs to.
\<close>

definition stored_as :: "publish_event \<Rightarrow> message_dto \<Rightarrow> bool" where
  "stored_as ev m \<longleftrightarrow> msg_ClientID m = pe_ClientID ev \<and> msg_SessionID m = pe_SessionID ev \<and> msg_Topic m = pe_Topic ev
     \<and> msg_PayloadText m = pe_PayloadText ev \<and> msg_PayloadFormat m = pe_PayloadFormat ev \<and> msg_QoS m = pe_QoS ev
     \<and> msg_Retain m = pe_Retain ev \<and> msg_ReceivedAt m = pe_ReceivedAt ev"

definition seen :: "string \<Rightarrow> (device_status \<times> string) option \<Rightarrow> (device_status \<times> string) option" where
  "seen session p = Some (case p of None \<Rightarrow> DeviceStatusOnline | Some (st, _) \<Rightarrow> st, session)"

definition gone :: "string \<Rightarrow> (device_status \<times> string) option \<Rightarrow> (device_status \<times> string) option" where
  "gone session p =
     (case p of None \<Rightarrow> None
      | Some (st, s) \<Rightarrow> Some (if session = [] \<or> s = session then DeviceStatusOffline else st, s))"

definition stale :: "(device_status \<times> string) option \<Rightarrow> (device_status \<times> string) option" where
  "stale p =
     (case p of None \<Rightarrow> None
      | Some (st, s) \<Rightarrow> Some (if st = DeviceStatusOnline then DeviceStatusStaleOffline else st, s))"

locale ingestion_log =
  fixes repo :: "'w ingestion_repository"
    and messages :: "'w \<Rightarrow> message_dto list"
    and presence :: "'w \<Rightarrow> string \<Rightarrow> (device_status \<times> string) option"
  assumes connect_ok: "run_state (ir_UpsertConnected repo ce) w = (Inr d, w') \<Longrightarrow>
      messages w' = messages w \<and> presence w' = (presence w)(ce_ClientID ce \<mapsto> (DeviceStatusOnline, ce_SessionID ce))"
    and connect_error: "run_state (ir_UpsertConnected repo ce) w = (Inl e, w') \<Longrightarrow>
      messages w' = messages w \<and> presence w' = presence w"
    and subscribe_ok: "run_state (ir_RecordSubscription repo se) w = (Inr u, w') \<Longrightarrow>
      messages w' = messages w
      \<and> presence w' = (presence w)(se_ClientID se := seen (se_SessionID se) (presence w (se_ClientID se)))"
    and subscribe_error: "run_state (ir_RecordSubscription repo se) w = (Inl e, w') \<Longrightarrow>
      messages w' = messages w \<and> presence w' = presence w"
    and persist_ok: "run_state (ir_PersistPublish repo pe) w = (Inr m, w') \<Longrightarrow>
      messages w' = messages w @ [m] \<and> stored_as pe m
      \<and> presence w' = (if pe_ClientID pe = ''inline'' then presence w
           else (presence w)(pe_ClientID pe := seen (pe_SessionID pe) (presence w (pe_ClientID pe))))"
    and persist_error: "run_state (ir_PersistPublish repo pe) w = (Inl e, w') \<Longrightarrow>
      messages w' = messages w \<and> presence w' = presence w"
    and disconnect_ok: "run_state (ir_MarkDisconnected repo de) w = (Inr u, w') \<Longrightarrow>
      messages w' = messages w
      \<and> presence w' = (presence w)(de_ClientID de := gone (de_SessionID de) (presence w (de_ClientID de)))"
    and disconnect_error: "run_state (ir_MarkDisconnected repo de) w = (Inl e, w') \<Longrightarrow>
      messages w' = messages w \<and> presence w' = presence w"
    and stale_ok: "run_state (ir_MarkStaleOnline repo at) w = (Inr n, w') \<Longrightarrow>
      messages w' = messages w \<and> presence w' = stale \<circ> presence w"
    and stale_error: "run_state (ir_MarkStaleOnline repo at) w = (Inl e, w') \<Longrightarrow>
      messages w' = messages w \<and> presence w' = presence w"

section \<open>Alerts\<close>

definition raised :: "system_alert \<Rightarrow> system_alert option \<Rightarrow> system_alert" where
  "raised a old =
     (case old of None \<Rightarrow> a
      | Some b \<Rightarrow> b\<lparr>al_Level := al_Level a, al_Message := al_Message a, al_Status := AlertStatusOpen,
                   al_LastSeenAt := al_LastSeenAt a\<rparr>)"

locale alert_board =
  fixes repo :: "'w alert_repository"
    and alerts :: "'w \<Rightarrow> string \<Rightarrow> system_alert option"
  assumes upsert_ok: "run_state (ar_UpsertAlert repo a) w = (Inr saved, w') \<Longrightarrow>
      saved = raised a (alerts w (al_Code a)) \<and> alerts w' = (alerts w)(al_Code a \<mapsto> saved)"
    and upsert_error: "run_state (ar_UpsertAlert repo a) w = (Inl e, w') \<Longrightarrow> alerts w' = alerts w"

section \<open>Paged listings\<close>

text \<open>
  A listing whose pages are slices of one list, newest first. \<open>rows\<close> is that list, before any page is cut;
  \<open>at\<close> its time stamp.
\<close>

fun read_pages :: "(int \<Rightarrow> ('w, 'd page) eio) \<Rightarrow> int \<Rightarrow> nat \<Rightarrow> ('w, 'd list) eio" where
  "read_pages list_page p 0 = ok []"
| "read_pages list_page p (Suc n) =
     ebind (list_page p) (\<lambda>pg. ebind (read_pages list_page (p + 1) n) (\<lambda>rest. ok (page_items pg @ rest)))"

locale paged_list =
  fixes list_page :: "int \<Rightarrow> int \<Rightarrow> ('w, 'd page) eio"
    and rows :: "'w \<Rightarrow> 'd list"
    and at :: "'d \<Rightarrow> time"
  assumes newest: "sorted_wrt (\<lambda>x y. at y \<le> at x) (rows w)"
    and page_ok: "run_state (list_page p ps) w = (Inr pg, w') \<Longrightarrow> 1 \<le> p \<Longrightarrow> p \<le> 40000000000000000 \<Longrightarrow> 1 \<le> ps \<Longrightarrow> ps \<le> 200 \<Longrightarrow>
      page_items pg = take (nat ps) (drop (nat ((p - 1) * ps)) (rows w)) \<and> page_no pg = p \<and> page_size pg = ps
      \<and> page_total pg = (if page_items pg = [] then 0 else int (length (rows w))) \<and> rows w' = rows w"
begin

lemma items_sorted:
  assumes "run_state (list_page p ps) w = (Inr pg, w')" "1 \<le> p" "p \<le> 40000000000000000" "1 \<le> ps" "ps \<le> 200"
  shows "sorted_wrt (\<lambda>x y. at y \<le> at x) (page_items pg)" "int (length (page_items pg)) \<le> ps"
    "set (page_items pg) \<subseteq> set (rows w)"
  using page_ok [OF assms] newest [of w] assms(4)
  by (auto simp: sorted_wrt_take sorted_wrt_drop dest!: in_set_takeD in_set_dropD)

text \<open>Reading \<open>n\<close> consecutive pages yields the next \<open>n * ps\<close> rows, none twice and none left out.\<close>

lemma pages_from:
  assumes "run_state (read_pages (\<lambda>p. list_page p ps) p n) w = (Inr items, w')"
    and "1 \<le> p" "p + int n \<le> 40000000000000000" "1 \<le> ps" "ps \<le> 200"
  shows "items = take (n * nat ps) (drop (nat ((p - 1) * ps)) (rows w)) \<and> rows w' = rows w"
  using assms
proof (induction n arbitrary: p w items w')
  case (Suc n)
  from Suc.prems(1) obtain pg w1 rest where pg: "run_state (list_page p ps) w = (Inr pg, w1)"
    and rest: "run_state (read_pages (\<lambda>p. list_page p ps) (p + 1) n) w1 = (Inr rest, w')"
    and items: "items = page_items pg @ rest"
    by (auto split: sum.splits prod.splits)
  have first: "page_items pg = take (nat ps) (drop (nat ((p - 1) * ps)) (rows w))" "rows w1 = rows w"
    using page_ok [OF pg] Suc.prems by simp_all
  have next_page: "nat (p * ps) = nat ps + nat ((p - 1) * ps)"
    using Suc.prems by (simp add: nat_add_distrib [symmetric] left_diff_distrib)
  have tail: "rest = take (n * nat ps) (drop (nat (p * ps)) (rows w)) \<and> rows w' = rows w"
    using Suc.IH [OF rest] Suc.prems first(2) by simp
  then show ?case
    unfolding items first(1) next_page by (simp add: take_add)
qed simp

end

end
