(* ===== verification/StoreLaws.thy ===== *)
theory StoreLaws
  imports Integrity Contracts
begin

text \<open>
  The store obeys the contracts: for every interface the observer that reads its part of the database, the law of each
  method, and the interpretation of the interface's locale on the store.
\<close>

section \<open>Looking up after a change\<close>

lemma find_update_rows:
  assumes "\<And>r. k (f r) = k r"
  shows "find (\<lambda>r. k r = i) (update_rows P f tbl) = map_option (\<lambda>r. if P r then f r else r) (find (\<lambda>r. k r = i) tbl)"
  unfolding update_rows_def using assms by (induction tbl) auto

lemma find_append: "find P (xs @ ys) = (case find P xs of None \<Rightarrow> find P ys | Some x \<Rightarrow> Some x)"
  by (induction xs) auto

lemma find_upsert_row:
  assumes "upsert_row key pk ref merge new tbl = Inr (r, t)" "\<And>x. key (merge x) = key x"
  shows "find (\<lambda>x. key x = k) t = (if k = key new then Some r else find (\<lambda>x. key x = k) tbl)"
  using assms(1)
proof (cases rule: upsert_row_cases)
  case (update old)
  have "find (\<lambda>x. key x = k) t = map_option (\<lambda>x. if key x = key new then merge x else x) (find (\<lambda>x. key x = k) tbl)"
    unfolding update(3) using find_update_rows [of key merge] assms(2) by (simp add: update_rows_def)
  moreover have "key old = key new" using update(1) by (auto dest: find_SomeD)
  moreover have "map_option (\<lambda>x. if key x = key new then merge x else x) (find (\<lambda>x. key x = k) tbl) = find (\<lambda>x. key x = k) tbl"
    if "k \<noteq> key new"
    using that by (cases "find (\<lambda>x. key x = k) tbl") (auto dest: find_SomeD)
  ultimately show ?thesis using update(1,2) by simp
next
  case insert
  have "find (\<lambda>x. key x = key new) tbl = None"
    unfolding find_None_iff'
  proof
    fix x assume "x \<in> set tbl"
    then have "key x \<in> key ` set tbl" by (rule imageI)
    with insert(1) show "key x \<noteq> key new" by auto
  qed
  then show ?thesis using insert by (auto simp: find_append split: option.split)
qed

lemma byte_smallint [simp]: "byte_of_smallint (uint q) = q"
  by (simp add: byte_of_smallint_def)

section \<open>Transactions that end in a commit\<close>

text \<open>As long as the transaction is not committed, the database is what it was.\<close>

lemma exec_tx_no_effect: "hoare (\<lambda>w. w_db w = d) (exec_tx f) (\<lambda>_ w. w_db w = d) (\<lambda>w. w_db w = d)"
  by (rule hoareI) (metis exec_tx_db snd_conv)+

lemma commit_effect: "hoare (\<lambda>w. w_db w = d) tx_commit (\<lambda>_ _. True) (\<lambda>w. w_db w = d)"
proof (rule hoareI)
  fix w e w' assume "w_db w = d" "run_state tx_commit w = (Inl e, w')"
  then show "w_db w' = d" using tx_commit_error by blast
qed simp

lemma in_tx_error:
  assumes "\<And>d. hoare (\<lambda>w. w_db w = d) body (\<lambda>_ _. True) (\<lambda>w. w_db w = d)"
    and "run_state (in_tx body) w = (Inl e, w')"
  shows "w_db w' = w_db w"
proof (cases "run_state tx_begin w")
  case (Pair r w1)
  then have w1: "w_db w1 = w_db w" using tx_begin_db [of w] by simp
  show ?thesis
  proof (cases r)
    case (Inl e')
    then show ?thesis using assms(2) Pair w1 by (simp add: in_tx_def)
  next
    case (Inr u)
    obtain r' w2 where w2: "run_state body w1 = (r', w2)" by (cases "run_state body w1")
    with Inr Pair assms(2) have "r' = Inl e" "w' = w2\<lparr>w_tx := None\<rparr>" by (simp_all add: in_tx_def)
    with hoareD(2) [OF assms(1) w1] w2 have "w_db w2 = w_db w" by blast
    then show ?thesis using \<open>w' = w2\<lparr>w_tx := None\<rparr>\<close> by simp
  qed
qed

lemma in_tx_ok:
  assumes "run_state (in_tx body) w = (Inr x, w')"
  obtains w1 w2 where "w_tx w1 = Some (w_db w)" "w_db w1 = w_db w" "run_state body w1 = (Inr x, w2)" "w' = w2\<lparr>w_tx := None\<rparr>"
proof (cases "run_state tx_begin w")
  case (Pair r w1)
  with assms obtain u w2 where r: "r = Inr u" and w2: "run_state body w1 = (Inr x, w2)" "w' = w2\<lparr>w_tx := None\<rparr>"
    by (cases r) (auto simp: in_tx_def split: prod.splits)
  with Pair have "w_tx w1 = Some (w_db w)" "w_db w1 = w_db w" by (auto dest!: tx_begin_ok)
  then show ?thesis using w2 by (rule that)
qed

section \<open>Publish commands\<close>

definition command_view :: "world \<Rightarrow> string \<Rightarrow> publish_command_dto option" where
  "command_view w i = map_option scanCommand (find (\<lambda>r. c_id r = i) (db_commands (w_db w)))"

lemma command_view_eq: "db_commands (w_db w) = db_commands (w_db w') \<Longrightarrow> command_view w = command_view w'"
  by (simp add: command_view_def fun_eq_iff)

lemma create_command_law:
  assumes "run_state (CreatePublishCommand i cmd at) w = (Inr c, w')"
  shows "c = new_command i cmd at \<and> command_view w i = None \<and> command_view w' = (command_view w)(i \<mapsto> c)"
proof -
  from assms obtain row d where st: "create_command_stmt i cmd at (w_uuid w (w_stmts w)) (w_db w) = Inr (row, d)"
    and c: "c = scanCommand row" and w': "w_db w' = d"
    by (auto simp: CreatePublishCommand_def split: sum.splits prod.splits dest!: exec_pool_ok)
  from st have d: "db_commands d = db_commands (w_db w) @ [row]" and fresh: "i \<notin> c_id ` set (db_commands (w_db w))"
    and row: "c_id row = i" "scanCommand row = new_command i cmd at"
    by (auto simp: create_command_stmt_def Let_def put_table_ok new_command_def scanCommand_def
        dest!: insert_row_ok split: sum.splits)
  have none: "find (\<lambda>r. c_id r = i) (db_commands (w_db w)) = None" using fresh by (auto simp: find_None_iff')
  show ?thesis
    using none row c w' d by (auto simp: command_view_def fun_eq_iff find_append split: option.split)
qed

lemma create_command_error:
  "run_state (CreatePublishCommand i cmd at) w = (Inl e, w') \<Longrightarrow> command_view w' = command_view w"
  by (auto simp: CreatePublishCommand_def intro!: command_view_eq split: sum.splits prod.splits dest!: exec_pool_error)

lemma mark_command_law:
  assumes "run_state (MarkPublishCommand i st txt pub) w = (Inr u, w')"
  shows "command_view w' = (command_view w)(i := map_option (marked st txt pub) (command_view w i))"
proof -
  let ?f = "\<lambda>r. r\<lparr>c_status := st, c_error := txt, c_published_at := pub\<rparr>"
  have w': "db_commands (w_db w') = update_rows (\<lambda>r. c_id r = i) ?f (db_commands (w_db w))"
    using assms by (auto simp: MarkPublishCommand_def mark_command_stmt_def dest!: exec_pool_ok)
  have find: "find (\<lambda>r. c_id r = j) (update_rows (\<lambda>r. c_id r = i) ?f tbl)
      = map_option (\<lambda>r. if c_id r = i then ?f r else r) (find (\<lambda>r. c_id r = j) tbl)" for j tbl
    by (rule find_update_rows) simp
  show ?thesis
    unfolding command_view_def fun_eq_iff w' find
    by (auto simp: option.map_comp scanCommand_def marked_def dest: find_SomeD
        intro!: option.map_cong0 split: option.split)
qed

lemma mark_command_error:
  "run_state (MarkPublishCommand i st txt pub) w = (Inl e, w') \<Longrightarrow> command_view w' = command_view w"
  by (auto simp: MarkPublishCommand_def intro!: command_view_eq dest!: exec_pool_error)

interpretation commands: command_log store_commands command_view
  by unfold_locales
    (auto simp: store_commands_def dest: create_command_law create_command_error mark_command_law mark_command_error)

section \<open>Scheduled tasks\<close>

definition task_row_view :: "task_row \<Rightarrow> task_view" where
  "task_row_view r = \<lparr>tv_id = k_id r, tv_status = k_status r, tv_next = k_next_run_at r, tv_runs = k_run_count r\<rparr>"

definition tasks_view :: "world \<Rightarrow> task_view set" where
  "tasks_view w = task_row_view ` set (db_tasks (w_db w))"

lemma tasks_view_eq: "w_db w' = w_db w \<Longrightarrow> tasks_view w' = tasks_view w"
  by (simp add: tasks_view_def)

lemma scanScheduledTask_ok:
  "scanScheduledTask (r, c) = Inr t \<Longrightarrow> view_of_task t = task_row_view r \<and> task_ID t = k_id r
     \<and> task_Status t = k_status r \<and> task_NextRunAt t = k_next_run_at r"
  by (auto simp: scanScheduledTask_def view_of_task_def task_row_view_def split: option.splits)

lemma device_exists_client: "device_exists d i \<Longrightarrow> \<exists>c. client_of d i = Some c"
  by (cases "find (\<lambda>r. d_id r = i) (db_devices d)")
    (auto simp: device_exists_def client_of_def find_None_iff' image_iff)

lemma create_task_ok:
  assumes "create_task_stmt task u d = Inr ((row, c), d')"
  shows "db_tasks d' = db_tasks d @ [row]" "task_ID task \<notin> k_id ` set (db_tasks d)" "\<exists>cl. c = Some cl"
    "task_row_view row = \<lparr>tv_id = task_ID task, tv_status = task_Status task, tv_next = task_NextRunAt task, tv_runs = 0\<rparr>"
  using assms
  by (auto simp: create_task_stmt_def Let_def put_table_ok task_row_view_def dest!: insert_row_ok
      intro: device_exists_client split: sum.splits)

lemma create_task_law:
  assumes "run_state (CreateScheduledTask task) w = (Inr t, w')"
  shows "(\<forall>v \<in> tasks_view w. tv_id v \<noteq> task_ID task)
      \<and> tasks_view w' = insert \<lparr>tv_id = task_ID task, tv_status = task_Status task, tv_next = task_NextRunAt task, tv_runs = 0\<rparr>
          (tasks_view w)"
proof -
  from assms obtain row c d where st: "create_task_stmt task (w_uuid w (w_stmts w)) (w_db w) = Inr ((row, c), d)" "w_db w' = d"
    by (auto simp: CreateScheduledTask_def split: sum.splits prod.splits dest!: exec_pool_ok)
  from create_task_ok [OF st(1)] show ?thesis
    by (auto simp: tasks_view_def st(2) task_row_view_def image_iff)
qed

lemma create_task_error:
  assumes "run_state (CreateScheduledTask task) w = (Inl e, w')"
  shows "tasks_view w' = tasks_view w"
proof (cases "run_state (exec_pool (create_task_stmt task)) w")
  case (Pair r w1)
  show ?thesis
  proof (cases r)
    case (Inl e')
    then show ?thesis using assms Pair by (auto simp: CreateScheduledTask_def tasks_view_def dest!: exec_pool_error)
  next
    case (Inr rc)
    obtain row c where rc: "rc = (row, c)" by (cases rc)
    with Inr Pair obtain d where "create_task_stmt task (w_uuid w (w_stmts w)) (w_db w) = Inr ((row, c), d)"
      by (auto dest!: exec_pool_ok)
    from create_task_ok(3) [OF this] obtain cl where "c = Some cl" ..
    then have False using assms Pair Inr rc by (simp add: CreateScheduledTask_def scanScheduledTask_def)
    then show ?thesis ..
  qed
qed

lemma cancel_task_stmt_ok:
  assumes "cancel_task_stmt i at u d = Inr ((row, c), d')"
  shows "task_row_view ` set (db_tasks d') = canceled i ` task_row_view ` set (db_tasks d)"
    "row \<in> set (db_tasks d')" "k_id row = i" "k_status row = TaskCanceled" "k_next_run_at row = None"
proof -
  let ?upd = "\<lambda>r. r\<lparr>k_status := TaskCanceled, k_next_run_at := None, k_updated_at := at\<rparr>"
  from assms obtain r where r: "r \<in> set (db_tasks d)" "k_id r = i" "row = ?upd r"
    and d': "db_tasks d' = update_rows (\<lambda>r. k_id r = i) ?upd (db_tasks d)"
    by (auto simp: cancel_task_stmt_def Let_def dest!: find_row_ok split: sum.splits)
  show "task_row_view ` set (db_tasks d') = canceled i ` task_row_view ` set (db_tasks d)"
    unfolding d' update_rows_def set_map image_image
    by (rule image_cong) (auto simp: task_row_view_def canceled_def)
  show "row \<in> set (db_tasks d')" unfolding d' update_rows_def set_map using r by auto
  show "k_id row = i" "k_status row = TaskCanceled" "k_next_run_at row = None" using r by simp_all
qed

lemma cancel_task_law:
  assumes "run_state (CancelScheduledTask i at) w = (Inr t, w')"
  shows "tasks_view w' = canceled i ` tasks_view w \<and> task_ID t = i \<and> task_Status t = TaskCanceled \<and> task_NextRunAt t = None
    \<and> view_of_task t \<in> tasks_view w'"
proof -
  from assms obtain row c d where st: "cancel_task_stmt i at (w_uuid w (w_stmts w)) (w_db w) = Inr ((row, c), d)" "w_db w' = d"
    and scan: "scanScheduledTask (row, c) = Inr t"
    by (auto simp: CancelScheduledTask_def split: sum.splits prod.splits dest!: exec_pool_ok)
  have "task_row_view row \<in> tasks_view w'"
    unfolding tasks_view_def st(2) by (rule imageI) (rule cancel_task_stmt_ok(2) [OF st(1)])
  then show ?thesis
    using cancel_task_stmt_ok(1,3-5) [OF st(1)] scanScheduledTask_ok [OF scan] by (simp add: tasks_view_def st(2))
qed

lemma cancel_task_error:
  assumes "run_state (CancelScheduledTask i at) w = (Inl e, w')"
  shows "tasks_view w' = tasks_view w \<or> tasks_view w' = canceled i ` tasks_view w"
proof (cases "run_state (exec_pool (cancel_task_stmt i at)) w")
  case (Pair r w1)
  show ?thesis
  proof (cases r)
    case (Inl e')
    then show ?thesis using assms Pair by (auto simp: CancelScheduledTask_def tasks_view_def dest!: exec_pool_error)
  next
    case (Inr rc)
    obtain row c where rc: "rc = (row, c)" by (cases rc)
    have w': "w' = w1" using assms Pair Inr by (simp add: CancelScheduledTask_def)
    from Inr Pair rc obtain d where "cancel_task_stmt i at (w_uuid w (w_stmts w)) (w_db w) = Inr ((row, c), d)" "w_db w1 = d"
      by (auto dest!: exec_pool_ok)
    then show ?thesis using cancel_task_stmt_ok(1) w' by (auto simp: tasks_view_def)
  qed
qed

lemma scan_all_ok: "scan_all scan rs = Inr ts \<Longrightarrow> length ts = length rs \<and> (\<forall>t \<in> set ts. \<exists>r \<in> set rs. scan r = Inr t)"
  by (induction rs arbitrary: ts) (auto split: sum.splits)

lemma due_tasks_stmt_ok:
  assumes "due_tasks_stmt now limit u d = Inr (rows, d')"
  shows "d' = d" "int (length rows) \<le> max 0 limit" "\<forall>(r, c) \<in> set rows. r \<in> set (db_tasks d) \<and> is_due now r"
  using assms by (auto simp: due_tasks_stmt_def split: if_splits dest!: in_set_takeD)

lemma due_tasks_law:
  assumes "run_state (ListDueScheduledTasks now limit) w = (Inr ts, w')"
  shows "tasks_view w' = tasks_view w \<and> int (length ts) \<le> max 0 limit
    \<and> (\<forall>t \<in> set ts. view_of_task t \<in> tasks_view w \<and> task_Status t = TaskActive \<and> (\<exists>n \<le> now. task_NextRunAt t = Some n))"
proof -
  from assms obtain rows d where st: "due_tasks_stmt now limit (w_uuid w (w_stmts w)) (w_db w) = Inr (rows, d)" "w_db w' = d"
    and scan: "scan_all scanScheduledTask rows = Inr ts"
    by (auto simp: ListDueScheduledTasks_def split: sum.splits prod.splits dest!: exec_pool_ok)
  note rows = due_tasks_stmt_ok [OF st(1)] and ts = scan_all_ok [OF scan]
  have "view_of_task t \<in> tasks_view w \<and> task_Status t = TaskActive \<and> (\<exists>n \<le> now. task_NextRunAt t = Some n)"
    if t: "t \<in> set ts" for t
  proof -
    from ts t obtain r c where "(r, c) \<in> set rows" "scanScheduledTask (r, c) = Inr t" by auto
    then show ?thesis using rows(3) scanScheduledTask_ok [of r c t]
      by (auto simp: tasks_view_def is_due_def split: option.splits)
  qed
  then show ?thesis using rows ts st(2) by (simp add: tasks_view_def)
qed

lemma read_only_pool:
  assumes "read_only f"
  shows "leaves w_db (exec_pool f)"
  unfolding state_io_rel_def
  using assms by (auto simp: read_only_def exec_pool_def Let_def split: option.split sum.split)

lemma due_tasks_reads: "leaves w_db (ListDueScheduledTasks now limit)"
  unfolding ListDueScheduledTasks_def
  by (intro rel_ebind rel_check preorder_frame read_only_pool read_only_due)

lemma due_tasks_error:
  "run_state (ListDueScheduledTasks now limit) w = (Inl e, w') \<Longrightarrow> tasks_view w' = tasks_view w"
  by (rule tasks_view_eq) (rule leavesD [OF due_tasks_reads])

lemma finish_statements:
  assumes "insert_run_stmt r u d = Inr (x, d1)" "finish_task_stmt r u' d1 = Inr (y, d')"
  shows "task_row_view ` set (db_tasks d') = finished r ` task_row_view ` set (db_tasks d)"
proof -
  let ?hit = "\<lambda>k. k_id k = fin_TaskID r \<and> k_status k = TaskActive"
  let ?upd = "\<lambda>k. k\<lparr>k_status := fin_TaskStatus r, k_next_run_at := fin_NextRunAt r,
               k_last_run_at := Some (fin_FinishedAt r), k_last_error := fin_Error r,
               k_run_count := k_run_count k + 1, k_updated_at := fin_FinishedAt r\<rparr>"
  have d1: "db_tasks d1 = db_tasks d" using assms(1) by (auto simp: insert_run_stmt_def put_new_ok)
  have d': "db_tasks d' = update_rows ?hit ?upd (db_tasks d)"
    using assms(2) by (auto simp: finish_task_stmt_def Let_def d1 split: if_splits)
  show ?thesis
    unfolding d' update_rows_def set_map image_image
    by (rule image_cong) (simp_all add: task_row_view_def finished_def)
qed

lemma finish_run_law:
  assumes "run_state (FinishScheduledRun r) w = (Inr u, w')"
  shows "tasks_view w' = finished r ` tasks_view w"
proof -
  from assms obtain w1 w2 where w1: "w_tx w1 = Some (w_db w)" "w' = w2\<lparr>w_tx := None\<rparr>"
    and run: "run_state (ebind (exec_tx (insert_run_stmt r)) (\<lambda>_. ebind (exec_tx (finish_task_stmt r)) (\<lambda>_. tx_commit))) w1 = (Inr u, w2)"
    unfolding FinishScheduledRun_def by (rule in_tx_ok)
  from run w1(1) obtain x d1 y d' u1 u2 where "insert_run_stmt r u1 (w_db w) = Inr (x, d1)"
    "finish_task_stmt r u2 d1 = Inr (y, d')" "w_db w2 = d'"
    by (auto split: sum.splits prod.splits dest!: exec_tx_ok tx_commit_ok)
  then show ?thesis using finish_statements w1(2) by (simp add: tasks_view_def)
qed

lemma finish_run_error: "run_state (FinishScheduledRun r) w = (Inl e, w') \<Longrightarrow> w_db w' = w_db w"
  unfolding FinishScheduledRun_def
  by (erule in_tx_error [rotated]) (rule hoare_ebind [OF exec_tx_no_effect], rule hoare_ebind [OF exec_tx_no_effect], rule commit_effect)

interpretation tasks: task_queue store_tasks tasks_view
  by unfold_locales
    (simp_all only: store_tasks_def scheduled_publish_repository.simps,
     (erule create_task_law create_task_error cancel_task_law cancel_task_error due_tasks_law due_tasks_error
        finish_run_law tasks_view_eq [OF finish_run_error])+)

section \<open>Sessions\<close>

definition session_of_row :: "session_row \<Rightarrow> admin_session" where
  "session_of_row r = \<lparr>ses_Token = s_token r, ses_UserID = s_user_id r, ses_ExpiresAt = s_expires_at r\<rparr>"

definition user_of_row :: "user_row \<Rightarrow> admin_user" where
  "user_of_row r = \<lparr>adm_ID = u_id r, adm_Username = u_username r, adm_PasswordHash = u_password_hash r,
     adm_Role = u_role r, adm_Disabled = u_disabled r\<rparr>"

definition sessions_view :: "world \<Rightarrow> admin_session set" where
  "sessions_view w = session_of_row ` set (db_sessions (w_db w))"

definition users_view :: "world \<Rightarrow> admin_user set" where
  "users_view w = user_of_row ` set (db_users (w_db w))"

lemma auth_reads:
  "leaves w_db (FindAdminByUsername name)" "leaves w_db (GetAdminByID i)" "leaves w_db (FindSession token now)"
  unfolding FindAdminByUsername_def GetAdminByID_def FindSession_def
  by (rule read_only_pool, rule read_only_case)+

lemma leaves_view: "leaves w_db m \<Longrightarrow> leaves (\<lambda>w. v (w_db w)) m"
  by (auto simp: state_io_rel_def)

lemma sessions_leaves: "leaves w_db m \<Longrightarrow> leaves sessions_view m" "leaves w_db m \<Longrightarrow> leaves users_view m"
  unfolding sessions_view_def users_view_def by (rule leaves_view, assumption)+

lemma users_stmt:
  assumes "\<And>u d x d'. f u d = Inr (x, d') \<Longrightarrow> db_users d' = db_users d"
  shows "leaves users_view (exec_pool f)"
  unfolding state_io_rel_def users_view_def
  using assms by (auto simp: exec_pool_def Let_def split: option.split sum.split)

lemma find_user_law:
  "run_state (FindAdminByUsername name) w = (Inr a, w') \<Longrightarrow> a \<in> users_view w \<and> adm_Username a = name"
  by (auto simp: FindAdminByUsername_def users_view_def user_of_row_def image_iff
      dest!: exec_pool_ok find_row_ok split: sum.splits)

lemma get_admin_law:
  "run_state (GetAdminByID i) w = (Inr u, w') \<Longrightarrow>
    \<exists>a \<in> users_view w. adm_ID a = i \<and> \<not> adm_Disabled a \<and> u = \<lparr>au_ID = i, au_Username = adm_Username a, au_Role = adm_Role a\<rparr>"
  by (fastforce simp: GetAdminByID_def users_view_def user_of_row_def
      dest!: exec_pool_ok find_row_ok split: sum.splits)

lemma create_session_law:
  assumes "run_state (CreateSession s) w = (Inr x, w')"
  shows "(\<forall>r \<in> sessions_view w. ses_Token r \<noteq> ses_Token s) \<and> sessions_view w' = insert s (sessions_view w)"
proof -
  let ?row = "\<lparr>s_token = ses_Token s, s_user_id = ses_UserID s, s_expires_at = ses_ExpiresAt s\<rparr>"
  have row: "session_of_row ?row = s" by (cases s) (simp add: session_of_row_def)
  from assms have "ses_Token s \<notin> s_token ` set (db_sessions (w_db w))"
    and w': "db_sessions (w_db w') = db_sessions (w_db w) @ [?row]"
    by (auto simp: CreateSession_def create_session_stmt_def put_new_ok dest!: exec_pool_ok insert_row_ok)
  then have "\<forall>r \<in> sessions_view w. ses_Token r \<noteq> ses_Token s"
    by (force simp: sessions_view_def session_of_row_def)
  then show ?thesis using row by (simp add: sessions_view_def w')
qed

lemma session_errors:
  "run_state (CreateSession s) w = (Inl e, w') \<Longrightarrow> sessions_view w' = sessions_view w"
  "run_state (DeleteSession token) w = (Inl e, w') \<Longrightarrow> sessions_view w' = sessions_view w"
  by (auto simp: CreateSession_def DeleteSession_def sessions_view_def dest!: exec_pool_error)

lemma delete_session_law:
  "run_state (DeleteSession token) w = (Inr x, w') \<Longrightarrow>
    sessions_view w' = {r \<in> sessions_view w. ses_Token r \<noteq> token}"
  by (auto simp: DeleteSession_def delete_session_stmt_def sessions_view_def session_of_row_def
      dest!: exec_pool_ok)

lemma find_session_law:
  "run_state (FindSession token now) w = (Inr s, w') \<Longrightarrow>
    s \<in> sessions_view w \<and> ses_Token s = token \<and> now < ses_ExpiresAt s"
  by (auto simp: FindSession_def sessions_view_def session_of_row_def image_iff
      dest!: exec_pool_ok find_row_ok split: sum.splits)

lemma session_writes_users: "leaves users_view (CreateSession s)" "leaves users_view (DeleteSession token)"
  unfolding CreateSession_def DeleteSession_def
  by (rule users_stmt, auto simp: create_session_stmt_def delete_session_stmt_def put_new_ok)+

interpretation auth: session_table store_auth sessions_view users_view
  by unfold_locales
    (simp_all only: store_auth_def auth_repository.simps,
     (erule find_user_law get_admin_law create_session_law delete_session_law find_session_law
        session_errors
      | rule session_writes_users | rule sessions_leaves, rule auth_reads)+)

section \<open>Alerts\<close>

definition alerts_view :: "world \<Rightarrow> string \<Rightarrow> system_alert option" where
  "alerts_view w code = find (\<lambda>a. al_Code a = code) (db_alerts (w_db w))"

lemma upsert_alert_law:
  assumes "run_state (UpsertAlert a) w = (Inr saved, w')"
  shows "saved = raised a (alerts_view w (al_Code a)) \<and> alerts_view w' = (alerts_view w)(al_Code a \<mapsto> saved)"
proof -
  let ?merge = "\<lambda>old. old\<lparr>al_Level := al_Level a, al_Message := al_Message a, al_Status := AlertStatusOpen,
                     al_LastSeenAt := al_LastSeenAt a\<rparr>"
  from assms obtain t where up: "upsert_row al_Code al_ID (\<lambda>_. True) ?merge a (db_alerts (w_db w)) = Inr (saved, t)"
    and w': "db_alerts (w_db w') = t"
    by (auto simp: UpsertAlert_def upsert_alert_stmt_def put_table_ok dest!: exec_pool_ok)
  have "saved = raised a (alerts_view w (al_Code a))"
    using up by (auto simp: upsert_row_def alerts_view_def raised_def split: option.splits if_splits)
  moreover have "alerts_view w' c = (if c = al_Code a then Some saved else alerts_view w c)" for c
    unfolding alerts_view_def w' by (rule find_upsert_row [OF up]) simp
  ultimately show ?thesis by (simp add: fun_eq_iff)
qed

lemma upsert_alert_error: "run_state (UpsertAlert a) w = (Inl e, w') \<Longrightarrow> alerts_view w' = alerts_view w"
  by (auto simp: UpsertAlert_def alerts_view_def fun_eq_iff dest!: exec_pool_error)

interpretation alerts: alert_board store_alerts alerts_view
  by unfold_locales
    (simp_all only: store_alerts_def alert_repository.simps, (erule upsert_alert_law upsert_alert_error)+)

section \<open>Ingestion\<close>

definition messages_view :: "world \<Rightarrow> message_dto list" where
  "messages_view w = map scanMessage (db_messages (w_db w))"

definition presence_of :: "db \<Rightarrow> string \<Rightarrow> (device_status \<times> string) option" where
  "presence_of d c = map_option (\<lambda>r. (d_status r, d_session_id r)) (find (\<lambda>r. d_client_id r = c) (db_devices d))"

definition presence_view :: "world \<Rightarrow> string \<Rightarrow> (device_status \<times> string) option" where
  "presence_view w = presence_of (w_db w)"

lemma ingestion_frame:
  "w_db w' = w_db w \<Longrightarrow> messages_view w' = messages_view w \<and> presence_view w' = presence_view w"
  by (simp add: messages_view_def presence_view_def)

text \<open>An upsert of a device row: presence changes for its client only.\<close>

lemma presence_upsert:
  assumes "upsert_row d_client_id d_id ref merge new (db_devices d) = Inr (r, t)" "\<And>x. d_client_id (merge x) = d_client_id x"
    and "db_devices d' = t"
  shows "presence_of d' = (presence_of d)(d_client_id new \<mapsto> (d_status r, d_session_id r))"
  using find_upsert_row [OF assms(1,2)] by (simp add: presence_of_def assms(3) fun_eq_iff)

lemma upsert_connected_law:
  assumes "run_state (UpsertConnected ev) w = (Inr x, w')"
  shows "messages_view w' = messages_view w
    \<and> presence_view w' = (presence_view w)(ce_ClientID ev \<mapsto> (DeviceStatusOnline, ce_SessionID ev))"
proof -
  from assms obtain row d where st: "upsert_connected_stmt ev (w_uuid w (w_stmts w)) (w_db w) = Inr (row, d)" "w_db w' = d"
    by (auto simp: UpsertConnected_def split: sum.splits prod.splits dest!: exec_pool_ok)
  then obtain t where up: "upsert_row d_client_id d_id (\<lambda>r. type_exists (w_db w) (d_type r))
          (\<lambda>old. old\<lparr>d_status := DeviceStatusOnline, d_session_id := ce_SessionID ev,
                     d_last_seen_at := ce_ConnectedAt ev, d_metadata := d_metadata old ++ connect_metadata ev\<rparr>)
          \<lparr>d_id = w_uuid w (w_stmts w), d_client_id = ce_ClientID ev, d_type = ''unknown'', d_status = DeviceStatusOnline,
           d_session_id = ce_SessionID ev, d_first_seen_at = ce_ConnectedAt ev, d_last_seen_at = ce_ConnectedAt ev,
           d_last_disconnected_at = None, d_metadata = connect_metadata ev\<rparr> (db_devices (w_db w)) = Inr (row, t)"
    and d: "d = (w_db w)\<lparr>db_devices := t\<rparr>"
    by (auto simp: upsert_connected_stmt_def put_table_ok)
  have "d_status row = DeviceStatusOnline \<and> d_session_id row = ce_SessionID ev"
    using up by (cases rule: upsert_row_cases) simp_all
  moreover have "presence_of d = (presence_of (w_db w))(ce_ClientID ev \<mapsto> (d_status row, d_session_id row))"
    using presence_upsert [OF up, of d] d by simp
  ultimately show ?thesis by (simp add: messages_view_def presence_view_def st(2)) (simp add: d)
qed

lemma ensure_device_presence:
  assumes "ensure_device_stmt c s at u d = Inr (i, d')"
  shows "presence_of d' = (presence_of d)(c := seen s (presence_of d c)) \<and> db_messages d' = db_messages d"
proof -
  from assms obtain r t where up: "upsert_row d_client_id d_id (\<lambda>r. type_exists d (d_type r))
          (\<lambda>old. old\<lparr>d_session_id := s, d_last_seen_at := at\<rparr>)
          \<lparr>d_id = u, d_client_id = c, d_type = ''unknown'', d_status = DeviceStatusOnline,
           d_session_id = s, d_first_seen_at = at, d_last_seen_at = at,
           d_last_disconnected_at = None, d_metadata = Map.empty\<rparr> (db_devices d) = Inr (r, t)"
    and d': "d' = d\<lparr>db_devices := t\<rparr>"
    by (auto simp: ensure_device_stmt_def put_table_ok split: sum.splits)
  have "Some (d_status r, d_session_id r) = seen s (presence_of d c)"
    using up by (auto simp: upsert_row_def presence_of_def seen_def split: option.splits if_splits)
  moreover have "presence_of d' = (presence_of d)(c \<mapsto> (d_status r, d_session_id r))"
    using presence_upsert [OF up, of d'] d' by simp
  ultimately show ?thesis using d' by simp
qed

lemma observe_topic_frame:
  "observe_topic_stmt dev c topic kind qos at u d = Inr (x, d') \<Longrightarrow>
    presence_of d' = presence_of d \<and> db_messages d' = db_messages d"
  by (auto simp: observe_topic_stmt_def put_table_ok presence_of_def)

lemma record_filters_run:
  assumes "run_state (record_filters dev ev subs) w = (Inr u, w')" "w_tx w = Some t"
  shows "\<exists>t'. w_tx w' = Some t' \<and> presence_of t' = presence_of t \<and> db_messages t' = db_messages t"
  using assms
proof (induction subs arbitrary: w t)
  case (Cons s subs)
  from Cons.prems(1) obtain x w1 where step: "run_state (exec_tx (observe_topic_stmt (Some dev) (se_ClientID ev) (sub_Filter s)
      TopicKindSubscribeFilter (sub_QoS s) (se_ObservedAt ev))) w = (Inr x, w1)"
    and rest: "run_state (record_filters dev ev subs) w1 = (Inr u, w')"
    by (auto split: sum.splits prod.splits)
  from exec_tx_ok [OF step] Cons.prems(2) obtain d where
    d: "observe_topic_stmt (Some dev) (se_ClientID ev) (sub_Filter s) TopicKindSubscribeFilter (sub_QoS s)
      (se_ObservedAt ev) (w_uuid w (w_stmts w)) t = Inr (x, d)" "w_tx w1 = Some d"
    by auto
  show ?case using Cons.IH [OF rest d(2)] observe_topic_frame [OF d(1)] by simp
qed simp

lemma commit_view:
  "run_state tx_commit w = (Inr u, w') \<Longrightarrow> w_tx w = Some t \<Longrightarrow> w_db w' = t"
  by (auto dest!: tx_commit_ok)

lemma record_subscription_law:
  assumes "run_state (RecordSubscription ev) w = (Inr u, w')"
  shows "messages_view w' = messages_view w
    \<and> presence_view w' = (presence_view w)(se_ClientID ev := seen (se_SessionID ev) (presence_view w (se_ClientID ev)))"
proof -
  from assms obtain w1 w2 where w1: "w_tx w1 = Some (w_db w)" "w' = w2\<lparr>w_tx := None\<rparr>"
    and run: "run_state (ebind (ensureDevice (se_ClientID ev) (se_SessionID ev) (se_ObservedAt ev)) (\<lambda>dev.
        ebind (record_filters dev ev (se_Subscriptions ev)) (\<lambda>_. tx_commit))) w1 = (Inr u, w2)"
    unfolding RecordSubscription_def by (rule in_tx_ok)
  from run obtain dev wa wb v where dev: "run_state (ensureDevice (se_ClientID ev) (se_SessionID ev) (se_ObservedAt ev)) w1 = (Inr dev, wa)"
    and filters: "run_state (record_filters dev ev (se_Subscriptions ev)) wa = (Inr v, wb)"
    and commit: "run_state tx_commit wb = (Inr u, w2)"
    by (auto split: sum.splits prod.splits)
  from exec_tx_ok [OF dev [unfolded ensureDevice_def]] w1(1) obtain d x where
    d: "ensure_device_stmt (se_ClientID ev) (se_SessionID ev) (se_ObservedAt ev) x (w_db w) = Inr (dev, d)" "w_tx wa = Some d"
    by auto
  from record_filters_run [OF filters d(2)] obtain t where
    t: "w_tx wb = Some t" "presence_of t = presence_of d" "db_messages t = db_messages d" by auto
  have "w_db w' = t" using commit_view [OF commit t(1)] w1(2) by simp
  then show ?thesis
    using ensure_device_presence [OF d(1)] t(2,3) by (simp add: messages_view_def presence_view_def)
qed

lemma record_filters_no_effect:
  "hoare (\<lambda>w. w_db w = d) (record_filters dev ev subs) (\<lambda>_ w. w_db w = d) (\<lambda>w. w_db w = d)"
proof (induction subs)
  case (Cons s subs)
  then show ?case unfolding record_filters.simps by (intro hoare_ebind [OF exec_tx_no_effect])
qed (simp add: hoare_def)

lemma record_subscription_error: "run_state (RecordSubscription ev) w = (Inl e, w') \<Longrightarrow> w_db w' = w_db w"
  unfolding RecordSubscription_def ensureDevice_def
  by (erule in_tx_error [rotated])
    (rule hoare_ebind [OF exec_tx_no_effect], rule hoare_ebind [OF record_filters_no_effect], rule commit_effect)

lemma create_partition_frame:
  "create_partition_stmt name lo hi u d = Inr (x, d') \<Longrightarrow> db_devices d' = db_devices d \<and> db_messages d' = db_messages d"
  by (auto simp: create_partition_stmt_def split: if_splits)

lemma insert_message_ok:
  assumes "insert_message_stmt dev ev u d = Inr (row, d')"
  shows "db_messages d' = db_messages d @ [row] \<and> presence_of d' = presence_of d \<and> stored_as ev (scanMessage row)"
  using assms
  by (auto simp: insert_message_stmt_def Let_def put_table_ok presence_of_def stored_as_def scanMessage_def
      dest!: insert_row_ok split: sum.splits)

text \<open>The device part of \<open>PersistPublish\<close>.\<close>

definition publish_device :: "publish_event \<Rightarrow> (world, string option) eio" where
  "publish_device ev =
     (if pe_ClientID ev = ''inline'' then ok None
      else ebind (ensureDevice (pe_ClientID ev) (pe_SessionID ev) (pe_ReceivedAt ev)) (\<lambda>i. ok (Some i)))"

definition seen_by_publish :: "publish_event \<Rightarrow> (string \<Rightarrow> (device_status \<times> string) option) \<Rightarrow>
    (string \<Rightarrow> (device_status \<times> string) option)" where
  "seen_by_publish ev p =
     (if pe_ClientID ev = ''inline'' then p else p(pe_ClientID ev := seen (pe_SessionID ev) (p (pe_ClientID ev))))"

definition persist_body :: "publish_event \<Rightarrow> (world, message_dto) eio" where
  "persist_body ev = ebind (publish_device ev) (\<lambda>dev.
      ebind (exec_tx (observe_topic_stmt dev (pe_ClientID ev) (pe_Topic ev)
         (if pe_ClientID ev = ''inline'' then TopicKindAdminPublishTopic else TopicKindPublishTopic)
         (pe_QoS ev) (pe_ReceivedAt ev))) (\<lambda>_.
      ebind (exec_tx (insert_message_stmt dev ev)) (\<lambda>row. ebind tx_commit (\<lambda>_. ok (scanMessage row)))))"

lemma PersistPublish_body:
  "PersistPublish ev = ebind (EnsureMessagePartition (pe_ReceivedAt ev)) (\<lambda>_. in_tx (persist_body ev))"
  unfolding PersistPublish_def persist_body_def publish_device_def ..

lemma partition_frame:
  assumes "run_state (EnsureMessagePartition at) w = (Inr x, w')"
  shows "presence_of (w_db w') = presence_of (w_db w)" "db_messages (w_db w') = db_messages (w_db w)"
  using assms
  by (auto simp: EnsureMessagePartition_def presence_of_def fun_eq_iff dest!: exec_pool_ok create_partition_frame)

lemma publish_device_run:
  assumes "run_state (publish_device ev) w = (Inr dev, w')" "w_tx w = Some t"
  shows "\<exists>t'. w_tx w' = Some t' \<and> presence_of t' = seen_by_publish ev (presence_of t) \<and> db_messages t' = db_messages t"
proof (cases "pe_ClientID ev = ''inline''")
  case True
  then show ?thesis using assms by (simp add: publish_device_def seen_by_publish_def)
next
  case False
  with assms(1) obtain i w1 where "run_state (ensureDevice (pe_ClientID ev) (pe_SessionID ev) (pe_ReceivedAt ev)) w = (Inr i, w1)" "w' = w1"
    by (auto simp: publish_device_def split: sum.splits prod.splits)
  with assms(2) obtain x d where "ensure_device_stmt (pe_ClientID ev) (pe_SessionID ev) (pe_ReceivedAt ev) x t = Inr (i, d)" "w_tx w' = Some d"
    by (auto simp: ensureDevice_def dest!: exec_tx_ok)
  with False show ?thesis using ensure_device_presence by (auto simp: seen_by_publish_def)
qed

lemma publish_device_no_effect:
  "hoare (\<lambda>w. w_db w = d) (publish_device ev) (\<lambda>_ w. w_db w = d) (\<lambda>w. w_db w = d)"
  unfolding publish_device_def ensureDevice_def
  by (cases "pe_ClientID ev = ''inline''")
    (simp add: hoare_def, simp del: run_ebind, rule hoare_ebind [OF exec_tx_no_effect], rule hoare_ok)

lemma persist_publish_law:
  assumes "run_state (PersistPublish ev) w = (Inr m, w')"
  shows "messages_view w' = messages_view w @ [m] \<and> stored_as ev m
    \<and> presence_view w' = (if pe_ClientID ev = ''inline'' then presence_view w
        else (presence_view w)(pe_ClientID ev := seen (pe_SessionID ev) (presence_view w (pe_ClientID ev))))"
proof -
  let ?kind = "if pe_ClientID ev = ''inline'' then TopicKindAdminPublishTopic else TopicKindPublishTopic"
  from assms obtain x wp where part: "run_state (EnsureMessagePartition (pe_ReceivedAt ev)) w = (Inr x, wp)"
    and tx: "run_state (in_tx (persist_body ev)) wp = (Inr m, w')"
    by (auto simp: PersistPublish_body split: sum.splits prod.splits)
  note wp = partition_frame [OF part]
  from tx obtain w1 w2 where w1: "w_tx w1 = Some (w_db wp)" "run_state (persist_body ev) w1 = (Inr m, w2)" "w' = w2\<lparr>w_tx := None\<rparr>"
    by (rule in_tx_ok)
  then obtain dev wa y wb row wc z where dev: "run_state (publish_device ev) w1 = (Inr dev, wa)"
    and topic: "run_state (exec_tx (observe_topic_stmt dev (pe_ClientID ev) (pe_Topic ev) ?kind (pe_QoS ev) (pe_ReceivedAt ev))) wa = (Inr y, wb)"
    and msg: "run_state (exec_tx (insert_message_stmt dev ev)) wb = (Inr row, wc)"
    and commit: "run_state tx_commit wc = (Inr z, w2)" and m: "m = scanMessage row"
    by (auto simp: persist_body_def split: sum.splits prod.splits)
  from publish_device_run [OF dev w1(1)] obtain ta where ta: "w_tx wa = Some ta"
    "presence_of ta = seen_by_publish ev (presence_of (w_db wp))" "db_messages ta = db_messages (w_db wp)" by auto
  from exec_tx_ok [OF topic] ta(1) obtain tb u1 where
    "observe_topic_stmt dev (pe_ClientID ev) (pe_Topic ev) ?kind (pe_QoS ev) (pe_ReceivedAt ev) u1 ta = Inr (y, tb)" "w_tx wb = Some tb"
    by auto
  note tb = this(2) observe_topic_frame [OF this(1)]
  from exec_tx_ok [OF msg] tb(1) obtain tc u2 where
    "insert_message_stmt dev ev u2 tb = Inr (row, tc)" "w_tx wc = Some tc" by auto
  note tc = this(2) insert_message_ok [OF this(1)]
  have "w_db w' = tc" using commit_view [OF commit tc(1)] w1(3) by simp
  then show ?thesis
    using tc tb ta wp m by (simp add: messages_view_def presence_view_def seen_by_publish_def)
qed

lemma persist_publish_error:
  assumes "run_state (PersistPublish ev) w = (Inl e, w')"
  shows "messages_view w' = messages_view w \<and> presence_view w' = presence_view w"
proof (cases "run_state (EnsureMessagePartition (pe_ReceivedAt ev)) w")
  case (Pair r wp)
  show ?thesis
  proof (cases r)
    case (Inl e')
    then show ?thesis
      using assms Pair
      by (auto simp: PersistPublish_body EnsureMessagePartition_def messages_view_def presence_view_def dest!: exec_pool_error)
  next
    case (Inr x)
    note wp = partition_frame [OF Pair [unfolded Inr]]
    have tx: "run_state (in_tx (persist_body ev)) wp = (Inl e, w')"
      using assms Pair Inr by (simp add: PersistPublish_body)
    have "w_db w' = w_db wp"
      unfolding persist_body_def
      by (rule in_tx_error [OF _ tx [unfolded persist_body_def]])
        (rule hoare_ebind [OF publish_device_no_effect], rule hoare_ebind [OF exec_tx_no_effect],
         rule hoare_ebind [OF exec_tx_no_effect], rule hoare_ebind [OF commit_effect], rule hoare_ok, rule TrueI)
    then show ?thesis using wp by (simp add: messages_view_def presence_view_def)
  qed
qed

lemma mark_disconnected_law:
  assumes "run_state (MarkDisconnected ev) w = (Inr u, w')"
  shows "messages_view w' = messages_view w
    \<and> presence_view w' = (presence_view w)(de_ClientID ev := gone (de_SessionID ev) (presence_view w (de_ClientID ev)))"
proof -
  let ?P = "\<lambda>r. d_client_id r = de_ClientID ev \<and> (de_SessionID ev = [] \<or> d_session_id r = de_SessionID ev)"
  let ?f = "\<lambda>r. r\<lparr>d_status := DeviceStatusOffline, d_last_disconnected_at := Some (de_DisconnectedAt ev),
               d_last_seen_at := de_DisconnectedAt ev\<rparr>"
  have w': "db_devices (w_db w') = update_rows ?P ?f (db_devices (w_db w))" "db_messages (w_db w') = db_messages (w_db w)"
    using assms by (auto simp: MarkDisconnected_def mark_disconnected_stmt_def dest!: exec_pool_ok)
  have "presence_of (w_db w') c = (if c = de_ClientID ev then gone (de_SessionID ev) (presence_of (w_db w) c) else presence_of (w_db w) c)" for c
    unfolding presence_of_def w' by (subst find_update_rows, simp)
      (cases "find (\<lambda>r. d_client_id r = c) (db_devices (w_db w))"; auto simp: gone_def dest: find_SomeD)
  then show ?thesis using w'(2) by (simp add: messages_view_def presence_view_def fun_eq_iff)
qed

lemma mark_disconnected_error: "run_state (MarkDisconnected ev) w = (Inl e, w') \<Longrightarrow> w_db w' = w_db w"
  by (auto simp: MarkDisconnected_def dest!: exec_pool_error)

lemma mark_stale_law:
  assumes "run_state (MarkStaleOnline at) w = (Inr n, w')"
  shows "messages_view w' = messages_view w \<and> presence_view w' = stale \<circ> presence_view w"
proof -
  let ?f = "\<lambda>r. r\<lparr>d_status := DeviceStatusStaleOffline, d_last_disconnected_at := Some at\<rparr>"
  have w': "db_devices (w_db w') = update_rows (\<lambda>r. d_status r = DeviceStatusOnline) ?f (db_devices (w_db w))"
    "db_messages (w_db w') = db_messages (w_db w)"
    using assms by (auto simp: MarkStaleOnline_def mark_stale_stmt_def dest!: exec_pool_ok)
  have "presence_of (w_db w') c = stale (presence_of (w_db w) c)" for c
    unfolding presence_of_def w' by (subst find_update_rows, simp)
      (cases "find (\<lambda>r. d_client_id r = c) (db_devices (w_db w))"; simp add: stale_def)
  then show ?thesis using w'(2) by (simp add: messages_view_def presence_view_def fun_eq_iff)
qed

lemma mark_stale_error: "run_state (MarkStaleOnline at) w = (Inl e, w') \<Longrightarrow> w_db w' = w_db w"
  by (auto simp: MarkStaleOnline_def dest!: exec_pool_error)

lemma upsert_connected_error: "run_state (UpsertConnected ev) w = (Inl e, w') \<Longrightarrow> w_db w' = w_db w"
  by (auto simp: UpsertConnected_def split: sum.splits prod.splits dest!: exec_pool_error)

interpretation ingestion: ingestion_log store_ingestion messages_view presence_view
  by unfold_locales
    (simp_all only: store_ingestion_def ingestion_repository.simps,
     (erule upsert_connected_law record_subscription_law persist_publish_law persist_publish_error mark_disconnected_law
        mark_stale_law ingestion_frame [OF upsert_connected_error] ingestion_frame [OF record_subscription_error]
        ingestion_frame [OF mark_disconnected_error] ingestion_frame [OF mark_stale_error])+)

end
