(* ===== verification/StorePages.thy ===== *)
theory StorePages
  imports StoreLaws
begin

text \<open>
  The listings of the store as slices of one sorted table: each interprets \<open>paged_list\<close>, for every filter.
\<close>

lemma newest_first_sorted: "sorted_wrt (\<lambda>x y. ts y \<le> ts x) (newest_first ts rows)"
proof -
  have "sorted_wrt (\<le>) (map (\<lambda>r. - ts r) (sort_key (\<lambda>r. - ts r) rows))" by (rule sorted_sort_key)
  then show ?thesis by (simp add: newest_first_def sorted_wrt_map)
qed

text \<open>The rows a page query returns, and the total the scanning loop ends with.\<close>

lemma page_query_slice:
  assumes "page_query P ts ps (page_offset p ps) tbl = Inr rows" "1 \<le> p" "p \<le> 40000000000000000" "1 \<le> ps" "ps \<le> 200"
  shows "map fst rows = take (nat ps) (drop (nat ((p - 1) * ps)) (newest_first ts (filter P tbl)))"
    "rows \<noteq> [] \<Longrightarrow> snd (last rows) = int (length (newest_first ts (filter P tbl)))"
proof -
  have offset: "page_offset p ps = (p - 1) * ps" using assms by (intro page_offset_exact)
  have "0 \<le> (p - 1) * ps" using assms by simp
  with assms(1) have rows: "rows = map (\<lambda>r. (r, int (length (newest_first ts (filter P tbl)))))
      (take (nat ps) (drop (nat ((p - 1) * ps)) (newest_first ts (filter P tbl))))"
    unfolding offset by (simp add: page_query_def Let_def)
  show "map fst rows = take (nat ps) (drop (nat ((p - 1) * ps)) (newest_first ts (filter P tbl)))"
    unfolding rows by (simp add: comp_def)
  show "rows \<noteq> [] \<Longrightarrow> snd (last rows) = int (length (newest_first ts (filter P tbl)))"
    unfolding rows by (simp add: last_map)
qed

lemma read_page_slice:
  assumes run: "run_state (read_page p ps (\<lambda>d. page_query P ts ps (page_offset p ps) (tbl d)) scan) w = (Inr pg, w')"
    and "1 \<le> p" "p \<le> 40000000000000000" "1 \<le> ps" "ps \<le> 200"
  shows "page_items pg = take (nat ps) (drop (nat ((p - 1) * ps)) (map scan (newest_first ts (filter P (tbl (w_db w))))))
    \<and> page_no pg = p \<and> page_size pg = ps
    \<and> page_total pg = (if page_items pg = [] then 0
        else int (length (map scan (newest_first ts (filter P (tbl (w_db w)))))))
    \<and> w_db w' = w_db w"
proof -
  from run obtain rows where q: "page_query P ts ps (page_offset p ps) (tbl (w_db w)) = Inr rows" and w': "w_db w' = w_db w"
    and pg: "pg = \<lparr>page_items = map (scan \<circ> fst) rows, page_no = p, page_size = ps,
      page_total = (if rows = [] then 0 else snd (last rows))\<rparr>"
    by (auto simp: read_page_def scan_rows_eq Let_def split: sum.splits prod.splits dest!: exec_pool_ok)
  note slice = page_query_slice [OF q assms(2-5)]
  have items: "page_items pg = take (nat ps) (drop (nat ((p - 1) * ps)) (map scan (newest_first ts (filter P (tbl (w_db w))))))"
    unfolding pg take_map drop_map slice(1) [symmetric] by simp
  have "page_items pg = [] \<longleftrightarrow> rows = []" unfolding pg by simp
  then have "page_total pg = (if page_items pg = [] then 0 else int (length (map scan (newest_first ts (filter P (tbl (w_db w)))))))"
    using slice(2) by (simp add: pg)
  moreover have "page_no pg = p" "page_size pg = ps" by (simp_all add: pg)
  ultimately show ?thesis using items w' by blast
qed

lemma newest_map: "(\<And>r. at (scan r) = ts r) \<Longrightarrow> sorted_wrt (\<lambda>x y. at y \<le> at x) (map scan (newest_first ts rows))"
  using newest_first_sorted [of ts rows] by (simp add: sorted_wrt_map)

text \<open>A listing that is a \<open>read_page\<close> for every page within bounds obeys the contract.\<close>

lemma read_page_paged:
  assumes list: "\<And>p ps. 1 \<le> p \<Longrightarrow> 1 \<le> ps \<Longrightarrow> ps \<le> 200 \<Longrightarrow>
      L p ps = read_page p ps (\<lambda>d. page_query P ts ps (page_offset p ps) (tbl d)) scan"
    and at: "\<And>r. at (scan r) = ts r"
  shows "paged_list L (\<lambda>w. map scan (newest_first ts (filter P (tbl (w_db w))))) at"
proof
  show "sorted_wrt (\<lambda>x y. at y \<le> at x) (map scan (newest_first ts (filter P (tbl (w_db w)))))" for w
    by (rule newest_map) (rule at)
next
  fix p ps w pg w' assume run: "run_state (L p ps) w = (Inr pg, w')"
    and b: "1 \<le> p" "p \<le> 40000000000000000" "1 \<le> ps" "ps \<le> 200"
  from read_page_slice [OF run [unfolded list [OF b(1,3,4)]] b]
  show "page_items pg = take (nat ps) (drop (nat ((p - 1) * ps)) (map scan (newest_first ts (filter P (tbl (w_db w))))))
      \<and> page_no pg = p \<and> page_size pg = ps
      \<and> page_total pg = (if page_items pg = [] then 0
          else int (length (map scan (newest_first ts (filter P (tbl (w_db w)))))))
      \<and> map scan (newest_first ts (filter P (tbl (w_db w')))) = map scan (newest_first ts (filter P (tbl (w_db w))))"
    by simp
qed

text \<open>The filters ignore the page they are asked for.\<close>

definition device_rows :: "(string \<Rightarrow> string \<Rightarrow> bool) \<Rightarrow> device_filter \<Rightarrow> world \<Rightarrow> device_dto list" where
  "device_rows ilike f w = map scanDevice (newest_first d_last_seen_at (filter (device_matches ilike f) (db_devices (w_db w))))"

interpretation device_pages: paged_list
  "\<lambda>p ps. ListDevices ilike (f\<lparr>df_Page := p, df_PageSize := ps\<rparr>)" "device_rows ilike f" dev_LastSeenAt for ilike f
  unfolding device_rows_def [abs_def]
  by (rule read_page_paged [where tbl = db_devices and ts = d_last_seen_at and scan = "scanDevice"
      and P = "device_matches ilike f"])
    (simp_all add: ListDevices_def NormalizePage_id Let_def device_matches_def [abs_def] scanDevice_def)

definition topic_rows :: "(string \<Rightarrow> string \<Rightarrow> bool) \<Rightarrow> topic_filter \<Rightarrow> world \<Rightarrow> observed_topic_dto list" where
  "topic_rows ilike f w = map scanTopic (newest_first t_last_seen_at (filter (topic_matches ilike f) (db_topics (w_db w))))"

interpretation topic_pages: paged_list
  "\<lambda>p ps. ListTopics ilike (f\<lparr>tf_Page := p, tf_PageSize := ps\<rparr>)" "topic_rows ilike f" ot_LastSeenAt for ilike f
  unfolding topic_rows_def [abs_def]
  by (rule read_page_paged [where tbl = db_topics and ts = t_last_seen_at and scan = "scanTopic"
      and P = "topic_matches ilike f"])
    (simp_all add: ListTopics_def NormalizePage_id Let_def topic_matches_def [abs_def] scanTopic_def)

definition device_topic_rows ::
  "(string \<Rightarrow> string \<Rightarrow> bool) \<Rightarrow> string \<Rightarrow> topic_filter \<Rightarrow> world \<Rightarrow> observed_topic_dto list" where
  "device_topic_rows ilike i f w = map scanTopic (newest_first t_last_seen_at
     (filter (\<lambda>r. t_device_id r = Some i \<and> topic_matches ilike f r) (db_topics (w_db w))))"

interpretation device_topic_pages: paged_list
  "\<lambda>p ps. ListDeviceTopics ilike i (f\<lparr>tf_Page := p, tf_PageSize := ps\<rparr>)" "device_topic_rows ilike i f" ot_LastSeenAt for ilike i f
  unfolding device_topic_rows_def [abs_def]
  by (rule read_page_paged [where tbl = db_topics and ts = t_last_seen_at and scan = "scanTopic"
      and P = "\<lambda>r. t_device_id r = Some i \<and> topic_matches ilike f r"])
    (simp_all add: ListDeviceTopics_def NormalizePage_id Let_def topic_matches_def [abs_def] scanTopic_def)

definition message_rows :: "message_filter \<Rightarrow> world \<Rightarrow> message_dto list" where
  "message_rows f w = map scanMessage (newest_first m_received_at (filter (message_matches f) (db_messages (w_db w))))"

interpretation message_pages: paged_list
  "\<lambda>p ps. QueryMessages (f\<lparr>mf_Page := p, mf_PageSize := ps\<rparr>)" "message_rows f" msg_ReceivedAt for f
  unfolding message_rows_def [abs_def]
  by (rule read_page_paged [where tbl = db_messages and ts = m_received_at and scan = "scanMessage"
      and P = "message_matches f"])
    (simp_all add: QueryMessages_def NormalizePage_id Let_def message_matches_def [abs_def] scanMessage_def)

definition command_rows :: "command_filter \<Rightarrow> world \<Rightarrow> publish_command_dto list" where
  "command_rows f w = map scanCommand (newest_first c_created_at
     (filter (\<lambda>r. any_or (cf_Topic f) (c_topic r) \<and> any_or (cf_Status f) (publish_status_text (c_status r))) (db_commands (w_db w))))"

interpretation command_pages: paged_list
  "\<lambda>p ps. ListPublishCommands (f\<lparr>cf_Page := p, cf_PageSize := ps\<rparr>)" "command_rows f" pc_CreatedAt for f
  unfolding command_rows_def [abs_def]
  by (rule read_page_paged [where tbl = db_commands and ts = c_created_at and scan = "scanCommand"
      and P = "\<lambda>r. any_or (cf_Topic f) (c_topic r) \<and> any_or (cf_Status f) (publish_status_text (c_status r))"]) (simp_all add: ListPublishCommands_def NormalizePage_id Let_def scanCommand_def)

definition alert_rows :: "alert_filter \<Rightarrow> world \<Rightarrow> system_alert list" where
  "alert_rows f w = map (\<lambda>r. r) (newest_first al_LastSeenAt
     (filter (\<lambda>r. any_or (af_Level f) (alert_level_text (al_Level r)) \<and> any_or (af_Status f) (alert_status_text (al_Status r)))
       (db_alerts (w_db w))))"

interpretation alert_pages: paged_list
  "\<lambda>p ps. ListAlerts (f\<lparr>af_Page := p, af_PageSize := ps\<rparr>)" "alert_rows f" al_LastSeenAt for f
  unfolding alert_rows_def [abs_def]
  by (rule read_page_paged [where tbl = db_alerts and ts = al_LastSeenAt and scan = "\<lambda>r. r"
      and P = "\<lambda>r. any_or (af_Level f) (alert_level_text (al_Level r)) \<and> any_or (af_Status f) (alert_status_text (al_Status r))"]) (simp_all add: ListAlerts_def NormalizePage_id Let_def)

end
