(* ===== verification/Runtime.thy ===== *)
theory Runtime
  imports StorePages
begin

text \<open>
  The in-process collaborators of the services over the world: the hub as the realtime publisher, with the panic of a send
  on a closed channel as an error result (\<open>Hub\<close> shows that it does not happen).
\<close>

definition hub_Publish :: "world realtime_publisher" where
  "hub_Publish ev =
     State_Monad.bind (if rt_At ev = [] then clock_now else ret 0) (\<lambda>now.
       State (\<lambda>w. case hub_publish now ev (w_hub w) of
          None \<Rightarrow> (Inl (ForeignError ''send on closed channel''), w)
        | Some h \<Rightarrow> (Inr (), w\<lparr>w_hub := h\<rparr>)))"

lemma clock_leaves: "(\<And>w n. v (w\<lparr>w_ticks := n\<rparr>) = v w) \<Longrightarrow> leaves v clock_now"
  by (simp add: state_io_rel_def)

lemma id_leaves: "(\<And>w n. v (w\<lparr>w_idn := n\<rparr>) = v w) \<Longrightarrow> leaves v new_id"
  by (simp add: state_io_rel_def)

lemma ctx_leaves: "(\<And>w n. v (w\<lparr>w_asked := n\<rparr>) = v w) \<Longrightarrow> leaves v ctx_Err"
  by (simp add: state_io_rel_def)

lemma hub_leaves:
  assumes "\<And>w n. v (w\<lparr>w_ticks := n\<rparr>) = v w" "\<And>w h. v (w\<lparr>w_hub := h\<rparr>) = v w"
  shows "leaves v (hub_Publish ev)"
proof -
  have "leaves v (State (\<lambda>w. case hub_publish now ev (w_hub w) of
          None \<Rightarrow> (Inl (ForeignError ''send on closed channel''), w)
        | Some h \<Rightarrow> (Inr (), w\<lparr>w_hub := h\<rparr>)))" for now
    using assms(2) by (auto simp: state_io_rel_def split: option.split)
  then show ?thesis
    unfolding hub_Publish_def using assms(1) by (intro io_rules preorder_frame clock_leaves)
qed

end
