(* ===== verification/Ingestor.thy ===== *)
theory Ingestor
  imports Runtime Validation
begin

text \<open>
  The ingestion service (\<open>internal/service/ingestor.go\<close>): every event of the broker is validated, recorded through the
  repository under a deadline, announced on the realtime channel, and turned into an alert when recording fails.
\<close>

section \<open>State and operations\<close>

record 'w ingestor =
  ing_repo :: "'w ingestion_repository"
  ing_alerts :: "'w alert_repository option"
  ing_realtime :: "'w realtime_publisher option"
  ing_clock :: "'w clock"
  ing_ctx_Err :: "'w context_err"
  ing_Timeout :: int
  ing_MaxPayloadBytes :: int

text \<open>\<open>SystemClock\<close> and the deadline context are supplied by the environment.\<close>

definition NewIngestor :: "'w clock \<Rightarrow> 'w context_err \<Rightarrow> 'w ingestion_repository \<Rightarrow> 'w alert_repository option \<Rightarrow>
    'w realtime_publisher option \<Rightarrow> 'w clock option \<Rightarrow> int \<Rightarrow> int \<Rightarrow> 'w ingestor" where
  "NewIngestor system_clock ctx_err repo alerts realtime clock timeout maxPayload =
     \<lparr>ing_repo = repo, ing_alerts = alerts, ing_realtime = realtime,
      ing_clock = (case clock of None \<Rightarrow> system_clock | Some c \<Rightarrow> c), ing_ctx_Err = ctx_err,
      ing_Timeout = (if timeout \<le> 0 then 2 * second else timeout), ing_MaxPayloadBytes = maxPayload\<rparr>"

definition publishRealtime :: "'w ingestor \<Rightarrow> string \<Rightarrow> rt_data \<Rightarrow> ('w, unit) state" where
  "publishRealtime s typ data =
     (case ing_realtime s of
        None \<Rightarrow> ret ()
      | Some publish \<Rightarrow> State_Monad.bind (ing_clock s) (\<lambda>now.
          discard (publish \<lparr>rt_Type = typ, rt_Data = data, rt_At = rfc3339_nano now\<rparr>)))"

definition raise :: "'w ingestor \<Rightarrow> alert_level \<Rightarrow> string \<Rightarrow> string \<Rightarrow> ('w, unit) eio" where
  "raise s level code message =
     (case ing_alerts s of
        None \<Rightarrow> ok ()
      | Some repo \<Rightarrow> State_Monad.bind (ing_clock s) (\<lambda>now.
          ebind (ar_UpsertAlert repo \<lparr>al_ID = code, al_Level = level, al_Code = code, al_Message = message,
                   al_Status = AlertStatusOpen, al_FirstSeenAt = now, al_LastSeenAt = now\<rparr>)
            (\<lambda>saved. lift (publishRealtime s ''system.alert'' (RtAlert saved)))))"

text \<open>
  \<open>errors.Is(err, context.DeadlineExceeded) || errors.Is(ctx.Err(), context.DeadlineExceeded)\<close>; the second is
  asked only when the first is false.
\<close>

definition failure_level :: "'w ingestor \<Rightarrow> go_error \<Rightarrow> ('w, alert_level) state" where
  "failure_level s err =
     (if is_deadline err then ret AlertLevelCritical
      else State_Monad.bind (ing_ctx_Err s) (\<lambda>ctxErr.
        ret (case ctxErr of None \<Rightarrow> AlertLevelWarning
             | Some e \<Rightarrow> if is_deadline e then AlertLevelCritical else AlertLevelWarning)))"

definition withBackpressure :: "'w ingestor \<Rightarrow> string \<Rightarrow> ('w, unit) eio \<Rightarrow> ('w, unit) eio" where
  "withBackpressure s code fn =
     State_Monad.bind fn (\<lambda>r. case r of
        Inr _ \<Rightarrow> ok ()
      | Inl err \<Rightarrow> State_Monad.bind (failure_level s err) (\<lambda>level.
          State_Monad.bind (discard (raise s level code (Error err))) (\<lambda>_. fail err)))"

definition EnsureConnected :: "'w ingestor \<Rightarrow> connect_event \<Rightarrow> ('w, unit) eio" where
  "EnsureConnected s ev =
     ebind (check (ValidateClientID (ce_ClientID ev))) (\<lambda>_.
     State_Monad.bind (if IsZero (ce_ConnectedAt ev) then ing_clock s else ret (ce_ConnectedAt ev)) (\<lambda>at.
     withBackpressure s ''device_connect_failed''
       (ebind (ir_UpsertConnected (ing_repo s) (ev\<lparr>ce_ConnectedAt := at\<rparr>)) (\<lambda>device.
          lift (publishRealtime s ''device.connected'' (RtDevice device))))))"

fun validate_subscriptions :: "subscription list \<Rightarrow> unit result" where
  "validate_subscriptions [] = Inr ()"
| "validate_subscriptions (sub # subs) =
     (case ValidateSubscribeFilter (sub_Filter sub) of
        Inl e \<Rightarrow> Inl e
      | Inr _ \<Rightarrow> (case ValidateQoS (sub_QoS sub) of Inl e \<Rightarrow> Inl e | Inr _ \<Rightarrow> validate_subscriptions subs))"

definition RecordSubscribe :: "'w ingestor \<Rightarrow> subscribe_event \<Rightarrow> ('w, unit) eio" where
  "RecordSubscribe s ev =
     ebind (check (ValidateClientID (se_ClientID ev))) (\<lambda>_.
     ebind (check (validate_subscriptions (se_Subscriptions ev))) (\<lambda>_.
     State_Monad.bind (if IsZero (se_ObservedAt ev) then ing_clock s else ret (se_ObservedAt ev)) (\<lambda>at.
     let ev = ev\<lparr>se_ObservedAt := at\<rparr> in
     withBackpressure s ''subscription_record_failed''
       (ebind (ir_RecordSubscription (ing_repo s) ev) (\<lambda>_.
          lift (publishRealtime s ''topic.observed'' (RtSubscribe ev)))))))"

definition validate_publish :: "int \<Rightarrow> publish_event \<Rightarrow> payload_format result" where
  "validate_publish maxPayload ev =
     (case (if pe_ClientID ev = ''inline'' then Inr () else ValidateClientID (pe_ClientID ev)) of Inl e \<Rightarrow> Inl e | Inr _ \<Rightarrow>
      case ValidatePublishTopic (pe_Topic ev) of Inl e \<Rightarrow> Inl e | Inr _ \<Rightarrow>
      case ValidateQoS (pe_QoS ev) of Inl e \<Rightarrow> Inl e | Inr _ \<Rightarrow>
      ValidateTextPayload (pe_PayloadText ev) maxPayload)"

definition PersistBeforeRoute :: "'w ingestor \<Rightarrow> publish_event \<Rightarrow> ('w, unit) eio" where
  "PersistBeforeRoute s ev =
     ebind (check (validate_publish (ing_MaxPayloadBytes s) ev)) (\<lambda>fmt.
     State_Monad.bind (if IsZero (pe_ReceivedAt ev) then ing_clock s else ret (pe_ReceivedAt ev)) (\<lambda>at.
     withBackpressure s ''publish_persist_failed''
       (ebind (ir_PersistPublish (ing_repo s) (ev\<lparr>pe_PayloadFormat := fmt, pe_ReceivedAt := at\<rparr>)) (\<lambda>msg.
          lift (publishRealtime s ''message.received'' (RtMessage msg))))))"

definition Ingestor_MarkDisconnected :: "'w ingestor \<Rightarrow> disconnect_event \<Rightarrow> ('w, unit) eio" where
  "Ingestor_MarkDisconnected s ev =
     (if de_ClientID ev = [] then ok ()
      else State_Monad.bind (if IsZero (de_DisconnectedAt ev) then ing_clock s else ret (de_DisconnectedAt ev)) (\<lambda>at.
        let ev = ev\<lparr>de_DisconnectedAt := at\<rparr> in
        State_Monad.bind (ir_MarkDisconnected (ing_repo s) ev) (\<lambda>r. case r of
          Inl err \<Rightarrow> State_Monad.bind
            (discard (raise s AlertLevelWarning ''device_disconnect_record_failed''
               (''failed to record device disconnect: '' @ Error err))) (\<lambda>_. fail err)
        | Inr _ \<Rightarrow> lift (publishRealtime s ''device.disconnected'' (RtDisconnect ev)))))"

definition Ingestor_MarkStaleOnline :: "'w ingestor \<Rightarrow> ('w, int) eio" where
  "Ingestor_MarkStaleOnline s =
     State_Monad.bind (ing_clock s) (\<lambda>now.
     ebind (ir_MarkStaleOnline (ing_repo s) now) (\<lambda>count.
     if 0 < count
     then State_Monad.bind (discard (raise s AlertLevelWarning ''stale_online_devices''
            ''marked stale online devices as offline'')) (\<lambda>_. ok count)
     else ok count))"

section \<open>Frames\<close>

text \<open>
  The ingestor's collaborators other than the ingestion repository move the world along \<open>R\<close>; for a frame, they leave a part of it
  alone.
\<close>

definition calm :: "('w \<Rightarrow> 'w \<Rightarrow> bool) \<Rightarrow> 'w ingestor \<Rightarrow> bool" where
  "calm R s \<longleftrightarrow> preorder_rel R \<and> state_io_rel R (ing_clock s) \<and> state_io_rel R (ing_ctx_Err s)
     \<and> (\<forall>repo a. ing_alerts s = Some repo \<longrightarrow> state_io_rel R (ar_UpsertAlert repo a))
     \<and> (\<forall>publish ev. ing_realtime s = Some publish \<longrightarrow> state_io_rel R (publish ev))"

abbreviation quiet :: "('w \<Rightarrow> 'v) \<Rightarrow> 'w ingestor \<Rightarrow> bool" where
  "quiet v s \<equiv> calm (\<lambda>w w'. v w' = v w) s"

lemma publishRealtime_rel:
  assumes "preorder_rel R" "state_io_rel R (ing_clock s)"
    and "\<And>publish ev. ing_realtime s = Some publish \<Longrightarrow> state_io_rel R (publish ev)"
  shows "state_io_rel R (publishRealtime s typ data)"
  unfolding publishRealtime_def using assms by (intro io_rules) auto

lemma raise_rel: "calm R s \<Longrightarrow> state_io_rel R (raise s level code message)"
  unfolding raise_def calm_def by (intro io_rules publishRealtime_rel) auto

lemma failure_level_rel: "preorder_rel R \<Longrightarrow> state_io_rel R (ing_ctx_Err s) \<Longrightarrow> state_io_rel R (failure_level s err)"
  unfolding failure_level_def by (intro io_rules)

lemma read_time_rel: "preorder_rel R \<Longrightarrow> state_io_rel R (ing_clock s) \<Longrightarrow> state_io_rel R (if b then ing_clock s else ret t)"
  by (intro io_rules)

lemma withBackpressure_rel: "calm R s \<Longrightarrow> state_io_rel R fn \<Longrightarrow> state_io_rel R (withBackpressure s code fn)"
  unfolding withBackpressure_def
  by (intro io_rules failure_level_rel raise_rel) (auto simp: calm_def)

lemma calm_collaborators:
  assumes "calm R s"
  shows "preorder_rel R" "state_io_rel R (ing_clock s)" "state_io_rel R (publishRealtime s typ data)"
  using assms by (auto simp: calm_def intro!: publishRealtime_rel)

lemma ingestor_rel:
  assumes "calm R s"
  shows "(\<And>e. state_io_rel R (ir_UpsertConnected (ing_repo s) e)) \<Longrightarrow> state_io_rel R (EnsureConnected s ce)"
    and "(\<And>e. state_io_rel R (ir_RecordSubscription (ing_repo s) e)) \<Longrightarrow> state_io_rel R (RecordSubscribe s se)"
    and "(\<And>e. state_io_rel R (ir_PersistPublish (ing_repo s) e)) \<Longrightarrow> state_io_rel R (PersistBeforeRoute s pe)"
    and "(\<And>e. state_io_rel R (ir_MarkDisconnected (ing_repo s) e)) \<Longrightarrow> state_io_rel R (Ingestor_MarkDisconnected s de)"
    and "(\<And>at. state_io_rel R (ir_MarkStaleOnline (ing_repo s) at)) \<Longrightarrow> state_io_rel R (Ingestor_MarkStaleOnline s)"
  unfolding EnsureConnected_def RecordSubscribe_def PersistBeforeRoute_def Ingestor_MarkDisconnected_def
    Ingestor_MarkStaleOnline_def Let_def
  by (intro io_rules calm_collaborators [OF assms] withBackpressure_rel raise_rel assms | assumption)+

text \<open>A run of an operation under a deadline is the run of the operation, as far as a quiet part is concerned.\<close>

lemma withBackpressure_run:
  assumes "quiet v s" "run_state (withBackpressure s code fn) w = (r, w')"
  obtains r1 w1 where "run_state fn w = (r1, w1)" "v w' = v w1" "r = r1"
proof (cases "run_state fn w")
  case (Pair r1 w1)
  show ?thesis
  proof (cases r1)
    case (Inl err)
    from Inl Pair assms(2) obtain level w2 w3 where
      l: "run_state (failure_level s err) w1 = (level, w2)"
      and d: "run_state (discard (raise s level code (Error err))) w2 = ((), w3)" and r: "r = Inl err" "w' = w3"
      by (auto simp: withBackpressure_def split: prod.splits)
    have "v w2 = v w1"
      by (rule leavesD [OF failure_level_rel l]) (use assms(1) in \<open>simp_all add: calm_def\<close>)
    moreover have "v w3 = v w2"
      by (rule leavesD [OF rel_discard [OF preorder_frame raise_rel [OF assms(1)]] d])
    ultimately show ?thesis using that Pair Inl r by simp
  next
    case (Inr u)
    then show ?thesis using that Pair assms(2) by (simp add: withBackpressure_def)
  qed
qed

text \<open>Recording followed by an announcement.\<close>

lemma announce_run:
  assumes "quiet v s" "run_state (ebind m (\<lambda>x. lift (publishRealtime s typ (data x)))) w = (r, w')"
  obtains e where "run_state m w = (Inl e, w')" "r = Inl e"
  | x w1 where "run_state m w = (Inr x, w1)" "v w' = v w1" "r = Inr ()"
proof (cases "run_state m w")
  case (Pair r1 w1)
  show ?thesis
  proof (cases r1)
    case (Inl e)
    then show ?thesis using assms(2) Pair that(1) by simp
  next
    case (Inr x)
    with Pair assms(2) have p: "run_state (publishRealtime s typ (data x)) w1 = ((), w')" "r = Inr ()"
      by (auto split: prod.splits)
    have "v w' = v w1"
      using assms(1) by (intro leavesD [OF publishRealtime_rel p(1)]) (auto simp: calm_def)
    then show ?thesis using that(2) Pair Inr p(2) by simp
  qed
qed

text \<open>A valid message, once its time is known, is stored under the deadline.\<close>

lemma persist_step:
  assumes "validate_publish (ing_MaxPayloadBytes s) ev = Inr fmt"
    and "run_state (if IsZero (pe_ReceivedAt ev) then ing_clock s else ret (pe_ReceivedAt ev)) w = (at, w1)"
  shows "run_state (PersistBeforeRoute s ev) w = run_state (withBackpressure s ''publish_persist_failed''
       (ebind (ir_PersistPublish (ing_repo s) (ev\<lparr>pe_PayloadFormat := fmt, pe_ReceivedAt := at\<rparr>)) (\<lambda>msg.
          lift (publishRealtime s ''message.received'' (RtMessage msg))))) w1"
  using assms by (cases "IsZero (pe_ReceivedAt ev)") (auto simp: PersistBeforeRoute_def)

section \<open>What the ingestor guarantees\<close>

locale ingesting = ingestion_log repo messages presence
  for repo :: "'w ingestion_repository" and messages :: "'w \<Rightarrow> message_dto list"
    and presence :: "'w \<Rightarrow> string \<Rightarrow> (device_status \<times> string) option" +
  fixes s :: "'w ingestor"
  assumes on_repo: "ing_repo s = repo"
    and others_quiet: "quiet (\<lambda>w. (messages w, presence w)) s"
begin

lemma clock_quiet: "leaves (\<lambda>w. (messages w, presence w)) (if b then ing_clock s else ret t)"
  using others_quiet by (intro read_time_rel) (simp_all add: calm_def)

lemma persist_run:
  assumes "run_state (PersistBeforeRoute s ev) w = (r, w')"
  obtains (invalid) e where "validate_publish (ing_MaxPayloadBytes s) ev = Inl e" "r = Inl e" "w' = w"
  | (failed) e where "r = Inl e" "messages w' = messages w" "presence w' = presence w"
  | (stored) fmt m at where "validate_publish (ing_MaxPayloadBytes s) ev = Inr fmt" "r = Inr ()"
      "messages w' = messages w @ [m]" "stored_as (ev\<lparr>pe_PayloadFormat := fmt, pe_ReceivedAt := at\<rparr>) m"
      "pe_ReceivedAt ev \<noteq> 0 \<longrightarrow> at = pe_ReceivedAt ev"
      "presence w' = (if pe_ClientID ev = ''inline'' then presence w
           else (presence w)(pe_ClientID ev := seen (pe_SessionID ev) (presence w (pe_ClientID ev))))"
proof (cases "validate_publish (ing_MaxPayloadBytes s) ev")
  case (Inl e)
  then show ?thesis using assms invalid by (simp add: PersistBeforeRoute_def)
next
  case (Inr fmt)
  obtain at w1 where at: "run_state (if IsZero (pe_ReceivedAt ev) then ing_clock s else ret (pe_ReceivedAt ev)) w = (at, w1)"
    by (cases "run_state (if IsZero (pe_ReceivedAt ev) then ing_clock s else ret (pe_ReceivedAt ev)) w")
  let ?ev = "ev\<lparr>pe_PayloadFormat := fmt, pe_ReceivedAt := at\<rparr>"
  have w1: "messages w1 = messages w" "presence w1 = presence w" using leavesD [OF clock_quiet at] by simp_all
  have at_eq: "pe_ReceivedAt ev \<noteq> 0 \<longrightarrow> at = pe_ReceivedAt ev" using at by (auto simp: IsZero_def)
  have "run_state (withBackpressure s ''publish_persist_failed''
       (ebind (ir_PersistPublish repo ?ev) (\<lambda>msg. lift (publishRealtime s ''message.received'' (RtMessage msg))))) w1 = (r, w')"
    using assms persist_step [OF Inr at] on_repo by simp
  then obtain r1 w2 where fn: "run_state (ebind (ir_PersistPublish repo ?ev)
      (\<lambda>msg. lift (publishRealtime s ''message.received'' (RtMessage msg)))) w1 = (r1, w2)"
    and same: "(messages w', presence w') = (messages w2, presence w2)" "r = r1"
    by (rule withBackpressure_run [OF others_quiet])
  show ?thesis
  proof (rule announce_run [OF others_quiet fn])
    fix e assume "run_state (ir_PersistPublish repo ?ev) w1 = (Inl e, w2)" "r1 = Inl e"
    then show ?thesis using persist_error same w1 failed by simp
  next
    fix m w3 assume m: "run_state (ir_PersistPublish repo ?ev) w1 = (Inr m, w3)" "r1 = Inr ()"
      and w3: "(messages w2, presence w2) = (messages w3, presence w3)"
    note law = persist_ok [OF m(1)]
    have sa: "stored_as ?ev m" using law by blast
    show ?thesis
    proof (rule stored [OF Inr _ _ sa at_eq])
      show "r = Inr ()" using same m(2) by simp
      show "messages w' = messages w @ [m]" using law same w3 w1 by simp
      show "presence w' = (if pe_ClientID ev = ''inline'' then presence w
           else (presence w)(pe_ClientID ev := seen (pe_SessionID ev) (presence w (pe_ClientID ev))))"
        using law same w3 w1 by (cases "pe_ClientID ev = ''inline''") simp_all
    qed
  qed
qed

lemma connect_run:
  assumes "run_state (EnsureConnected s ev) w = (r, w')"
  obtains (failed) e where "r = Inl e" "messages w' = messages w" "presence w' = presence w"
  | (connected) "r = Inr ()" "ValidateClientID (ce_ClientID ev) = Inr ()" "messages w' = messages w"
      "presence w' = (presence w)(ce_ClientID ev \<mapsto> (DeviceStatusOnline, ce_SessionID ev))"
proof (cases "ValidateClientID (ce_ClientID ev)")
  case (Inl e)
  then show ?thesis using assms by (intro failed [of e]) (simp_all add: EnsureConnected_def)
next
  case (Inr u)
  obtain at w1 where at: "run_state (if IsZero (ce_ConnectedAt ev) then ing_clock s else ret (ce_ConnectedAt ev)) w = (at, w1)"
    by (cases "run_state (if IsZero (ce_ConnectedAt ev) then ing_clock s else ret (ce_ConnectedAt ev)) w")
  let ?ev = "ev\<lparr>ce_ConnectedAt := at\<rparr>"
  have w1: "messages w1 = messages w" "presence w1 = presence w" using leavesD [OF clock_quiet at] by simp_all
  have "run_state (withBackpressure s ''device_connect_failed''
       (ebind (ir_UpsertConnected repo ?ev) (\<lambda>d. lift (publishRealtime s ''device.connected'' (RtDevice d))))) w1 = (r, w')"
    using assms Inr at on_repo by (simp add: EnsureConnected_def del: run_ebind) (simp add: run_ebind del: run_lift)
  then obtain r1 w2 where fn: "run_state (ebind (ir_UpsertConnected repo ?ev)
      (\<lambda>d. lift (publishRealtime s ''device.connected'' (RtDevice d)))) w1 = (r1, w2)"
    and same: "(messages w', presence w') = (messages w2, presence w2)" "r = r1"
    by (rule withBackpressure_run [OF others_quiet])
  show ?thesis
  proof (rule announce_run [OF others_quiet fn])
    fix e assume "run_state (ir_UpsertConnected repo ?ev) w1 = (Inl e, w2)" "r1 = Inl e"
    then show ?thesis using connect_error same w1 failed by simp
  next
    fix d w3 assume d: "run_state (ir_UpsertConnected repo ?ev) w1 = (Inr d, w3)" "r1 = Inr ()"
      and w3: "(messages w2, presence w2) = (messages w3, presence w3)"
    show ?thesis using connect_ok [OF d(1), unfolded w1] same d(2) w3 Inr by (intro connected) simp_all
  qed
qed

lemma subscribe_run:
  assumes "run_state (RecordSubscribe s ev) w = (r, w')"
  obtains (failed) e where "r = Inl e" "messages w' = messages w" "presence w' = presence w"
  | (recorded) "r = Inr ()" "ValidateClientID (se_ClientID ev) = Inr ()" "validate_subscriptions (se_Subscriptions ev) = Inr ()"
      "messages w' = messages w"
      "presence w' = (presence w)(se_ClientID ev := seen (se_SessionID ev) (presence w (se_ClientID ev)))"
proof (cases "ValidateClientID (se_ClientID ev) = Inr () \<and> validate_subscriptions (se_Subscriptions ev) = Inr ()")
  case False
  then obtain e where "run_state (RecordSubscribe s ev) w = (Inl e, w)"
    by (cases "ValidateClientID (se_ClientID ev)"; cases "validate_subscriptions (se_Subscriptions ev)")
      (auto simp: RecordSubscribe_def)
  then show ?thesis using assms failed by simp
next
  case True
  obtain at w1 where at: "run_state (if IsZero (se_ObservedAt ev) then ing_clock s else ret (se_ObservedAt ev)) w = (at, w1)"
    by (cases "run_state (if IsZero (se_ObservedAt ev) then ing_clock s else ret (se_ObservedAt ev)) w")
  let ?ev = "ev\<lparr>se_ObservedAt := at\<rparr>"
  have w1: "messages w1 = messages w" "presence w1 = presence w" using leavesD [OF clock_quiet at] by simp_all
  have "run_state (withBackpressure s ''subscription_record_failed''
       (ebind (ir_RecordSubscription repo ?ev) (\<lambda>u. lift (publishRealtime s ''topic.observed'' (RtSubscribe ?ev))))) w1 = (r, w')"
    using assms True at on_repo
    by (simp add: RecordSubscribe_def Let_def del: run_ebind) (simp add: run_ebind del: run_lift)
  then obtain r1 w2 where fn: "run_state (ebind (ir_RecordSubscription repo ?ev)
      (\<lambda>u. lift (publishRealtime s ''topic.observed'' (RtSubscribe ?ev)))) w1 = (r1, w2)"
    and same: "(messages w', presence w') = (messages w2, presence w2)" "r = r1"
    by (rule withBackpressure_run [OF others_quiet])
  show ?thesis
  proof (rule announce_run [OF others_quiet fn])
    fix e assume "run_state (ir_RecordSubscription repo ?ev) w1 = (Inl e, w2)" "r1 = Inl e"
    then show ?thesis using subscribe_error same w1 failed by simp
  next
    fix u w3 assume d: "run_state (ir_RecordSubscription repo ?ev) w1 = (Inr u, w3)" "r1 = Inr ()"
      and w3: "(messages w2, presence w2) = (messages w3, presence w3)"
    show ?thesis using subscribe_ok [OF d(1), unfolded w1] same d(2) w3 True by (intro recorded) simp_all
  qed
qed

lemma disconnect_run:
  assumes "run_state (Ingestor_MarkDisconnected s ev) w = (r, w')"
  shows "messages w' = messages w"
    "presence w' = presence w
     \<or> presence w' = (presence w)(de_ClientID ev := gone (de_SessionID ev) (presence w (de_ClientID ev)))"
    "r = Inr () \<Longrightarrow> de_ClientID ev \<noteq> [] \<Longrightarrow>
       presence w' = (presence w)(de_ClientID ev := gone (de_SessionID ev) (presence w (de_ClientID ev)))"
proof -
  let ?law = "(presence w)(de_ClientID ev := gone (de_SessionID ev) (presence w (de_ClientID ev)))"
  have "messages w' = messages w \<and> (presence w' = presence w \<or> presence w' = ?law)
      \<and> (r = Inr () \<longrightarrow> de_ClientID ev \<noteq> [] \<longrightarrow> presence w' = ?law)"
  proof (cases "de_ClientID ev = []")
    case True
    then show ?thesis using assms by (simp add: Ingestor_MarkDisconnected_def)
  next
    case False
    obtain at w1 where at: "run_state (if IsZero (de_DisconnectedAt ev) then ing_clock s else ret (de_DisconnectedAt ev)) w = (at, w1)"
      by (cases "run_state (if IsZero (de_DisconnectedAt ev) then ing_clock s else ret (de_DisconnectedAt ev)) w")
    let ?ev = "ev\<lparr>de_DisconnectedAt := at\<rparr>"
    have w1: "messages w1 = messages w" "presence w1 = presence w" using leavesD [OF clock_quiet at] by simp_all
    obtain r2 w2 where m: "run_state (ir_MarkDisconnected repo ?ev) w1 = (r2, w2)"
      by (cases "run_state (ir_MarkDisconnected repo ?ev) w1")
    show ?thesis
    proof (cases r2)
      case (Inl e)
      from Inl m False assms at on_repo have r: "r = Inl e" and
        "run_state (discard (raise s AlertLevelWarning ''device_disconnect_record_failed''
             (''failed to record device disconnect: '' @ Error e))) w2 = ((), w')"
        by (simp_all add: Ingestor_MarkDisconnected_def Let_def)
      from leavesD [OF rel_discard [OF preorder_frame raise_rel [OF others_quiet]] this(2)]
      show ?thesis using disconnect_error [OF m [unfolded Inl]] w1 r by simp
    next
      case (Inr u)
      from Inr m False assms at on_repo have
        p: "run_state (publishRealtime s ''device.disconnected'' (RtDisconnect ?ev)) w2 = ((), w')"
        by (simp add: Ingestor_MarkDisconnected_def Let_def split: prod.splits)
      have "(messages w', presence w') = (messages w2, presence w2)"
        by (rule leavesD [OF publishRealtime_rel p]) (use others_quiet in \<open>auto simp: calm_def\<close>)
      then show ?thesis using disconnect_ok [OF m [unfolded Inr]] w1 by simp
    qed
  qed
  then show "messages w' = messages w" "presence w' = presence w \<or> presence w' = ?law"
    "r = Inr () \<Longrightarrow> de_ClientID ev \<noteq> [] \<Longrightarrow> presence w' = ?law" by blast+
qed

lemma stale_run:
  assumes "run_state (Ingestor_MarkStaleOnline s) w = (Inr n, w')"
  shows "presence w' = stale \<circ> presence w" "messages w' = messages w"
proof -
  obtain now w1 where now: "run_state (ing_clock s) w = (now, w1)" by (cases "run_state (ing_clock s) w")
  have w1: "messages w1 = messages w" "presence w1 = presence w"
    using leavesD [OF _ now, of "\<lambda>w. (messages w, presence w)"] others_quiet by (simp_all add: calm_def)
  from assms now on_repo obtain w2 where m: "run_state (ir_MarkStaleOnline repo now) w1 = (Inr n, w2)"
    and rest: "run_state (if 0 < n then State_Monad.bind (discard (raise s AlertLevelWarning ''stale_online_devices''
            ''marked stale online devices as offline'')) (\<lambda>_. ok n) else ok n) w2 = (Inr n, w')"
    by (auto simp: Ingestor_MarkStaleOnline_def split: sum.splits prod.splits if_splits)
  have "leaves (\<lambda>w. (messages w, presence w)) (if 0 < n then State_Monad.bind (discard (raise s AlertLevelWarning ''stale_online_devices''
            ''marked stale online devices as offline'')) (\<lambda>_. ok n) else ok n)"
    by (intro io_rules preorder_frame raise_rel others_quiet)
  from leavesD [OF this rest] stale_ok [OF m] w1
  show "presence w' = stale \<circ> presence w" "messages w' = messages w" by simp_all
qed

end

section \<open>Alerts of the ingestor\<close>

locale alerting = alert_board repo alerts
  for repo :: "'w alert_repository" and alerts :: "'w \<Rightarrow> string \<Rightarrow> system_alert option" +
  fixes s :: "'w ingestor"
  assumes on_alerts: "ing_alerts s = Some repo"
    and alerts_quiet: "leaves alerts (ing_clock s)" "leaves alerts (ing_ctx_Err s)"
      "ing_realtime s = Some publish \<Longrightarrow> leaves alerts (publish ev)"
begin

lemma raise_run:
  assumes "run_state (raise s level code message) w = (r, w')"
  obtains (unsaved) e where "r = Inl e" "alerts w' = alerts w"
  | (saved) now where "r = Inr ()" "alerts w' = (alerts w)(code \<mapsto> raised \<lparr>al_ID = code, al_Level = level, al_Code = code,
       al_Message = message, al_Status = AlertStatusOpen, al_FirstSeenAt = now, al_LastSeenAt = now\<rparr> (alerts w code))"
proof -
  obtain now w1 where now: "run_state (ing_clock s) w = (now, w1)" by (cases "run_state (ing_clock s) w")
  have w1: "alerts w1 = alerts w" using leavesD [OF alerts_quiet(1) now] .
  let ?a = "\<lparr>al_ID = code, al_Level = level, al_Code = code, al_Message = message, al_Status = AlertStatusOpen,
    al_FirstSeenAt = now, al_LastSeenAt = now\<rparr>"
  obtain r2 w2 where up: "run_state (ar_UpsertAlert repo ?a) w1 = (r2, w2)" by (cases "run_state (ar_UpsertAlert repo ?a) w1")
  show ?thesis
  proof (cases r2)
    case (Inl e)
    then have "r = Inl e" "w' = w2" using assms now up on_alerts by (simp_all add: raise_def)
    then show ?thesis using upsert_error [OF up [unfolded Inl]] w1 by (intro unsaved) simp_all
  next
    case (Inr b)
    then have r: "r = Inr ()" and p: "run_state (publishRealtime s ''system.alert'' (RtAlert b)) w2 = ((), w')"
      using assms now up on_alerts by (auto simp: raise_def split: prod.splits)
    have "alerts w' = alerts w2"
      by (rule leavesD [OF publishRealtime_rel p]) (rule preorder_frame, rule alerts_quiet(1), erule alerts_quiet(3))
    then show ?thesis using upsert_ok [OF up [unfolded Inr]] w1 r by (intro saved [of now]) simp_all
  qed
qed

end

section \<open>The ingestor of the application\<close>

text \<open>As \<open>app.New\<close> builds it: the store twice, the hub, the system clock.\<close>

definition app_ingestor :: "int \<Rightarrow> int \<Rightarrow> world ingestor" where
  "app_ingestor timeout maxPayload =
     NewIngestor clock_now ctx_Err store_ingestion (Some store_alerts) (Some hub_Publish) None timeout maxPayload"

lemma app_ingestor_simps [simp]:
  "ing_repo (app_ingestor timeout maxPayload) = store_ingestion"
  "ing_alerts (app_ingestor timeout maxPayload) = Some store_alerts"
  "ing_realtime (app_ingestor timeout maxPayload) = Some hub_Publish"
  "ing_clock (app_ingestor timeout maxPayload) = clock_now"
  "ing_ctx_Err (app_ingestor timeout maxPayload) = ctx_Err"
  "ing_MaxPayloadBytes (app_ingestor timeout maxPayload) = maxPayload"
  by (simp_all add: app_ingestor_def NewIngestor_def)

lemma alert_statement_frame:
  assumes "\<And>d t. v (d\<lparr>db_alerts := t\<rparr>) = v d"
  shows "leaves (\<lambda>w. v (w_db w)) (UpsertAlert a)"
  unfolding state_io_rel_def UpsertAlert_def
  by (auto simp: exec_pool_def Let_def upsert_alert_stmt_def put_table_ok assms split: option.split sum.split)

interpretation app: ingesting store_ingestion messages_view presence_view "app_ingestor timeout maxPayload"
  for timeout maxPayload
proof unfold_locales
  let ?v = "\<lambda>w. (messages_view w, presence_view w)"
  have "leaves ?v (UpsertAlert a)" for a
    unfolding messages_view_def presence_view_def
    by (rule alert_statement_frame [where v = "\<lambda>d. (map scanMessage (db_messages d), presence_of d)"])
      (simp add: presence_of_def fun_eq_iff)
  moreover have "leaves ?v (hub_Publish ev)" for ev
    by (rule hub_leaves) (simp_all add: messages_view_def presence_view_def)
  moreover have "leaves ?v clock_now" "leaves ?v ctx_Err"
    by (rule clock_leaves ctx_leaves, simp add: messages_view_def presence_view_def)+
  ultimately show "quiet ?v (app_ingestor timeout maxPayload)"
    unfolding calm_def by (simp del: prod.inject add: store_alerts_def preorder_frame)
qed simp

interpretation app_alerts: alerting store_alerts alerts_view "app_ingestor timeout maxPayload" for timeout maxPayload
  by unfold_locales (auto intro!: clock_leaves ctx_leaves hub_leaves simp: alerts_view_def)

section \<open>Integrity\<close>

lemma runtime_keeps:
  "keeps (world_inv I) clock_now" "keeps (world_inv I) new_id" "keeps (world_inv I) ctx_Err" "keeps (world_inv I) (hub_Publish ev)"
proof -
  have "leaves (\<lambda>w. (w_db w, w_tx w)) (hub_Publish ev)" by (rule hub_leaves) simp_all
  then show "keeps (world_inv I) (hub_Publish ev)" by (simp add: state_io_rel_def world_inv_def)
qed (simp_all add: state_io_rel_def world_inv_def)

lemma store_ingestion_keeps:
  "keeps (world_inv db_ok) (ir_UpsertConnected store_ingestion ce)" "keeps (world_inv db_ok) (ir_RecordSubscription store_ingestion se)"
  "keeps (world_inv db_ok) (ir_PersistPublish store_ingestion pe)" "keeps (world_inv db_ok) (ir_MarkDisconnected store_ingestion de)"
  "keeps (world_inv db_ok) (ir_MarkStaleOnline store_ingestion at)"
  unfolding store_ingestion_def
  by (simp_all add: RecordSubscription_keeps PersistPublish_keeps)
    (unfold UpsertConnected_def MarkDisconnected_def MarkStaleOnline_def, (intro method_rules)+)

lemma app_ingestor_keeps:
  "keeps (world_inv db_ok) (EnsureConnected (app_ingestor timeout maxPayload) ce)"
  "keeps (world_inv db_ok) (RecordSubscribe (app_ingestor timeout maxPayload) se)"
  "keeps (world_inv db_ok) (PersistBeforeRoute (app_ingestor timeout maxPayload) pe)"
  "keeps (world_inv db_ok) (Ingestor_MarkDisconnected (app_ingestor timeout maxPayload) de)"
  "keeps (world_inv db_ok) (Ingestor_MarkStaleOnline (app_ingestor timeout maxPayload))"
proof -
  have "keeps (world_inv db_ok) (ar_UpsertAlert store_alerts a)" for a
    unfolding store_alerts_def by (simp add: UpsertAlert_def) (intro method_rules)
  then have "calm (\<lambda>w w'. world_inv db_ok w \<longrightarrow> world_inv db_ok w') (app_ingestor timeout maxPayload)"
    by (simp add: calm_def preorder_invariant runtime_keeps)
  from ingestor_rel [OF this] show
    "keeps (world_inv db_ok) (EnsureConnected (app_ingestor timeout maxPayload) ce)"
    "keeps (world_inv db_ok) (RecordSubscribe (app_ingestor timeout maxPayload) se)"
    "keeps (world_inv db_ok) (PersistBeforeRoute (app_ingestor timeout maxPayload) pe)"
    "keeps (world_inv db_ok) (Ingestor_MarkDisconnected (app_ingestor timeout maxPayload) de)"
    "keeps (world_inv db_ok) (Ingestor_MarkStaleOnline (app_ingestor timeout maxPayload))"
    using store_ingestion_keeps by simp_all
qed

end
