(* ===== verification/Partitions.thy ===== *)
theory Partitions
  imports Integrity
begin

text \<open>
  Monthly partitions of the message table. The calendar as a function of a running month number: months follow
  each other without gap or overlap, so the partition made for a message contains it and meets no other.
\<close>

section \<open>Months in a row\<close>

text \<open>The day number of the first day of month \<open>k\<close>, counted from January of year 0.\<close>

definition first_day :: "int \<Rightarrow> int" where
  "first_day k = days_of_civil (k div 12) (k mod 12 + 1) 1"

lemma first_day_of: "days_of_civil y m 1 = first_day (12 * y + (m - 1))"
  by (simp add: first_day_def days_of_civil_def)

lemma div_step:
  fixes p n :: int
  assumes "0 < n"
  shows "(p + 1) div n = p div n + (if n dvd p + 1 then 1 else 0)" "(p + 1) mod n = (if n dvd p + 1 then 0 else p mod n + 1)"
proof -
  have p: "p = n * (p div n) + p mod n" by simp
  have r: "0 \<le> p mod n" "p mod n < n" using assms by simp_all
  have "(p + 1) div n = p div n + (if n dvd p + 1 then 1 else 0) \<and> (p + 1) mod n = (if n dvd p + 1 then 0 else p mod n + 1)"
  proof (cases "p mod n = n - 1")
    case True
    then have "p + 1 = n * (p div n + 1)" using p unfolding distrib_left mult_1_right by linarith
    then show ?thesis using assms by simp
  next
    case False
    have eq: "p + 1 = n * (p div n) + (p mod n + 1)" using p by linarith
    have r1: "0 \<le> p mod n + 1" "p mod n + 1 < n" using r False by linarith+
    have "(p + 1) div n = p div n" "(p + 1) mod n = p mod n + 1"
      by (rule int_div_pos_eq [OF eq r1], rule int_mod_pos_eq [OF eq r1])
    moreover have "\<not> n dvd p + 1" using calculation(2) r1 r(1) by (auto dest: dvd_imp_mod_0)
    ultimately show ?thesis by simp
  qed
  then show "(p + 1) div n = p div n + (if n dvd p + 1 then 1 else 0)"
    "(p + 1) mod n = (if n dvd p + 1 then 0 else p mod n + 1)" by simp_all
qed

lemma is_leap_dvd: "is_leap y \<longleftrightarrow> 4 dvd y \<and> (\<not> 100 dvd y \<or> 400 dvd y)"
  by (simp add: is_leap_def mod_eq_0_iff_dvd)

text \<open>The number of leap years up to a year; written with its own name so that arithmetic does not take the divisions apart.\<close>

definition leaps :: "int \<Rightarrow> int" where
  "leaps p = p div 4 - p div 100 + p div 400"

lemma leaps_Suc: "leaps (p + 1) = leaps p + (if is_leap (p + 1) then 1 else 0)"
proof -
  have table: "(b \<longrightarrow> a) \<Longrightarrow> (c \<longrightarrow> b) \<Longrightarrow> (if a \<and> (\<not> b \<or> c) then 1 else 0) =
      (if a then 1 else 0) - (if b then 1 else 0) + (if c then 1 else (0::int))" for a b c by (cases a; cases b; cases c; simp)
  have "100 dvd p + 1 \<longrightarrow> 4 dvd p + 1" "400 dvd p + 1 \<longrightarrow> 100 dvd p + 1"
    by (rule impI, erule dvd_trans [rotated], simp)+
  from table [OF this] have w: "(if is_leap (p + 1) then 1 else 0) =
      (if 4 dvd p + 1 then 1 else 0) - (if 100 dvd p + 1 then 1 else 0) + (if 400 dvd p + 1 then 1 else (0::int))"
    unfolding is_leap_dvd .
  have shuffle: "(a + x) - (b + y) + (c + z) = (a - b + c) + (x - y + z)" for a b c x y z :: int by simp
  have "leaps (p + 1) = (p div 4 + (if 4 dvd p + 1 then 1 else 0)) - (p div 100 + (if 100 dvd p + 1 then 1 else 0))
      + (p div 400 + (if 400 dvd p + 1 then 1 else 0))"
    unfolding leaps_def by (simp only: div_step(1) [OF zero_less_numeral])
  also have "\<dots> = leaps p + (if is_leap (p + 1) then 1 else 0)"
    unfolding leaps_def w by (rule shuffle)
  finally show ?thesis .
qed

text \<open>The length of a month, from the table of the days before each month.\<close>

definition month_length :: "int \<Rightarrow> int" where
  "month_length k = daysBefore (k mod 12 + 1) - daysBefore (k mod 12) + (if is_leap (k div 12) \<and> k mod 12 = 1 then 1 else 0)"

lemma month_table: "list_all (\<lambda>m. 28 \<le> daysBefore (m + 1) - daysBefore m) [0..11]"
  by code_simp

lemma month_length_bound: "28 \<le> month_length k"
proof -
  have "k mod 12 \<in> set [0..11]" by simp
  with month_table have "28 \<le> daysBefore (k mod 12 + 1) - daysBefore (k mod 12)" by (simp only: list_all_iff)
  moreover have "0 \<le> (if is_leap (k div 12) \<and> k mod 12 = 1 then 1 else (0::int))" by simp
  ultimately show ?thesis unfolding month_length_def by linarith
qed

lemma first_day_eq:
  assumes "0 \<le> m" "m \<le> 11"
  shows "first_day (12 * y + m) = 365 * (y - 1) + leaps (y - 1) + daysBefore m + (if is_leap y \<and> 2 \<le> m then 1 else 0)"
proof -
  have "(12 * y + m) div 12 = y" "(12 * y + m) mod 12 = m" "m div 12 = 0" "m mod 12 = m" using assms by simp_all
  then show ?thesis by (simp add: first_day_def days_of_civil_def leaps_def Let_def)
qed

lemma month_length_eq:
  assumes "0 \<le> m" "m \<le> 11"
  shows "month_length (12 * y + m) = daysBefore (m + 1) - daysBefore m + (if is_leap y \<and> m = 1 then 1 else 0)"
proof -
  have "(12 * y + m) div 12 = y" "(12 * y + m) mod 12 = m" using assms by simp_all
  then show ?thesis by (simp add: month_length_def)
qed

lemma leap_offset:
  "m \<noteq> 11 \<Longrightarrow> (if b \<and> 2 \<le> m + 1 then 1 else 0) = (if b \<and> 2 \<le> m then 1 else 0) + (if b \<and> m = 1 then 1 else (0::int))"
  for m :: int
  by (cases "m = 1"; cases "2 \<le> m"; cases b) simp_all

lemma first_day_next: "0 \<le> m \<Longrightarrow> m \<le> 10 \<Longrightarrow> first_day (12 * y + (m + 1)) = first_day (12 * y + m) + month_length (12 * y + m)"
  using first_day_eq [of "m + 1" y] first_day_eq [of m y] month_length_eq [of m y] leap_offset [of m "is_leap y"]
  by simp

lemma first_day_new_year: "first_day (12 * (y + 1) + 0) = first_day (12 * y + 11) + month_length (12 * y + 11)"
  using first_day_eq [of 0 "y + 1"] first_day_eq [of 11 y] month_length_eq [of 11 y] leaps_Suc [of "y - 1"]
  by (simp add: daysBefore_def)

lemma first_day_Suc: "first_day (k + 1) = first_day k + month_length k"
proof -
  define y m where "y = k div 12" and "m = k mod 12"
  have k: "k = 12 * y + m" "0 \<le> m" "m \<le> 11" by (simp_all add: y_def m_def)
  show ?thesis
  proof (cases "m = 11")
    case True
    then have "k + 1 = 12 * (y + 1) + 0" using k(1) by simp
    then show ?thesis unfolding k(1) True by (simp only: first_day_new_year)
  next
    case False
    then show ?thesis using first_day_next [of m y] k by (simp add: add.assoc)
  qed
qed

lemma first_day_mono: "j \<le> k \<Longrightarrow> first_day j \<le> first_day k"
proof (induction k rule: int_ge_induct)
  case (step i)
  then show ?case using month_length_bound [of i] by (simp add: first_day_Suc)
qed simp

lemma same_month:
  assumes "first_day j \<le> d" "d < first_day (j + 1)" "first_day k \<le> d" "d < first_day (k + 1)"
  shows "j = k"
proof (rule ccontr)
  assume "j \<noteq> k"
  then have "j + 1 \<le> k \<or> k + 1 \<le> j" by linarith
  then show False using first_day_mono [of "j + 1" k] first_day_mono [of "k + 1" j] assms by linarith
qed

section \<open>Every day has its month\<close>

definition month_of_day :: "int \<Rightarrow> int" where
  "month_of_day day = (case civil_of_days day of (y, m, _) \<Rightarrow> 12 * y + (m - 1))"

text \<open>The day of the month never exceeds the month's length.\<close>

lemma month_day_length:
  assumes "0 \<le> yday" "yday \<le> 364 \<or> (leap \<and> yday = 365)"
  shows "case month_day leap yday of (m, dd) \<Rightarrow>
           dd \<le> daysBefore m - daysBefore (m - 1) + (if leap \<and> m = 2 then 1 else 0)"
proof -
  let ?P = "\<lambda>leap yd. case month_day leap yd of (m, dd) \<Rightarrow>
           dd \<le> daysBefore m - daysBefore (m - 1) + (if leap \<and> m = 2 then 1 else 0)"
  have n: "list_all (?P False) [0..364]" by code_simp
  have l: "list_all (?P True) [0..365]" by code_simp
  show ?thesis
  proof (cases leap)
    case True
    with assms have "yday \<in> set [0..365]" by auto
    with l True show ?thesis by (simp only: list_all_iff)
  next
    case False
    with assms have "yday \<in> set [0..364]" by auto
    with n False show ?thesis by (simp only: list_all_iff)
  qed
qed

lemma civil_length:
  "case civil_of_days d of (y, m, dd) \<Rightarrow> dd \<le> daysBefore m - daysBefore (m - 1) + (if is_leap y \<and> m = 2 then 1 else 0)"
proof -
  obtain y yday m dd where civ: "civil_of_days d = (y, m, dd)" and md: "month_day (is_leap y) yday = (m, dd)"
    and yday: "0 \<le> yday" "yday \<le> 364 \<or> (is_leap y \<and> yday = 365)"
    by (rule civil_shape)
  from month_day_length [OF yday] md civ show ?thesis by simp
qed

lemma month_of_day_bounds: "first_day (month_of_day day) \<le> day \<and> day < first_day (month_of_day day + 1)"
proof -
  obtain y m dd where civ: "civil_of_days day = (y, m, dd)" by (metis prod_cases3)
  have m: "1 \<le> m" "m \<le> 12" "1 \<le> dd" using civil_ranges [of day] civ by auto
  have day: "day = first_day (12 * y + (m - 1)) + (dd - 1)"
    using civil_roundtrip [of day] civ days_of_civil_add [of y m 1 "dd - 1"] by (simp add: first_day_of)
  have "dd \<le> month_length (12 * y + (m - 1))"
    using civil_length [of day] civ month_length_eq [of "m - 1" y] m by simp
  moreover have "month_of_day day = 12 * y + (m - 1)" by (simp add: month_of_day_def civ)
  ultimately show ?thesis using day m(3) by (simp only: first_day_Suc) linarith
qed

lemma month_of_first_day: "month_of_day (first_day k) = k"
  using month_of_day_bounds [of "first_day k"] month_length_bound [of k] first_day_Suc [of k]
  by (intro same_month [where d = "first_day k"]) auto

lemma civil_of_first_day:
  assumes "1 \<le> m" "m \<le> 12"
  shows "civil_of_days (days_of_civil y m 1) = (y, m, 1)"
proof -
  obtain y' m' dd where civ: "civil_of_days (days_of_civil y m 1) = (y', m', dd)" by (metis prod_cases3)
  have m': "1 \<le> m'" "m' \<le> 12" using civil_ranges [of "days_of_civil y m 1"] civ by auto
  have "12 * y' + (m' - 1) = 12 * y + (m - 1)"
    using month_of_first_day [of "12 * y + (m - 1)"] civ by (simp add: month_of_day_def first_day_of)
  then have same: "y' = y" "m' = m" using assms m' by presburger+
  have "days_of_civil y m dd = days_of_civil y m 1"
    using civil_roundtrip [of "days_of_civil y m 1"] civ same by simp
  then have "dd = 1" using days_of_civil_add [of y m 1 "dd - 1"] by simp
  with civ same show ?thesis by simp
qed

section \<open>The partition of an instant\<close>

definition day_ns :: int where
  "day_ns = 86400000000000"

lemma utc_day: "local_day UTC t = t div day_ns"
  by (simp add: local_day_def local_secs_def zone_offset_def UTC_def FixedZone_def day_ns_def zdiv_zmult2_eq [symmetric])

lemma date_utc: "Date y m 1 0 0 0 0 UTC = days_of_civil y m 1 * day_ns"
  by (simp add: Date_def unix_of_local_def UTC_def FixedZone_def unix_epoch_def day_ns_def)

lemma month_start_eq: "month_start at = first_day (month_of_day (at div day_ns)) * day_ns"
  by (simp add: month_start_def date_of_def utc_day date_utc first_day_of month_of_day_def split: prod.split)

lemma civil_month_start:
  assumes "civil_of_days (at div day_ns) = (y, m, dd)"
  shows "date_of UTC (month_start at) = (y, m, 1)"
proof -
  have "1 \<le> m" "m \<le> 12" using civil_ranges [of "at div day_ns"] assms by auto
  then have "civil_of_days (days_of_civil y m 1) = (y, m, 1)" by (rule civil_of_first_day)
  then show ?thesis
    by (simp add: date_of_def utc_day month_start_eq month_of_day_def assms first_day_of [symmetric]) (simp add: day_ns_def)
qed

lemma month_end_eq: "month_end at = first_day (month_of_day (at div day_ns) + 1) * day_ns"
proof -
  obtain y m dd where civ: "civil_of_days (at div day_ns) = (y, m, dd)" by (metis prod_cases3)
  have "clock_secs UTC (month_start at) = 0" "nanosecond (month_start at) = 0"
    by (simp_all add: month_start_eq clock_secs_def local_secs_def nanosecond_def zone_offset_def UTC_def FixedZone_def day_ns_def)
  then show ?thesis
    by (simp add: month_end_def AddDate_def civil_month_start [OF civ] date_utc first_day_of month_of_day_def civ)
qed

section \<open>The partitions of a database\<close>

text \<open>
  What the store's statements make true of the partitions: each is the partition of some instant, and every message lies in
  one of them.
\<close>

definition monthly :: "db \<Rightarrow> bool" where
  "monthly d \<longleftrightarrow> (\<forall>(n, lo, hi) \<in> set (db_partitions d). \<exists>at. n = partition_name at \<and> lo = month_start at \<and> hi = month_end at)
     \<and> (\<forall>m \<in> set (db_messages d). partition_name (m_received_at m) \<in> fst ` set (db_partitions d))"

text \<open>The name of a partition determines its month.\<close>

lemma read_pad: "0 \<le> v \<Longrightarrow> read_digits 0 (pad n v) = v"
proof -
  have "read_digits 0 (replicate k (CHR ''0'') @ s) = read_digits 0 s" for k s
    by (induction k) (simp_all add: digit_val_def of_char_def)
  then show "0 \<le> v \<Longrightarrow> read_digits 0 (pad n v) = v" by (simp add: pad_def Let_def Itoa_def read_int_digits)
qed

lemma hd_pad: "0 \<le> v \<Longrightarrow> is_digit (hd (pad n v))" "pad n v \<noteq> []"
proof -
  assume "0 \<le> v"
  then have "is_digit (hd (Itoa v))" using hd_int_digits [of v] by (simp add: Itoa_def)
  then show "is_digit (hd (pad n v))" by (cases "n - length (Itoa v)") (simp_all add: pad_def Let_def is_digit_def)
qed (simp add: pad_def Let_def)

lemma fmt_0d_inj: "fmt_0d n v = fmt_0d n u \<Longrightarrow> v = u"
proof -
  assume eq: "fmt_0d n v = fmt_0d n u"
  have sign: "fmt_0d n v \<noteq> fmt_0d n u" if "v < 0" "0 \<le> u" for v u
  proof -
    have "hd (fmt_0d n v) = CHR ''-''" using that by (simp add: fmt_0d_def)
    moreover have "is_digit (hd (fmt_0d n u))" using hd_pad(1) [of u n] that by (simp add: fmt_0d_def)
    moreover have "\<not> is_digit (CHR ''-'')" using digits_not_special by blast
    ultimately show ?thesis by metis
  qed
  consider "v < 0" "u < 0" | "0 \<le> v" "0 \<le> u" | "v < 0" "0 \<le> u" | "u < 0" "0 \<le> v" by linarith
  then show ?thesis
  proof cases
    case 1
    then have "pad (n - 1) (- v) = pad (n - 1) (- u)" using eq unfolding fmt_0d_def by simp
    then have "read_digits 0 (pad (n - 1) (- v)) = read_digits 0 (pad (n - 1) (- u))" by (rule arg_cong)
    then show ?thesis using 1 by (simp only: read_pad neg_0_le_iff_le less_imp_le neg_equal_iff_equal)
  next
    case 2
    then have "pad n v = pad n u" using eq unfolding fmt_0d_def by (simp only: not_less [symmetric] if_False)
    then have "read_digits 0 (pad n v) = read_digits 0 (pad n u)" by (rule arg_cong)
    then show ?thesis using 2 by (simp only: read_pad)
  next
    case 3
    then show ?thesis using sign [of v u] eq by blast
  next
    case 4
    then show ?thesis using sign [of u v] eq by metis
  qed
qed

lemma month_digits: "1 \<le> m \<Longrightarrow> m \<le> 12 \<Longrightarrow> length (fmt_0d 2 m) = 2"
proof -
  assume "1 \<le> m" "m \<le> 12"
  moreover have "list_all (\<lambda>m. length (fmt_0d 2 m) = 2) [1..12]" by code_simp
  ultimately show ?thesis by (simp only: list_all_iff set_upto atLeastAtMost_iff)
qed

lemma partition_name_eq:
  assumes "civil_of_days (at div day_ns) = (y, m, dd)"
  shows "partition_name at = ''mqtt_messages_'' @ fmt_0d 4 y @ ''_'' @ fmt_0d 2 m"
  by (simp add: partition_name_def civil_month_start [OF assms])

lemma month_of_partition:
  assumes "partition_name at = partition_name t"
  shows "month_of_day (at div day_ns) = month_of_day (t div day_ns)"
proof -
  obtain y m dd y' m' dd' where c: "civil_of_days (at div day_ns) = (y, m, dd)" "civil_of_days (t div day_ns) = (y', m', dd')"
    by (metis prod_cases3)
  have "length (fmt_0d 2 m) = length (fmt_0d 2 m')"
    using civil_ranges [of "at div day_ns"] civil_ranges [of "t div day_ns"] c month_digits [of m] month_digits [of m'] by simp
  moreover have "(''mqtt_messages_'' @ fmt_0d 4 y @ ''_'') @ fmt_0d 2 m = (''mqtt_messages_'' @ fmt_0d 4 y' @ ''_'') @ fmt_0d 2 m'"
    using assms unfolding partition_name_eq [OF c(1)] partition_name_eq [OF c(2)] append_assoc .
  ultimately have "''mqtt_messages_'' @ fmt_0d 4 y @ ''_'' = ''mqtt_messages_'' @ fmt_0d 4 y' @ ''_''" "fmt_0d 2 m = fmt_0d 2 m'"
    using append_eq_append_conv [of _ _ "fmt_0d 2 m" "fmt_0d 2 m'"] by (metis (no_types, lifting))+
  then have "fmt_0d 4 y = fmt_0d 4 y'" "fmt_0d 2 m = fmt_0d 2 m'" by simp_all
  then have "y = y'" "m = m'" by (auto dest: fmt_0d_inj)
  with c show ?thesis by (simp add: month_of_day_def)
qed

lemma month_disjoint:
  assumes "partition_name at \<noteq> partition_name t"
  shows "month_end at \<le> month_start t \<or> month_end t \<le> month_start at"
proof -
  have pos: "0 < day_ns" by (simp add: day_ns_def)
  have le: "first_day (a + 1) * day_ns \<le> first_day b * day_ns" if "a < b" for a b
    using that pos by (intro mult_right_mono first_day_mono) simp_all
  have "month_of_day (at div day_ns) \<noteq> month_of_day (t div day_ns)"
  proof
    assume "month_of_day (at div day_ns) = month_of_day (t div day_ns)"
    then have "month_start at = month_start t" by (simp add: month_start_eq)
    with assms show False by (simp add: partition_name_def)
  qed
  then consider "month_of_day (at div day_ns) < month_of_day (t div day_ns)" | "month_of_day (t div day_ns) < month_of_day (at div day_ns)"
    by linarith
  then show ?thesis by cases (use le in \<open>simp_all add: month_start_eq month_end_eq\<close>)
qed

lemma month_bounds: "month_start at \<le> at" "at < month_end at"
proof -
  have pos: "0 < day_ns" by (simp add: day_ns_def)
  have at: "first_day (month_of_day (at div day_ns)) \<le> at div day_ns" "at div day_ns + 1 \<le> first_day (month_of_day (at div day_ns) + 1)"
    using month_of_day_bounds [of "at div day_ns"] by simp_all
  have split: "at = at div day_ns * day_ns + at mod day_ns" "0 \<le> at mod day_ns" "at mod day_ns < day_ns"
    using pos by simp_all
  show "month_start at \<le> at"
    unfolding month_start_eq using mult_right_mono [OF at(1), of day_ns] split pos by linarith
  have "(at div day_ns + 1) * day_ns \<le> month_end at"
    unfolding month_end_eq using at(2) pos by (intro mult_right_mono) simp_all
  moreover have "(at div day_ns + 1) * day_ns = at div day_ns * day_ns + day_ns" by (simp add: distrib_right)
  ultimately show "at < month_end at" using split by linarith
qed

text \<open>
  The partition made for a message contains its time stamp. Two instants have partitions of the same name and range, or
  partitions that differ in name and do not meet.
\<close>

theorem partition_holds_timestamp:
  "month_start at \<le> at \<and> at < month_end at
   \<and> ((month_start at = month_start t \<and> month_end at = month_end t \<and> partition_name at = partition_name t)
      \<or> (partition_name at \<noteq> partition_name t \<and> (month_end at \<le> month_start t \<or> month_end t \<le> month_start at)))"
  using month_bounds [of at] month_disjoint [of at t] month_of_partition [of at t]
  by (cases "partition_name at = partition_name t") (simp_all add: month_start_eq month_end_eq)

text \<open>A monthly database never refuses a partition.\<close>

lemma partition_never_refused:
  assumes "monthly d"
  obtains d' where "create_partition_stmt (partition_name at) (month_start at) (month_end at) u d = Inr ((), d')"
proof (cases "partition_name at \<in> fst ` set (db_partitions d)")
  case True
  then show ?thesis using that by (simp add: create_partition_stmt_def)
next
  case False
  have "month_start at < month_end at" using month_bounds [of at] by linarith
  moreover have "\<not> (\<exists>(n, lo, hi) \<in> set (db_partitions d). month_start at < hi \<and> lo < month_end at)"
  proof (clarify)
    fix n lo hi assume p: "(n, lo, hi) \<in> set (db_partitions d)" and meet: "month_start at < hi" "lo < month_end at"
    with assms obtain t where t: "n = partition_name t" "lo = month_start t" "hi = month_end t" unfolding monthly_def by blast
    have "partition_name at \<noteq> partition_name t" using False p t(1) by force
    from month_disjoint [OF this] t meet show False by linarith
  qed
  moreover have "\<not> (\<exists>m \<in> set (db_messages d). month_start at \<le> m_received_at m \<and> m_received_at m < month_end at)"
  proof
    assume "\<exists>m \<in> set (db_messages d). month_start at \<le> m_received_at m \<and> m_received_at m < month_end at"
    then obtain m where m: "m \<in> set (db_messages d)" "month_start at \<le> m_received_at m" "m_received_at m < month_end at" by blast
    then have "partition_name (m_received_at m) \<in> fst ` set (db_partitions d)" using assms by (simp add: monthly_def)
    then have "partition_name at \<noteq> partition_name (m_received_at m)" using False by metis
    from month_disjoint [OF this] m month_bounds [of "m_received_at m"] show False by linarith
  qed
  ultimately show ?thesis using that False by (simp add: create_partition_stmt_def)
qed

section \<open>The store keeps its partitions\<close>

lemma monthly_frame:
  "db_messages d' = db_messages d \<Longrightarrow> db_partitions d' = db_partitions d \<Longrightarrow> monthly d' = monthly d"
  by (simp add: monthly_def)

lemma stmt_frame:
  assumes "\<And>u d x d'. f u d = Inr (x, d') \<Longrightarrow> db_messages d' = db_messages d \<and> db_partitions d' = db_partitions d"
  shows "stmt_keeps monthly f"
  using assms monthly_frame unfolding stmt_keeps_def by metis

lemma other_statements:
  "stmt_keeps monthly (upsert_connected_stmt ce)" "stmt_keeps monthly (ensure_device_stmt c s at)"
  "stmt_keeps monthly (observe_topic_stmt dev c topic kind qos at)" "stmt_keeps monthly (admin_topic_stmt c topic qos at)"
  "stmt_keeps monthly (mark_disconnected_stmt de)" "stmt_keeps monthly (mark_stale_stmt at)"
  "stmt_keeps monthly (update_type_stmt i typ)" "stmt_keeps monthly (log_type_change_stmt cmd old at)"
  "stmt_keeps monthly (create_command_stmt i pc at)" "stmt_keeps monthly (mark_command_stmt i st e pub)"
  "stmt_keeps monthly (create_task_stmt task)" "stmt_keeps monthly (cancel_task_stmt i at)"
  "stmt_keeps monthly (finish_task_stmt r)" "stmt_keeps monthly (insert_run_stmt r)"
  "stmt_keeps monthly (create_quick_action_stmt a)" "stmt_keeps monthly (delete_quick_action_stmt i)"
  "stmt_keeps monthly (upsert_alert_stmt alert)" "stmt_keeps monthly (create_session_stmt ses)"
  "stmt_keeps monthly (delete_session_stmt token)" "stmt_keeps monthly (bootstrap_admin_stmt i name hash at)"
  by (rule stmt_frame, auto simp: upsert_connected_stmt_def ensure_device_stmt_def observe_topic_stmt_def admin_topic_stmt_def
      mark_disconnected_stmt_def mark_stale_stmt_def update_type_stmt_def log_type_change_stmt_def create_command_stmt_def
      mark_command_stmt_def create_task_stmt_def cancel_task_stmt_def finish_task_stmt_def insert_run_stmt_def
      create_quick_action_stmt_def delete_quick_action_stmt_def upsert_alert_stmt_def create_session_stmt_def
      delete_session_stmt_def bootstrap_admin_stmt_def put_table_ok put_new_ok Let_def
      split: sum.splits option.splits if_splits prod.splits)+

lemma delete_messages_monthly: "stmt_keeps monthly (delete_messages_stmt before)"
  by (rule stmt_keepsI) (auto simp: delete_messages_stmt_def monthly_def)

lemma create_partition_monthly:
  "stmt_keeps monthly (create_partition_stmt (partition_name at) (month_start at) (month_end at))"
  by (rule stmt_keepsI) (auto simp: create_partition_stmt_def monthly_def split: if_splits)

lemmas monthly_keeps = other_statements delete_messages_monthly create_partition_monthly read_only_keeps

lemmas monthly_rules = io_rules preorder_invariant exec_pool_keeps exec_tx_keeps tx_keeps in_tx_keeps monthly_keeps

text \<open>A transaction that starts after the partition of \<open>at\<close> was made sees that partition.\<close>

definition in_partition :: "time \<Rightarrow> world \<Rightarrow> bool" where
  "in_partition at w \<longleftrightarrow> world_inv monthly w
     \<and> (\<forall>t. w_tx w = Some t \<longrightarrow> partition_name at \<in> fst ` set (db_partitions t))"

lemma in_partition_stmt:
  assumes "\<And>u d x d'. f u d = Inr (x, d') \<Longrightarrow> db_partitions d' = db_partitions d"
    and "\<And>u d x d'. monthly d \<Longrightarrow> partition_name at \<in> fst ` set (db_partitions d) \<Longrightarrow> f u d = Inr (x, d') \<Longrightarrow> monthly d'"
  shows "hoare (in_partition at) (exec_tx f) (\<lambda>_. in_partition at) (world_inv monthly)"
proof (rule hoareI)
  fix w x w' assume "in_partition at w" "run_state (exec_tx f) w = (Inr x, w')"
  then obtain t d where "w_tx w = Some t" "f (w_uuid w (w_stmts w)) t = Inr (x, d)"
    and "w' = w\<lparr>w_stmts := Suc (w_stmts w), w_tx := Some d\<rparr>"
    and "monthly (w_db w)" "monthly t" "partition_name at \<in> fst ` set (db_partitions t)"
    by (auto simp: in_partition_def world_inv_def dest!: exec_tx_ok)
  then show "in_partition at w'" using assms by (simp add: in_partition_def world_inv_def)
next
  fix w e w' assume "in_partition at w" "run_state (exec_tx f) w = (Inl e, w')"
  then show "world_inv monthly w'"
    by (auto simp: in_partition_def world_inv_def exec_tx_def Let_def split: option.splits sum.splits)
qed

lemma insert_message_monthly:
  assumes "monthly d" "partition_name (pe_ReceivedAt ev) \<in> fst ` set (db_partitions d)" "insert_message_stmt dev ev u d = Inr (x, d')"
  shows "monthly d'"
proof -
  obtain row where "db_messages d' = db_messages d @ [row]" "m_received_at row = pe_ReceivedAt ev" "db_partitions d' = db_partitions d"
    using assms(3) by (auto simp: insert_message_stmt_def Let_def put_table_ok dest!: insert_row_ok split: sum.splits)
  with assms(1,2) show ?thesis by (simp add: monthly_def)
qed

lemma PersistPublish_monthly: "keeps (world_inv monthly) (PersistPublish ev)"
proof -
  let ?at = "pe_ReceivedAt ev"
  let ?made = "\<lambda>w. world_inv monthly w \<and> partition_name ?at \<in> fst ` set (db_partitions (w_db w))"
  have part: "hoare (world_inv monthly) (EnsureMessagePartition ?at) (\<lambda>_. ?made) (world_inv monthly)"
  proof (rule hoareI)
    fix w x w' assume inv: "world_inv monthly w" and run: "run_state (EnsureMessagePartition ?at) w = (Inr x, w')"
    have "world_inv monthly w'"
      using keepsD [OF exec_pool_keeps [OF create_partition_monthly] run [unfolded EnsureMessagePartition_def] inv] .
    with run show "?made w'"
      by (auto simp: EnsureMessagePartition_def create_partition_stmt_def dest!: exec_pool_ok split: if_splits)
  next
    fix w e w' assume "world_inv monthly w" "run_state (EnsureMessagePartition ?at) w = (Inl e, w')"
    then show "world_inv monthly w'" by (auto simp: EnsureMessagePartition_def world_inv_def dest!: exec_pool_error)
  qed
  have start: "hoare ?made tx_begin (\<lambda>_. in_partition ?at) (world_inv monthly)"
    by (auto simp: hoare_def tx_begin_def Let_def in_partition_def world_inv_def split: option.split)
  have device: "hoare (in_partition ?at) (exec_tx (ensure_device_stmt c s at)) (\<lambda>_. in_partition ?at) (world_inv monthly)" for c s at
    by (rule in_partition_stmt)
      (auto simp: ensure_device_stmt_def put_table_ok monthly_def split: sum.splits)
  have topic: "hoare (in_partition ?at) (exec_tx (observe_topic_stmt dev c topic kind q at)) (\<lambda>_. in_partition ?at) (world_inv monthly)"
    for dev c topic kind q at
    by (rule in_partition_stmt)
      (auto simp: observe_topic_stmt_def put_table_ok monthly_def split: sum.splits)
  have message: "hoare (in_partition ?at) (exec_tx (insert_message_stmt dev ev)) (\<lambda>_. in_partition ?at) (world_inv monthly)" for dev
    by (rule in_partition_stmt [OF _ insert_message_monthly])
      (auto simp: insert_message_stmt_def Let_def put_table_ok split: sum.splits)
  have commit: "hoare (in_partition ?at) tx_commit (\<lambda>_. world_inv monthly) (world_inv monthly)"
    by (rule hoareI) (auto simp: in_partition_def intro: keepsD [OF tx_keeps(2)])
  have which: "hoare (in_partition ?at) (if pe_ClientID ev = ''inline'' then ok None
      else ebind (ensureDevice (pe_ClientID ev) (pe_SessionID ev) ?at) (\<lambda>i. ok (Some i))) (\<lambda>_. in_partition ?at) (world_inv monthly)"
    unfolding ensureDevice_def
    by (cases "pe_ClientID ev = ''inline''")
      (simp add: hoare_def, simp del: run_ebind, rule hoare_ebind [OF device], rule hoare_ok)
  have finish: "hoare P (do { r \<leftarrow> body; _ \<leftarrow> tx_rollback; State_Monad.return r }) (\<lambda>_. world_inv monthly) (world_inv monthly)"
    if "hoare P body (\<lambda>_. world_inv monthly) (world_inv monthly)" for P and body :: "(world, 'x) eio"
    using that by (fastforce simp: hoare_def world_inv_def split: sum.splits prod.splits)
  have "hoare (world_inv monthly) (PersistPublish ev) (\<lambda>_. world_inv monthly) (world_inv monthly)"
    unfolding PersistPublish_def in_tx_def
    by (rule hoare_ebind [OF part] hoare_ebind [OF start] finish hoare_ebind [OF which] hoare_ebind [OF topic]
        hoare_ebind [OF message] hoare_ebind [OF commit] hoare_ok)+
  then show ?thesis by (simp only: hoare_keeps)
qed

lemma RecordSubscription_monthly: "keeps (world_inv monthly) (RecordSubscription ev)"
proof -
  have "keeps (world_inv monthly) (record_filters i ev subs)" for i subs
    by (induction subs) (auto intro!: monthly_rules)
  then show ?thesis unfolding RecordSubscription_def ensureDevice_def by (intro monthly_rules)
qed

lemma call_monthly: "keeps (world_inv monthly) (call ilike collate c)"
proof (cases c)
  case (CallRecordSubscription ev)
  then show ?thesis by (simp add: rel_discard preorder_invariant RecordSubscription_monthly)
next
  case (CallPersistPublish ev)
  then show ?thesis by (simp add: rel_discard preorder_invariant PersistPublish_monthly)
qed (simp_all add: method_defs Let_def split_beta,
  (intro monthly_rules read_page_keeps read_page_checked_keeps read_only_case read_only_due | assumption)+)

text \<open>
  C17. Every message lies in the partition of its month. Starting from an empty message table, whatever methods of the store run,
  every message is covered by a partition whose range contains its time stamp, and every instant still has
  room: making its partition is never refused.
\<close>

theorem messages_in_their_partition:
  assumes "db_messages (w_db w) = []" "db_partitions (w_db w) = []" "w_tx w = None"
    and "run_state (calls ilike collate cs) w = (u, w')"
  shows "(\<forall>m \<in> set (db_messages (w_db w')). \<exists>lo hi. (partition_name (m_received_at m), lo, hi) \<in> set (db_partitions (w_db w'))
        \<and> lo \<le> m_received_at m \<and> m_received_at m < hi)
    \<and> (\<exists>d. create_partition_stmt (partition_name at) (month_start at) (month_end at) uuid (w_db w') = Inr ((), d))"
proof -
  have "keeps (world_inv monthly) (calls ilike collate cs)"
    by (induction cs) (auto intro!: rel_bind rel_return preorder_invariant call_monthly)
  from keepsD [OF this assms(4)] have m: "monthly (w_db w')"
    using assms(1-3) by (simp add: world_inv_def monthly_def)
  have "\<exists>lo hi. (partition_name (m_received_at r), lo, hi) \<in> set (db_partitions (w_db w')) \<and> lo \<le> m_received_at r \<and> m_received_at r < hi"
    if "r \<in> set (db_messages (w_db w'))" for r
  proof -
    from m that obtain lo hi where p: "(partition_name (m_received_at r), lo, hi) \<in> set (db_partitions (w_db w'))"
      unfolding monthly_def by force
    with m obtain t where t: "partition_name (m_received_at r) = partition_name t" "lo = month_start t" "hi = month_end t"
      unfolding monthly_def by blast
    then show ?thesis
      using p month_bounds [of "m_received_at r"] month_of_partition [OF t(1)] by (auto simp: month_start_eq month_end_eq)
  qed
  moreover obtain d where "create_partition_stmt (partition_name at) (month_start at) (month_end at) uuid (w_db w') = Inr ((), d)"
    by (rule partition_never_refused [OF m])
  ultimately show ?thesis by blast
qed

theorem messages_in_their_partition_witness:
  "\<exists>d. create_partition_stmt (partition_name 9) (month_start 9) (month_end 9) ''u''
     (w_db (snd (run_state (calls (\<lambda>_ _. True) (\<lambda>s. s) [CallEnsureMessagePartition 5]) (start_world seed_db)))) = Inr ((), d)"
proof -
  have start: "db_messages (w_db (start_world seed_db)) = []" "db_partitions (w_db (start_world seed_db)) = []"
    "w_tx (start_world seed_db) = None" by (simp_all add: start_world_def seed_db_def)
  obtain u w' where run: "run_state (calls (\<lambda>_ _. True) (\<lambda>s. s) [CallEnsureMessagePartition 5]) (start_world seed_db) = (u, w')"
    by fastforce
  from messages_in_their_partition [OF start run] run show ?thesis by auto
qed

end
