(* ===== verification/Progress.thy ===== *)
theory Progress
  imports Ingestor Partitions
begin

text \<open>
  When the database answers. The laws of the store say what a successful call did; here is when a call succeeds: the
  statements are answered, the database is consistent, and the uuids the server draws are new.
\<close>

section \<open>Statements that cannot be refused\<close>

definition can_record :: "(nat \<Rightarrow> string) \<Rightarrow> db \<Rightarrow> bool" where
  "can_record uuids d \<longleftrightarrow> db_ok d \<and> type_exists d ''unknown''
     \<and> (\<forall>n. uuids n \<notin> device_ids d \<and> uuids n \<notin> m_id ` set (db_messages d))"

lemma device_upsert_succeeds:
  assumes "db_ok d" "type_exists d (d_type new)" "\<And>x. d_type (merge x) = d_type x"
    and "presence_of d (d_client_id new) = None \<Longrightarrow> d_id new \<notin> device_ids d"
  obtains row t where "upsert_row d_client_id d_id (\<lambda>r. type_exists d (d_type r)) merge new (db_devices d) = Inr (row, t)"
proof (cases "find (\<lambda>r. d_client_id r = d_client_id new) (db_devices d)")
  case None
  then have "d_id new \<notin> d_id ` set (db_devices d)" using assms(4) by (simp add: presence_of_def device_ids_def)
  then show ?thesis using that None assms(2) by (simp add: upsert_row_def)
next
  case (Some old)
  then have "type_exists d (d_type old)" using device_type_exists assms(1) by (auto dest: find_SomeD)
  then show ?thesis using that Some assms(3) by (simp add: upsert_row_def)
qed

lemma upsert_connected_succeeds:
  assumes "db_ok d" "type_exists d ''unknown''" "presence_of d (ce_ClientID ev) = None \<Longrightarrow> uuid \<notin> device_ids d"
  obtains row d' where "upsert_connected_stmt ev uuid d = Inr (row, d')"
proof -
  let ?new = "\<lparr>d_id = uuid, d_client_id = ce_ClientID ev, d_type = ''unknown'', d_status = DeviceStatusOnline,
           d_session_id = ce_SessionID ev, d_first_seen_at = ce_ConnectedAt ev, d_last_seen_at = ce_ConnectedAt ev,
           d_last_disconnected_at = None, d_metadata = connect_metadata ev\<rparr>"
  show ?thesis
    by (rule device_upsert_succeeds [OF assms(1), of ?new
          "\<lambda>old. old\<lparr>d_status := DeviceStatusOnline, d_session_id := ce_SessionID ev,
                     d_last_seen_at := ce_ConnectedAt ev, d_metadata := d_metadata old ++ connect_metadata ev\<rparr>"])
      (use assms(2,3) that in \<open>simp_all add: upsert_connected_stmt_def put_table_def\<close>)
qed

lemma ensure_device_succeeds:
  assumes "can_record uuids d"
  obtains i d' where "ensure_device_stmt c s at (uuids n) d = Inr (i, d')" "device_exists d' i"
    "db_messages d' = db_messages d" "db_topics d' = db_topics d"
proof -
  let ?new = "\<lparr>d_id = uuids n, d_client_id = c, d_type = ''unknown'', d_status = DeviceStatusOnline,
           d_session_id = s, d_first_seen_at = at, d_last_seen_at = at, d_last_disconnected_at = None, d_metadata = Map.empty\<rparr>"
  obtain row t where up: "upsert_row d_client_id d_id (\<lambda>r. type_exists d (d_type r))
      (\<lambda>old. old\<lparr>d_session_id := s, d_last_seen_at := at\<rparr>) ?new (db_devices d) = Inr (row, t)"
    by (rule device_upsert_succeeds [of d ?new "\<lambda>old. old\<lparr>d_session_id := s, d_last_seen_at := at\<rparr>"])
      (use assms in \<open>simp_all add: can_record_def\<close>)
  have "row \<in> set t" using upsert_row_in [OF up] by simp
  then show ?thesis
    by (intro that [of "d_id row" "d\<lparr>db_devices := t\<rparr>"])
      (simp_all add: ensure_device_stmt_def up put_table_def device_exists_def)
qed

lemma observe_topic_succeeds:
  assumes "null_or (device_exists d) dev"
  obtains d' where "observe_topic_stmt dev c topic kind q at u d = Inr ((), d')"
    "db_messages d' = db_messages d" "db_devices d' = db_devices d"
proof -
  let ?new = "\<lparr>t_device_id = dev, t_client_id = c, t_topic = topic, t_kind = kind, t_qos = uint q,
           t_first_seen_at = at, t_last_seen_at = at\<rparr>"
  let ?merge = "\<lambda>old. old\<lparr>t_device_id := dev, t_qos := uint q, t_last_seen_at := at\<rparr>"
  have absent: "topic_key ?new \<notin> topic_key ` set (db_topics d)"
    if "find (\<lambda>r. topic_key r = topic_key ?new) (db_topics d) = None"
    using that unfolding find_None_iff' by (metis imageE)
  have "\<exists>x t. upsert_row topic_key topic_key (\<lambda>r. null_or (device_exists d) (t_device_id r)) ?merge ?new (db_topics d) = Inr (x, t)"
    using assms absent
    by (cases "find (\<lambda>r. topic_key r = topic_key ?new) (db_topics d)") (simp_all add: upsert_row_def)
  then obtain x t where "upsert_row topic_key topic_key (\<lambda>r. null_or (device_exists d) (t_device_id r)) ?merge ?new (db_topics d) = Inr (x, t)"
    by blast
  then show ?thesis
    by (intro that [of "d\<lparr>db_topics := t\<rparr>"]) (simp_all add: observe_topic_stmt_def put_table_def)
qed

lemma insert_message_succeeds:
  assumes "null_or (device_exists d) dev" "u \<notin> m_id ` set (db_messages d)"
  obtains row d' where "insert_message_stmt dev ev u d = Inr (row, d')"
proof -
  have "(u, pe_ReceivedAt ev) \<notin> (\<lambda>r. (m_id r, m_received_at r)) ` set (db_messages d)"
    using assms(2) by auto
  then show ?thesis using that assms(1)
    by (simp add: insert_message_stmt_def insert_row_def put_table_def Let_def)
qed

section \<open>Storing a message\<close>

lemma exec_tx_run:
  "w_fate w (w_stmts w) = None \<Longrightarrow> w_tx w = Some t \<Longrightarrow> f (w_uuid w (w_stmts w)) t = Inr (x, d) \<Longrightarrow>
   run_state (exec_tx f) w = (Inr x, w\<lparr>w_stmts := Suc (w_stmts w), w_tx := Some d\<rparr>)"
  by (simp add: exec_tx_def Let_def)

lemma publish_device_succeeds:
  assumes "can_record (w_uuid w) t" "w_tx w = Some t" "\<And>n. w_fate w n = None"
  obtains dev t' k where "run_state (publish_device ev) w = (Inr dev, w\<lparr>w_stmts := k, w_tx := Some t'\<rparr>)"
    "null_or (device_exists t') dev" "db_messages t' = db_messages t"
proof (cases "pe_ClientID ev = ''inline''")
  case True
  then show ?thesis
    using assms(2) by (intro that [of None t "w_stmts w"]) (simp_all add: publish_device_def null_or_def)
next
  case False
  obtain i d' where st: "ensure_device_stmt (pe_ClientID ev) (pe_SessionID ev) (pe_ReceivedAt ev) (w_uuid w (w_stmts w)) t = Inr (i, d')"
      "device_exists d' i" "db_messages d' = db_messages t" "db_topics d' = db_topics t"
    by (rule ensure_device_succeeds [OF assms(1)])
  show ?thesis
    using False st exec_tx_run [where f = "ensure_device_stmt (pe_ClientID ev) (pe_SessionID ev) (pe_ReceivedAt ev)", OF assms(3,2) st(1)]
    by (intro that [of "Some i" d' "Suc (w_stmts w)"]) (simp_all add: publish_device_def ensureDevice_def null_or_def)
qed

lemma persist_body_succeeds:
  assumes "can_record (w_uuid w) t" "w_tx w = Some t" "\<And>n. w_fate w n = None"
  shows "\<exists>m w'. run_state (persist_body ev) w = (Inr m, w')"
proof -
  let ?kind = "if pe_ClientID ev = ''inline'' then TopicKindAdminPublishTopic else TopicKindPublishTopic"
  obtain dev t1 k where dev: "run_state (publish_device ev) w = (Inr dev, w\<lparr>w_stmts := k, w_tx := Some t1\<rparr>)"
    and t1: "null_or (device_exists t1) dev" "db_messages t1 = db_messages t"
    by (rule publish_device_succeeds [OF assms])
  obtain t2 where topic: "observe_topic_stmt dev (pe_ClientID ev) (pe_Topic ev) ?kind (pe_QoS ev) (pe_ReceivedAt ev) (w_uuid w k) t1 = Inr ((), t2)"
    and t2: "db_messages t2 = db_messages t1" "db_devices t2 = db_devices t1"
    by (rule observe_topic_succeeds [OF t1(1)])
  have "null_or (device_exists t2) dev" "w_uuid w (Suc k) \<notin> m_id ` set (db_messages t2)"
    using t1 t2 assms(1) by (auto simp: device_exists_def [abs_def] can_record_def)
  then obtain row t3 where msg: "insert_message_stmt dev ev (w_uuid w (Suc k)) t2 = Inr (row, t3)"
    by (rule insert_message_succeeds)
  show ?thesis
    using assms(3) topic msg
    by (simp add: persist_body_def dev exec_tx_run [where d = t2] exec_tx_run [where d = t3] tx_commit_def Let_def)
qed

lemma can_record_cong:
  "can_record uuids d \<Longrightarrow> db_ok d' \<Longrightarrow> db_devices d' = db_devices d \<Longrightarrow> db_messages d' = db_messages d \<Longrightarrow>
   db_device_types d' = db_device_types d \<Longrightarrow> can_record uuids d'"
  by (simp add: can_record_def device_ids_def type_exists_def)

lemma PersistPublish_succeeds:
  assumes "can_record (w_uuid w) (w_db w)" "monthly (w_db w)" "\<And>n. w_fate w n = None"
  shows "\<exists>m w'. run_state (PersistPublish ev) w = (Inr m, w')"
proof -
  obtain d where st: "create_partition_stmt (partition_name (pe_ReceivedAt ev)) (month_start (pe_ReceivedAt ev))
      (month_end (pe_ReceivedAt ev)) (w_uuid w (w_stmts w)) (w_db w) = Inr ((), d)"
    by (rule partition_never_refused [OF assms(2)])
  let ?w1 = "w\<lparr>w_stmts := Suc (w_stmts w), w_db := d\<rparr>"
  let ?w2 = "?w1\<lparr>w_stmts := Suc (Suc (w_stmts w)), w_tx := Some d\<rparr>"
  have part: "run_state (EnsureMessagePartition (pe_ReceivedAt ev)) w = (Inr (), ?w1)"
    using assms(3) st by (simp add: EnsureMessagePartition_def exec_pool_run)
  have "db_ok d"
    using create_partition_keeps assms(1) st unfolding stmt_keeps_def can_record_def by blast
  moreover have "db_device_types d = db_device_types (w_db w)"
    using st by (auto simp: create_partition_stmt_def split: if_splits)
  ultimately have "can_record (w_uuid w) d"
    using create_partition_frame [OF st] by (intro can_record_cong [OF assms(1)]) simp_all
  then obtain m w3 where "run_state (persist_body ev) ?w2 = (Inr m, w3)"
    using persist_body_succeeds [of ?w2 d ev] assms(3) by auto
  then have "run_state (in_tx (persist_body ev)) ?w1 = (Inr m, w3\<lparr>w_tx := None\<rparr>)"
    using assms(3) by (simp add: in_tx_def tx_begin_def Let_def)
  then show ?thesis by (simp add: PersistPublish_body part)
qed

lemma persist_succeeds:
  assumes "validate_publish maxPayload ev = Inr fmt"
    and "can_record (w_uuid w) (w_db w)" "monthly (w_db w)" "\<And>n. w_fate w n = None"
  shows "fst (run_state (PersistBeforeRoute (app_ingestor timeout maxPayload) ev) w) = Inr ()"
proof -
  let ?s = "app_ingestor timeout maxPayload"
  obtain at w1 where at: "run_state (if IsZero (pe_ReceivedAt ev) then ing_clock ?s else ret (pe_ReceivedAt ev)) w = (at, w1)"
    by (cases "run_state (if IsZero (pe_ReceivedAt ev) then ing_clock ?s else ret (pe_ReceivedAt ev)) w")
  then have w1: "w_uuid w1 = w_uuid w" "w_db w1 = w_db w" "w_fate w1 = w_fate w" by (auto split: if_splits)
  obtain m w2 where "run_state (PersistPublish (ev\<lparr>pe_PayloadFormat := fmt, pe_ReceivedAt := at\<rparr>)) w1 = (Inr m, w2)"
    using PersistPublish_succeeds [of w1 "ev\<lparr>pe_PayloadFormat := fmt, pe_ReceivedAt := at\<rparr>"] assms w1 by auto
  then have "fst (run_state (withBackpressure ?s ''publish_persist_failed''
      (ebind (ir_PersistPublish (ing_repo ?s) (ev\<lparr>pe_PayloadFormat := fmt, pe_ReceivedAt := at\<rparr>))
        (\<lambda>msg. lift (publishRealtime ?s ''message.received'' (RtMessage msg))))) w1) = Inr ()"
    by (simp add: withBackpressure_def store_ingestion_def split: prod.splits)
  then show ?thesis using persist_step [OF _ at, of fmt] assms(1) by simp
qed

end
