(* ===== verification/Broker.thy ===== *)
theory Broker
  imports Progress
begin

text \<open>
  The broker hook and server (\<open>internal/broker/hook.go\<close>, \<open>server.go\<close>). The embedded MQTT library is not part of the
  repository: its clients and packets are records of the fields the hook reads, its return codes are a datatype of their
  names, and its publish function is a parameter. The hook's two maps (sessions by client pointer, the
  limiter) are in the world.
\<close>

section \<open>The library's types\<close>

record mqtt_client =
  cl_ptr :: nat
  cl_ID :: string
  cl_Remote :: string
  cl_Listener :: string
  cl_Username :: string
  cl_ProtocolVersion :: byte

record mqtt_packet =
  pk_TopicName :: string
  pk_Payload :: string
  pk_Qos :: byte
  pk_Retain :: bool
  pk_Filters :: "(string \<times> byte) list"

datatype packet_code = ErrServerBusy | ErrClientIdentifierNotValid | ErrServerUnavailable
  | ErrPayloadFormatInvalid | ErrRejectPacket

text \<open>The numbers the library gives to the hook events.\<close>

record hook_events =
  ev_OnConnectAuthenticate :: byte
  ev_OnACLCheck :: byte
  ev_OnConnect :: byte
  ev_OnDisconnect :: byte
  ev_OnSubscribe :: byte
  ev_OnPublish :: byte

section \<open>The hook\<close>

record broker_ingestor =
  bi_EnsureConnected :: "connect_event \<Rightarrow> (world, unit) eio"
  bi_RecordSubscribe :: "subscribe_event \<Rightarrow> (world, unit) eio"
  bi_PersistBeforeRoute :: "publish_event \<Rightarrow> (world, unit) eio"
  bi_MarkDisconnected :: "disconnect_event \<Rightarrow> (world, unit) eio"

record hook =
  hk_ingestor :: broker_ingestor
  hk_clock :: "world clock"
  hk_ids :: "world id_generator"

text \<open>\<open>NewHook\<close> also creates the empty session map and the limiter of 120 connections a minute.\<close>

definition NewHook :: "world clock \<Rightarrow> world id_generator \<Rightarrow> broker_ingestor \<Rightarrow> world clock option \<Rightarrow>
    world id_generator option \<Rightarrow> (world, hook) state" where
  "NewHook system_clock random_ids ingestor clock ids = State (\<lambda>w.
     (\<lparr>hk_ingestor = ingestor, hk_clock = (case clock of None \<Rightarrow> system_clock | Some c \<Rightarrow> c),
       hk_ids = (case ids of None \<Rightarrow> random_ids | Some g \<Rightarrow> g)\<rparr>,
      w\<lparr>w_sessions := Map.empty, w_limiter := newConnectLimiter 120 minute\<rparr>))"

definition Provides :: "hook_events \<Rightarrow> byte \<Rightarrow> bool" where
  "Provides evs b \<longleftrightarrow> b \<in> {ev_OnConnectAuthenticate evs, ev_OnACLCheck evs, ev_OnConnect evs, ev_OnDisconnect evs,
     ev_OnSubscribe evs, ev_OnPublish evs}"

definition OnConnectAuthenticate :: "mqtt_client \<Rightarrow> mqtt_packet \<Rightarrow> bool" where
  "OnConnectAuthenticate cl pk = True"

definition OnACLCheck :: "mqtt_client \<Rightarrow> string \<Rightarrow> bool \<Rightarrow> bool" where
  "OnACLCheck cl topic write =
     (if write then ValidatePublishTopic topic = Inr () else ValidateSubscribeFilter topic = Inr ())"

definition limiter_Allow :: "string \<Rightarrow> time \<Rightarrow> (world, bool) state" where
  "limiter_Allow key now = State (\<lambda>w. case Allow key now (w_limiter w) of (b, l) \<Rightarrow> (b, w\<lparr>w_limiter := l\<rparr>))"

definition set_session :: "mqtt_client \<Rightarrow> string \<Rightarrow> (world, unit) state" where
  "set_session cl sid = State (\<lambda>w. ((), w\<lparr>w_sessions := (w_sessions w)(cl_ptr cl \<mapsto> sid)\<rparr>))"

definition delete_session :: "mqtt_client \<Rightarrow> (world, unit) state" where
  "delete_session cl = State (\<lambda>w. ((), w\<lparr>w_sessions := (w_sessions w)(cl_ptr cl := None)\<rparr>))"

text \<open>The zero value of a missing map entry is the empty string.\<close>

definition sessionID :: "mqtt_client \<Rightarrow> (world, string) state" where
  "sessionID cl = State (\<lambda>w. (case w_sessions w (cl_ptr cl) of None \<Rightarrow> [] | Some sid \<Rightarrow> sid, w))"

definition connect_code :: "go_error \<Rightarrow> packet_code" where
  "connect_code err = (if ErrorCode err = ''invalid_client_id'' then ErrClientIdentifierNotValid else ErrServerUnavailable)"

definition OnConnect :: "hook \<Rightarrow> mqtt_client \<Rightarrow> (world, packet_code option) state" where
  "OnConnect h cl =
     State_Monad.bind (hk_clock h) (\<lambda>now.
     let remote = (if cl_Remote cl = [] then cl_ID cl else cl_Remote cl) in
     State_Monad.bind (limiter_Allow remote now) (\<lambda>allowed.
     if \<not> allowed then ret (Some ErrServerBusy)
     else State_Monad.bind (hk_ids h) (\<lambda>sid.
          State_Monad.bind (set_session cl sid) (\<lambda>_.
          State_Monad.bind (bi_EnsureConnected (hk_ingestor h)
             \<lparr>ce_ClientID = cl_ID cl, ce_Username = cl_Username cl, ce_Remote = cl_Remote cl,
              ce_Listener = cl_Listener cl, ce_SessionID = sid, ce_ProtocolVersion = cl_ProtocolVersion cl,
              ce_ConnectedAt = now\<rparr>) (\<lambda>r.
          case r of Inr _ \<Rightarrow> ret None | Inl err \<Rightarrow> ret (Some (connect_code err)))))))"

definition OnDisconnect :: "hook \<Rightarrow> mqtt_client \<Rightarrow> go_error option \<Rightarrow> bool \<Rightarrow> (world, unit) state" where
  "OnDisconnect h cl err expire =
     State_Monad.bind (sessionID cl) (\<lambda>sid.
     State_Monad.bind (hk_clock h) (\<lambda>now.
     State_Monad.bind (discard (bi_MarkDisconnected (hk_ingestor h)
        \<lparr>de_ClientID = cl_ID cl, de_SessionID = sid, de_Reason = (case err of None \<Rightarrow> [] | Some e \<Rightarrow> Error e),
         de_ExpireSession = expire, de_DisconnectedAt = now\<rparr>)) (\<lambda>_.
     delete_session cl)))"

definition OnSubscribe :: "hook \<Rightarrow> mqtt_client \<Rightarrow> mqtt_packet \<Rightarrow> (world, mqtt_packet) state" where
  "OnSubscribe h cl pk =
     State_Monad.bind (sessionID cl) (\<lambda>sid.
     State_Monad.bind (hk_clock h) (\<lambda>now.
     State_Monad.bind (bi_RecordSubscribe (hk_ingestor h)
        \<lparr>se_ClientID = cl_ID cl, se_SessionID = sid,
         se_Subscriptions = map (\<lambda>(f, q). \<lparr>sub_Filter = f, sub_QoS = q\<rparr>) (pk_Filters pk), se_ObservedAt = now\<rparr>) (\<lambda>r.
     case r of
       Inr _ \<Rightarrow> ret pk
     | Inl _ \<Rightarrow> ret (pk\<lparr>pk_Filters := map (\<lambda>(f, q). (''#/#'', q)) (pk_Filters pk)\<rparr>))))"

definition publish_code :: "byte \<Rightarrow> go_error \<Rightarrow> packet_code" where
  "publish_code qos err =
     (if ErrorCode err = ''unsupported_payload''
      then (if 0 < qos then ErrPayloadFormatInvalid else ErrRejectPacket)
      else if is_deadline err \<or> \<not> HasPrefix (ErrorCode err) ''invalid_''
      then (if 0 < qos then ErrServerBusy else ErrRejectPacket)
      else ErrRejectPacket)"

definition OnPublish :: "hook \<Rightarrow> mqtt_client \<Rightarrow> mqtt_packet \<Rightarrow> (world, mqtt_packet \<times> packet_code option) state" where
  "OnPublish h cl pk =
     State_Monad.bind (sessionID cl) (\<lambda>sid.
     State_Monad.bind (hk_clock h) (\<lambda>now.
     State_Monad.bind (bi_PersistBeforeRoute (hk_ingestor h)
        \<lparr>pe_ClientID = cl_ID cl, pe_SessionID = sid, pe_Topic = pk_TopicName pk, pe_PayloadText = pk_Payload pk,
         pe_PayloadFormat = PayloadFormatText, pe_QoS = pk_Qos pk, pe_Retain = pk_Retain pk, pe_ReceivedAt = now\<rparr>) (\<lambda>r.
     case r of Inr _ \<Rightarrow> ret (pk, None) | Inl err \<Rightarrow> ret (pk, Some (publish_code (pk_Qos pk) err)))))"

section \<open>The server\<close>

record broker_config =
  bc_MQTTAddr :: string
  bc_StorePath :: string
  bc_MaxPayloadBytes :: int
  bc_MaxClients :: int

record broker_caps =
  cap_MaximumQos :: byte
  cap_MaximumPacketSize :: "32 word"
  cap_MaximumClients :: int

definition server_defaults :: "broker_config \<Rightarrow> broker_config" where
  "server_defaults cfg = cfg\<lparr>
     bc_MQTTAddr := (if bc_MQTTAddr cfg = [] then '':1883'' else bc_MQTTAddr cfg),
     bc_StorePath := (if bc_StorePath cfg = [] then ''data/broker-pebble'' else bc_StorePath cfg)\<rparr>"

text \<open>\<open>uint32(cfg.MaxPayloadBytes + 1024)\<close> keeps the low 32 bits.\<close>

definition server_caps :: "broker_caps \<Rightarrow> broker_config \<Rightarrow> broker_caps" where
  "server_caps library cfg =
     (let caps = library\<lparr>cap_MaximumQos := 1\<rparr>;
          caps = (if 0 < bc_MaxPayloadBytes cfg
                  then caps\<lparr>cap_MaximumPacketSize := word_of_int (wrap64 (bc_MaxPayloadBytes cfg + 1024))\<rparr> else caps)
      in if 0 < bc_MaxClients cfg then caps\<lparr>cap_MaximumClients := bc_MaxClients cfg\<rparr> else caps)"

text \<open>
  \<open>Publish\<close> hands the message to the library in a goroutine and waits for its answer or for the end of the context;
  \<open>first\<close> says which came first. The library gets the message in either case.
\<close>

definition Server_Publish :: "(string \<Rightarrow> string \<Rightarrow> bool \<Rightarrow> byte \<Rightarrow> ('w, unit) eio) \<Rightarrow> 'w context_err \<Rightarrow> 'w mqtt_publisher" where
  "Server_Publish mqtt_publish first topic payload opts =
     State_Monad.bind (mqtt_publish topic payload (opt_Retain opts) (opt_QoS opts)) (\<lambda>answer.
     State_Monad.bind first (\<lambda>ctxErr. case ctxErr of None \<Rightarrow> ret answer | Some e \<Rightarrow> fail e))"

section \<open>Running the hook\<close>

lemma run_small [simp]:
  "run_state (sessionID cl) w = (case w_sessions w (cl_ptr cl) of None \<Rightarrow> [] | Some sid \<Rightarrow> sid, w)"
  "run_state (set_session cl sid) w = ((), w\<lparr>w_sessions := (w_sessions w)(cl_ptr cl \<mapsto> sid)\<rparr>)"
  "run_state (delete_session cl) w = ((), w\<lparr>w_sessions := (w_sessions w)(cl_ptr cl := None)\<rparr>)"
  "run_state (limiter_Allow key now) w = (fst (Allow key now (w_limiter w)), w\<lparr>w_limiter := snd (Allow key now (w_limiter w))\<rparr>)"
  by (simp_all add: sessionID_def set_session_def delete_session_def limiter_Allow_def split: prod.split)

text \<open>The hook of the application.\<close>

definition app_broker_ingestor :: "int \<Rightarrow> int \<Rightarrow> broker_ingestor" where
  "app_broker_ingestor timeout maxPayload =
     \<lparr>bi_EnsureConnected = EnsureConnected (app_ingestor timeout maxPayload),
      bi_RecordSubscribe = RecordSubscribe (app_ingestor timeout maxPayload),
      bi_PersistBeforeRoute = PersistBeforeRoute (app_ingestor timeout maxPayload),
      bi_MarkDisconnected = Ingestor_MarkDisconnected (app_ingestor timeout maxPayload)\<rparr>"

definition app_hook :: "int \<Rightarrow> int \<Rightarrow> hook" where
  "app_hook timeout maxPayload = \<lparr>hk_ingestor = app_broker_ingestor timeout maxPayload, hk_clock = clock_now, hk_ids = new_id\<rparr>"

lemma app_hook_simps [simp]:
  "hk_clock (app_hook timeout maxPayload) = clock_now" "hk_ids (app_hook timeout maxPayload) = new_id"
  "bi_EnsureConnected (hk_ingestor (app_hook timeout maxPayload)) = EnsureConnected (app_ingestor timeout maxPayload)"
  "bi_RecordSubscribe (hk_ingestor (app_hook timeout maxPayload)) = RecordSubscribe (app_ingestor timeout maxPayload)"
  "bi_PersistBeforeRoute (hk_ingestor (app_hook timeout maxPayload)) = PersistBeforeRoute (app_ingestor timeout maxPayload)"
  "bi_MarkDisconnected (hk_ingestor (app_hook timeout maxPayload)) = Ingestor_MarkDisconnected (app_ingestor timeout maxPayload)"
  by (simp_all add: app_hook_def app_broker_ingestor_def)

definition session_of :: "world \<Rightarrow> mqtt_client \<Rightarrow> string" where
  "session_of w cl = (case w_sessions w (cl_ptr cl) of None \<Rightarrow> [] | Some sid \<Rightarrow> sid)"

section \<open>Publishing\<close>

definition publish_event_of :: "world \<Rightarrow> mqtt_client \<Rightarrow> mqtt_packet \<Rightarrow> publish_event" where
  "publish_event_of w cl pk =
     \<lparr>pe_ClientID = cl_ID cl, pe_SessionID = session_of w cl, pe_Topic = pk_TopicName pk, pe_PayloadText = pk_Payload pk,
      pe_PayloadFormat = PayloadFormatText, pe_QoS = pk_Qos pk, pe_Retain = pk_Retain pk,
      pe_ReceivedAt = w_clock w (w_ticks w)\<rparr>"

lemma publish_event_of_fields [simp]:
  "pe_ClientID (publish_event_of w cl pk) = cl_ID cl" "pe_SessionID (publish_event_of w cl pk) = session_of w cl"
  "pe_Topic (publish_event_of w cl pk) = pk_TopicName pk" "pe_PayloadText (publish_event_of w cl pk) = pk_Payload pk"
  "pe_QoS (publish_event_of w cl pk) = pk_Qos pk" "pe_Retain (publish_event_of w cl pk) = pk_Retain pk"
  by (simp_all add: publish_event_of_def)

lemma OnPublish_run:
  assumes "run_state (OnPublish (app_hook timeout maxPayload) cl pk) w = (out, w')"
  obtains r where
    "run_state (PersistBeforeRoute (app_ingestor timeout maxPayload) (publish_event_of w cl pk))
       (w\<lparr>w_ticks := Suc (w_ticks w)\<rparr>) = (r, w')"
    "out = (pk, case r of Inr _ \<Rightarrow> None | Inl err \<Rightarrow> Some (publish_code (pk_Qos pk) err))"
proof -
  let ?m = "PersistBeforeRoute (app_ingestor timeout maxPayload) (publish_event_of w cl pk)"
  obtain r w1 where r: "run_state ?m (w\<lparr>w_ticks := Suc (w_ticks w)\<rparr>) = (r, w1)"
    by (cases "run_state ?m (w\<lparr>w_ticks := Suc (w_ticks w)\<rparr>)")
  have "run_state (OnPublish (app_hook timeout maxPayload) cl pk) w =
      ((pk, case r of Inr _ \<Rightarrow> None | Inl err \<Rightarrow> Some (publish_code (pk_Qos pk) err)), w1)"
    using r by (simp add: OnPublish_def publish_event_of_def session_of_def split: sum.split)
  then show ?thesis using assms that r by simp
qed

lemma publish_accepted:
  assumes "validate_publish maxPayload (publish_event_of w cl pk) = Inr fmt"
    and "can_record (w_uuid w) (w_db w)" "monthly (w_db w)" "\<And>n. w_fate w n = None"
  shows "\<exists>w'. run_state (OnPublish (app_hook timeout maxPayload) cl pk) w = ((pk, None), w')"
proof -
  obtain out w' where run: "run_state (OnPublish (app_hook timeout maxPayload) cl pk) w = (out, w')"
    by (cases "run_state (OnPublish (app_hook timeout maxPayload) cl pk) w")
  then obtain r where "run_state (PersistBeforeRoute (app_ingestor timeout maxPayload) (publish_event_of w cl pk))
       (w\<lparr>w_ticks := Suc (w_ticks w)\<rparr>) = (r, w')"
    and out: "out = (pk, case r of Inr _ \<Rightarrow> None | Inl err \<Rightarrow> Some (publish_code (pk_Qos pk) err))"
    by (rule OnPublish_run)
  moreover have "fst (run_state (PersistBeforeRoute (app_ingestor timeout maxPayload) (publish_event_of w cl pk))
       (w\<lparr>w_ticks := Suc (w_ticks w)\<rparr>)) = Inr ()"
    using assms by (intro persist_succeeds) simp_all
  ultimately show ?thesis using run by simp
qed

lemma views_tick [simp]:
  "messages_view (w\<lparr>w_ticks := n\<rparr>) = messages_view w" "presence_view (w\<lparr>w_ticks := n\<rparr>) = presence_view w"
  by (simp_all add: messages_view_def presence_view_def)


section \<open>Connecting and disconnecting\<close>

definition connect_key :: "mqtt_client \<Rightarrow> string" where
  "connect_key cl = (if cl_Remote cl = [] then cl_ID cl else cl_Remote cl)"

text \<open>The world after the limiter and the identifier have been asked and the session is registered.\<close>

definition admitted :: "mqtt_client \<Rightarrow> world \<Rightarrow> world" where
  "admitted cl w = w\<lparr>w_ticks := Suc (w_ticks w), w_limiter := snd (Allow (connect_key cl) (w_clock w (w_ticks w)) (w_limiter w)),
     w_idn := Suc (w_idn w), w_sessions := (w_sessions w)(cl_ptr cl \<mapsto> w_ids w (w_idn w))\<rparr>"

definition connect_event_of :: "world \<Rightarrow> mqtt_client \<Rightarrow> connect_event" where
  "connect_event_of w cl =
     \<lparr>ce_ClientID = cl_ID cl, ce_Username = cl_Username cl, ce_Remote = cl_Remote cl, ce_Listener = cl_Listener cl,
      ce_SessionID = w_ids w (w_idn w), ce_ProtocolVersion = cl_ProtocolVersion cl, ce_ConnectedAt = w_clock w (w_ticks w)\<rparr>"

lemma OnConnect_run:
  assumes "run_state (OnConnect (app_hook timeout maxPayload) cl) w = (code, w')"
  obtains (limited) "\<not> fst (Allow (connect_key cl) (w_clock w (w_ticks w)) (w_limiter w))" "code = Some ErrServerBusy"
      "w' = w\<lparr>w_ticks := Suc (w_ticks w), w_limiter := snd (Allow (connect_key cl) (w_clock w (w_ticks w)) (w_limiter w))\<rparr>"
  | (asked) r where "fst (Allow (connect_key cl) (w_clock w (w_ticks w)) (w_limiter w))"
      "run_state (EnsureConnected (app_ingestor timeout maxPayload) (connect_event_of w cl)) (admitted cl w) = (r, w')"
      "code = (case r of Inr _ \<Rightarrow> None | Inl err \<Rightarrow> Some (connect_code err))"
proof (cases "fst (Allow (connect_key cl) (w_clock w (w_ticks w)) (w_limiter w))")
  case False
  then show ?thesis using assms limited by (simp add: OnConnect_def connect_key_def Let_def)
next
  case True
  let ?m = "EnsureConnected (app_ingestor timeout maxPayload) (connect_event_of w cl)"
  obtain r w1 where r: "run_state ?m (admitted cl w) = (r, w1)" by (cases "run_state ?m (admitted cl w)")
  have "run_state (OnConnect (app_hook timeout maxPayload) cl) w =
      (case r of Inr _ \<Rightarrow> None | Inl err \<Rightarrow> Some (connect_code err), w1)"
    using True r by (simp add: OnConnect_def connect_event_of_def admitted_def connect_key_def Let_def split: sum.split)
  then show ?thesis using assms True r asked by simp
qed

lemma OnDisconnect_run:
  assumes "run_state (OnDisconnect (app_hook timeout maxPayload) cl err expire) w = (u, w')"
  obtains r w1 where
    "run_state (Ingestor_MarkDisconnected (app_ingestor timeout maxPayload)
        \<lparr>de_ClientID = cl_ID cl, de_SessionID = session_of w cl, de_Reason = (case err of None \<Rightarrow> [] | Some e \<Rightarrow> Error e),
         de_ExpireSession = expire, de_DisconnectedAt = w_clock w (w_ticks w)\<rparr>) (w\<lparr>w_ticks := Suc (w_ticks w)\<rparr>) = (r, w1)"
    "w' = w1\<lparr>w_sessions := (w_sessions w1)(cl_ptr cl := None)\<rparr>"
proof -
  let ?m = "Ingestor_MarkDisconnected (app_ingestor timeout maxPayload)
        \<lparr>de_ClientID = cl_ID cl, de_SessionID = session_of w cl, de_Reason = (case err of None \<Rightarrow> [] | Some e \<Rightarrow> Error e),
         de_ExpireSession = expire, de_DisconnectedAt = w_clock w (w_ticks w)\<rparr>"
  obtain r w1 where r: "run_state ?m (w\<lparr>w_ticks := Suc (w_ticks w)\<rparr>) = (r, w1)"
    by (cases "run_state ?m (w\<lparr>w_ticks := Suc (w_ticks w)\<rparr>)")
  then have "w' = w1\<lparr>w_sessions := (w_sessions w1)(cl_ptr cl := None)\<rparr>"
    using assms by (simp add: OnDisconnect_def session_of_def)
  then show ?thesis using that r by simp
qed

lemma views_admitted [simp]:
  "messages_view (admitted cl w) = messages_view w" "presence_view (admitted cl w) = presence_view w"
  "w_ids (admitted cl w) = w_ids w" "w_idn (admitted cl w) = Suc (w_idn w)"
  "w_sessions (admitted cl w) = (w_sessions w)(cl_ptr cl \<mapsto> w_ids w (w_idn w))"
  by (simp_all add: messages_view_def presence_view_def admitted_def)

lemma views_sessions [simp]:
  "messages_view (w\<lparr>w_sessions := s\<rparr>) = messages_view w" "presence_view (w\<lparr>w_sessions := s\<rparr>) = presence_view w"
  "messages_view (w\<lparr>w_limiter := l\<rparr>) = messages_view w" "presence_view (w\<lparr>w_limiter := l\<rparr>) = presence_view w"
  by (simp_all add: messages_view_def presence_view_def)

text \<open>The hook's own state is not touched by the ingestor.\<close>

definition hook_state :: "world \<Rightarrow> (nat \<Rightarrow> string) \<times> nat \<times> (nat \<rightharpoonup> string) \<times> connect_limiter" where
  "hook_state w = (w_ids w, w_idn w, w_sessions w, w_limiter w)"

lemma hook_state_frame: "leaves outside_db m \<Longrightarrow> leaves hook_state m"
  by (simp add: state_io_rel_def outside_db_def hook_state_def)

lemma app_ingestor_quiet: "quiet hook_state (app_ingestor timeout maxPayload)"
proof -
  have "leaves hook_state (UpsertAlert a)" for a
    unfolding UpsertAlert_def by (intro hook_state_frame exec_pool_outside)
  then show ?thesis
    unfolding calm_def
    by (auto intro!: preorder_frame clock_leaves ctx_leaves hub_leaves simp: hook_state_def store_alerts_def simp del: prod.inject)
qed

lemma repository_hook_state:
  "leaves hook_state (UpsertConnected ce)" "leaves hook_state (PersistPublish pe)" "leaves hook_state (MarkDisconnected de)"
  unfolding UpsertConnected_def PersistPublish_def MarkDisconnected_def EnsureMessagePartition_def ensureDevice_def
  by (intro hook_state_frame io_rules preorder_frame exec_pool_outside tx_outside in_tx_outside)+

lemma RecordSubscription_hook_state: "leaves hook_state (RecordSubscription se)"
proof -
  have "leaves outside_db (record_filters i se subs)" for i subs
    by (induction subs) (auto intro!: io_rules preorder_frame tx_outside)
  then show ?thesis
    unfolding RecordSubscription_def ensureDevice_def
    by (intro hook_state_frame io_rules preorder_frame tx_outside in_tx_outside)
qed

lemma ingestor_hook_state:
  "leaves hook_state (EnsureConnected (app_ingestor timeout maxPayload) ce)"
  "leaves hook_state (RecordSubscribe (app_ingestor timeout maxPayload) se)"
  "leaves hook_state (PersistBeforeRoute (app_ingestor timeout maxPayload) pe)"
  "leaves hook_state (Ingestor_MarkDisconnected (app_ingestor timeout maxPayload) de)"
  by (rule ingestor_rel [OF app_ingestor_quiet],
      simp add: store_ingestion_def repository_hook_state RecordSubscription_hook_state)+

lemma connect_registers:
  assumes "run_state (OnConnect (app_hook timeout maxPayload) cl) w = (None, w')"
  shows "w_ids w' = w_ids w \<and> w_idn w' = Suc (w_idn w) \<and> w_sessions w' = (w_sessions w)(cl_ptr cl \<mapsto> w_ids w (w_idn w))"
  using assms
proof (cases rule: OnConnect_run)
  case (asked r)
  from leavesD [OF ingestor_hook_state(1) asked(2)] show ?thesis by (simp add: hook_state_def)
qed simp

lemma connect_presence:
  assumes "run_state (OnConnect (app_hook timeout maxPayload) cl) w = (code, w')"
  shows "presence_view w' = (if code = None then (presence_view w)(cl_ID cl \<mapsto> (DeviceStatusOnline, w_ids w (w_idn w)))
      else presence_view w)"
  using assms
proof (cases rule: OnConnect_run)
  case limited
  then show ?thesis by (simp add: presence_view_def)
next
  case (asked r)
  show ?thesis
    by (rule app.connect_run [OF asked(2)]) (use asked(3) in \<open>auto simp: connect_event_of_def\<close>)
qed

lemma connect_invalid:
  assumes "run_state (OnConnect (app_hook timeout maxPayload) cl) w = (code, w')"
    and "ValidateClientID (cl_ID cl) \<noteq> Inr ()" "fst (Allow (connect_key cl) (w_clock w (w_ticks w)) (w_limiter w))"
  shows "code = Some ErrClientIdentifierNotValid"
proof -
  from assms(2) obtain e where e: "ValidateClientID (cl_ID cl) = Inl e" by (cases "ValidateClientID (cl_ID cl)") auto
  then have "ErrorCode e = ''invalid_client_id''"
    by (auto simp: ValidateClientID_def InvalidInput_def ErrorCode_def split: if_splits)
  with assms(1,3) show ?thesis
    by (auto simp: e EnsureConnected_def connect_event_of_def connect_code_def elim!: OnConnect_run)
qed

lemma connect_valid:
  assumes "run_state (OnConnect (app_hook timeout maxPayload) cl) w = (None, w')"
  shows "ValidateClientID (cl_ID cl) = Inr ()"
proof -
  have "fst (Allow (connect_key cl) (w_clock w (w_ticks w)) (w_limiter w))" using assms by (auto elim: OnConnect_run)
  with connect_invalid [OF assms] show ?thesis by blast
qed

lemma hook_state_keeps:
  "keeps (world_inv I) (sessionID cl)" "keeps (world_inv I) (set_session cl sid)" "keeps (world_inv I) (delete_session cl)"
  "keeps (world_inv I) (limiter_Allow key now)"
  by (simp_all add: state_io_rel_def world_inv_def)

text \<open>
  C20. Connecting. A connection is accepted only when the limiter lets it through and the device is recorded: the device is
  then online under a session id of its own, and the hook knows that session. A refused connection changes no
  device; the limiter's refusal is "server busy" and draws no session id, an invalid client id is reported as such.
\<close>

theorem connect_records_session:
  assumes "run_state (OnConnect (app_hook timeout maxPayload) cl) w = (code, w')"
  shows "(if code = None
      then session_of w' cl = w_ids w (w_idn w) \<and> w_idn w' = Suc (w_idn w)
        \<and> presence_view w' = (presence_view w)(cl_ID cl \<mapsto> (DeviceStatusOnline, session_of w' cl))
        \<and> ValidateClientID (cl_ID cl) = Inr ()
      else presence_view w' = presence_view w)
    \<and> (\<not> fst (Allow (connect_key cl) (w_clock w (w_ticks w)) (w_limiter w)) \<longrightarrow>
        code = Some ErrServerBusy \<and> w_idn w' = w_idn w \<and> w_sessions w' = w_sessions w)
    \<and> (fst (Allow (connect_key cl) (w_clock w (w_ticks w)) (w_limiter w)) \<longrightarrow> ValidateClientID (cl_ID cl) \<noteq> Inr () \<longrightarrow>
        code = Some ErrClientIdentifierNotValid)"
proof (intro conjI impI)
  show "if code = None
      then session_of w' cl = w_ids w (w_idn w) \<and> w_idn w' = Suc (w_idn w)
        \<and> presence_view w' = (presence_view w)(cl_ID cl \<mapsto> (DeviceStatusOnline, session_of w' cl))
        \<and> ValidateClientID (cl_ID cl) = Inr ()
      else presence_view w' = presence_view w"
    using connect_presence [OF assms] connect_registers connect_valid assms by (auto simp: session_of_def)
next
  assume limited: "\<not> fst (Allow (connect_key cl) (w_clock w (w_ticks w)) (w_limiter w))"
  then show "code = Some ErrServerBusy" "w_idn w' = w_idn w" "w_sessions w' = w_sessions w"
    using assms by (auto elim: OnConnect_run)
next
  assume "fst (Allow (connect_key cl) (w_clock w (w_ticks w)) (w_limiter w))" "ValidateClientID (cl_ID cl) \<noteq> Inr ()"
  with connect_invalid assms show "code = Some ErrClientIdentifierNotValid" by blast
qed

text \<open>Two connections of the same device, for the examples.\<close>

definition first_client :: mqtt_client where
  "first_client = \<lparr>cl_ptr = 1, cl_ID = ''d'', cl_Remote = [], cl_Listener = [], cl_Username = [],
     cl_ProtocolVersion = 4\<rparr>"

definition second_client :: mqtt_client where
  "second_client = first_client\<lparr>cl_ptr := 2\<rparr>"

theorem connect_records_session_witness:
  "\<exists>w'. run_state (OnConnect (app_hook 0 100) first_client) (start_world seed_db) = (None, w')
     \<and> session_of w' first_client = ''n0'' \<and> presence_view w' ''d'' = Some (DeviceStatusOnline, ''n0'')"
proof -
  have "fst (run_state (OnConnect (app_hook 0 100) first_client) (start_world seed_db)) = None" by code_simp
  then obtain w' where run: "run_state (OnConnect (app_hook 0 100) first_client) (start_world seed_db) = (None, w')"
    by (metis prod.collapse)
  have "w_ids (start_world seed_db) (w_idn (start_world seed_db)) = ''n0''" "cl_ID first_client = ''d''" by code_simp+
  with connect_records_session [OF run] run show ?thesis by auto
qed

text \<open>When the database answers and is consistent, a permitted connection is accepted.\<close>

lemma connect_accepted:
  assumes "fst (Allow (connect_key cl) (w_clock w (w_ticks w)) (w_limiter w))" "ValidateClientID (cl_ID cl) = Inr ()"
    and "db_ok (w_db w)" "type_exists (w_db w) ''unknown''" "w_fate w (w_stmts w) = None"
    and "presence_view w (cl_ID cl) = None \<Longrightarrow> w_uuid w (w_stmts w) \<notin> device_ids (w_db w)"
    and "w_clock w (w_ticks w) \<noteq> 0"
  shows "fst (run_state (OnConnect (app_hook timeout maxPayload) cl) w) = None"
proof -
  let ?ev = "connect_event_of w cl"
  have ev: "ce_ClientID ?ev = cl_ID cl" "ce_ConnectedAt ?ev = w_clock w (w_ticks w)" "?ev\<lparr>ce_ConnectedAt := w_clock w (w_ticks w)\<rparr> = ?ev"
    by (simp_all add: connect_event_of_def)
  have fresh: "w_uuid w (w_stmts w) \<notin> device_ids (w_db w)" if "presence_of (w_db w) (ce_ClientID ?ev) = None"
    using assms(6) that unfolding ev presence_view_def by blast
  obtain row d' where st: "upsert_connected_stmt ?ev (w_uuid w (w_stmts w)) (w_db w) = Inr (row, d')"
    using upsert_connected_succeeds [OF assms(3,4) fresh] by blast
  have adm: "w_db (admitted cl w) = w_db w" "w_uuid (admitted cl w) = w_uuid w" "w_stmts (admitted cl w) = w_stmts w"
    "w_fate (admitted cl w) = w_fate w" by (simp_all add: admitted_def)
  have "fst (run_state (UpsertConnected ?ev) (admitted cl w)) = Inr (scanDevice row)"
    using st assms(5) by (simp add: UpsertConnected_def exec_pool_run adm)
  then obtain w1 where up: "run_state (UpsertConnected ?ev) (admitted cl w) = (Inr (scanDevice row), w1)"
    by (metis prod.collapse)
  then have "fst (run_state (EnsureConnected (app_ingestor timeout maxPayload) ?ev) (admitted cl w)) = Inr ()"
    using assms(2,7) up
    by (simp add: ev EnsureConnected_def withBackpressure_def IsZero_def store_ingestion_def split: prod.splits)
  then have "run_state (EnsureConnected (app_ingestor timeout maxPayload) ?ev) (admitted cl w) =
      (Inr (), snd (run_state (EnsureConnected (app_ingestor timeout maxPayload) ?ev) (admitted cl w)))"
    by (simp add: prod_eq_iff)
  with assms(1) show ?thesis
    by (cases "run_state (OnConnect (app_hook timeout maxPayload) cl) w") (auto elim!: OnConnect_run)
qed

text \<open>What the end of a connection does to the device.\<close>

lemma disconnect_effect:
  assumes "run_state (OnDisconnect (app_hook timeout maxPayload) cl err expire) w = (u, w')"
  shows "messages_view w' = messages_view w"
    and "presence_view w' = presence_view w
      \<or> presence_view w' = (presence_view w)(cl_ID cl := gone (session_of w cl) (presence_view w (cl_ID cl)))"
    and "w_sessions w' = (w_sessions w)(cl_ptr cl := None)"
proof -
  obtain r w1 where r: "run_state (Ingestor_MarkDisconnected (app_ingestor timeout maxPayload)
        \<lparr>de_ClientID = cl_ID cl, de_SessionID = session_of w cl, de_Reason = (case err of None \<Rightarrow> [] | Some e \<Rightarrow> Error e),
         de_ExpireSession = expire, de_DisconnectedAt = w_clock w (w_ticks w)\<rparr>) (w\<lparr>w_ticks := Suc (w_ticks w)\<rparr>) = (r, w1)"
    and w': "w' = w1\<lparr>w_sessions := (w_sessions w1)(cl_ptr cl := None)\<rparr>"
    by (rule OnDisconnect_run [OF assms])
  show "messages_view w' = messages_view w"
    "presence_view w' = presence_view w
      \<or> presence_view w' = (presence_view w)(cl_ID cl := gone (session_of w cl) (presence_view w (cl_ID cl)))"
    using app.disconnect_run(1,2) [OF r] w' by simp_all
  have "hook_state w1 = hook_state (w\<lparr>w_ticks := Suc (w_ticks w)\<rparr>)" by (rule leavesD [OF ingestor_hook_state(4) r])
  then show "w_sessions w' = (w_sessions w)(cl_ptr cl := None)" using w' by (simp add: hook_state_def)
qed


text \<open>
  C34. A well-formed connection gets in. When the limiter allows it, the client id is valid, and the statement that records it
  is answered by a consistent database, the connection is accepted and its device online.
\<close>

theorem valid_connection_accepted:
  assumes "fst (Allow (connect_key cl) (w_clock w (w_ticks w)) (w_limiter w))" "ValidateClientID (cl_ID cl) = Inr ()"
    and "db_ok (w_db w)" "type_exists (w_db w) ''unknown''" "w_fate w (w_stmts w) = None"
    and "presence_view w (cl_ID cl) = None \<Longrightarrow> w_uuid w (w_stmts w) \<notin> device_ids (w_db w)"
    and "w_clock w (w_ticks w) \<noteq> 0"
  shows "\<exists>w'. run_state (OnConnect (app_hook timeout maxPayload) cl) w = (None, w')
      \<and> presence_view w' (cl_ID cl) = Some (DeviceStatusOnline, w_ids w (w_idn w))"
proof -
  obtain w' where run: "run_state (OnConnect (app_hook timeout maxPayload) cl) w = (None, w')"
    using connect_accepted [OF assms] by (metis prod.collapse)
  then show ?thesis using connect_presence [OF run] by simp
qed

text \<open>The world after the first client has connected to the seed database.\<close>

definition connected_world :: world where
  "connected_world = snd (run_state (OnConnect (app_hook 0 100) first_client) (start_world seed_db))"

lemma first_connect: "run_state (OnConnect (app_hook 0 100) first_client) (start_world seed_db) = (None, connected_world)"
proof -
  have "fst (run_state (OnConnect (app_hook 0 100) first_client) (start_world seed_db)) = None" by code_simp
  then show ?thesis by (metis connected_world_def prod.collapse)
qed

definition surroundings :: "world \<Rightarrow> (nat \<Rightarrow> go_error option) \<times> (nat \<Rightarrow> time) \<times> device_type_dto list" where
  "surroundings w = (w_fate w, w_clock w, db_device_types (w_db w))"

lemma connect_surroundings:
  assumes "run_state (OnConnect (app_hook timeout maxPayload) cl) w = (code, w')"
  shows "surroundings w' = surroundings w"
proof -
  have alert: "leaves surroundings (UpsertAlert a)" for a
    by (auto simp: state_io_rel_def UpsertAlert_def exec_pool_def Let_def upsert_alert_stmt_def put_table_ok surroundings_def
        split: option.split sum.split)
  have q: "quiet surroundings (app_ingestor timeout maxPayload)"
    using alert unfolding calm_def
    by (auto intro!: preorder_frame clock_leaves ctx_leaves hub_leaves simp: surroundings_def store_alerts_def simp del: prod.inject)
  have "leaves surroundings (UpsertConnected ce)" for ce
    unfolding UpsertConnected_def
    by (intro io_rules preorder_frame)
      (auto simp: state_io_rel_def exec_pool_def Let_def upsert_connected_stmt_def put_table_ok surroundings_def
        split: option.split sum.split)
  then have "leaves surroundings (EnsureConnected (app_ingestor timeout maxPayload) ce)" for ce
    by (intro ingestor_rel(1) [OF q]) (simp add: store_ingestion_def)
  note ensure = this
  from assms show ?thesis
  proof (cases rule: OnConnect_run)
    case limited
    then show ?thesis by (simp add: surroundings_def)
  next
    case (asked r)
    from leavesD [OF ensure asked(2)] show ?thesis by (simp add: surroundings_def admitted_def)
  qed
qed

lemma connected_facts:
  "w_fate connected_world n = None" "w_clock connected_world n \<noteq> 0" "type_exists (w_db connected_world) ''unknown''"
  "w_limiter connected_world = snd (Allow ''d'' second (newConnectLimiter 120 minute))"
  "presence_view connected_world ''d'' = Some (DeviceStatusOnline, ''n0'')" "w_ids connected_world = w_ids (start_world seed_db)"
  "w_idn connected_world = 1"
proof -
  have "surroundings connected_world = surroundings (start_world seed_db)"
    by (rule connect_surroundings [OF first_connect])
  then show "w_fate connected_world n = None" "w_clock connected_world n \<noteq> 0" "type_exists (w_db connected_world) ''unknown''"
    by (auto simp: surroundings_def start_world_def seed_db_def type_exists_def second_def)
  have "cl_ID first_client = ''d''" "w_ids (start_world seed_db) (w_idn (start_world seed_db)) = ''n0''"
    by (simp_all add: first_client_def start_world_def) code_simp
  then show "presence_view connected_world ''d'' = Some (DeviceStatusOnline, ''n0'')"
    using connect_presence [OF first_connect] by simp
  show "w_ids connected_world = w_ids (start_world seed_db)" "w_idn connected_world = 1"
    using connect_registers [OF first_connect] by (simp_all add: start_world_def)
  from first_connect show "w_limiter connected_world = snd (Allow ''d'' second (newConnectLimiter 120 minute))"
  proof (cases rule: OnConnect_run)
    case (asked r)
    from leavesD [OF ingestor_hook_state(1) asked(2)] show ?thesis
      by (simp add: hook_state_def admitted_def connect_key_def first_client_def start_world_def)
  qed simp
qed

lemma connect_keeps: "keeps (world_inv db_ok) (OnConnect (app_hook timeout maxPayload) cl)"
  unfolding OnConnect_def Let_def
  by (intro io_rules preorder_invariant) (simp_all add: runtime_keeps app_ingestor_keeps hook_state_keeps)

lemma second_connect:
  obtains w2 where "run_state (OnConnect (app_hook 0 100) second_client) connected_world = (None, w2)"
proof -
  have "world_inv db_ok connected_world"
    by (rule keepsD [OF connect_keeps first_connect]) (simp add: world_inv_def start_world_def seed_db_ok)
  then have "db_ok (w_db connected_world)" by (simp add: world_inv_def)
  moreover have "connect_key second_client = ''d''" "cl_ID second_client = ''d''" "ValidateClientID ''d'' = Inr ()"
    by code_simp+
  moreover have "fst (Allow ''d'' (w_clock connected_world (w_ticks connected_world)) (w_limiter connected_world))"
    unfolding connected_facts(4)
    using length_filter_le [of "\<lambda>h. w_clock connected_world (w_ticks connected_world) - minute < h" "[second]"]
    by (simp add: Allow_def Let_def newConnectLimiter_def hits_of_def compact_filter minute_def split: if_splits)
  ultimately have "fst (run_state (OnConnect (app_hook 0 100) second_client) connected_world) = None"
    using connected_facts by (intro connect_accepted) simp_all
  then show ?thesis using that by (metis prod.collapse)
qed

theorem valid_connection_accepted_witness:
  "\<exists>w'. run_state (OnConnect (app_hook 0 100) first_client) (start_world seed_db) = (None, w')
     \<and> presence_view w' ''d'' = Some (DeviceStatusOnline, ''n0'')"
proof -
  let ?w = "start_world seed_db"
  have "fst (Allow (connect_key first_client) (w_clock ?w (w_ticks ?w)) (w_limiter ?w))"
    and ids: "w_ids ?w (w_idn ?w) = ''n0''" "cl_ID first_client = ''d''"
    and "ValidateClientID (cl_ID first_client) = Inr ()" "type_exists (w_db ?w) ''unknown''"
    by code_simp+
  moreover have "w_fate ?w n = None" "w_clock ?w n \<noteq> 0" "db_ok (w_db ?w)" "w_uuid ?w n \<notin> device_ids (w_db ?w)" for n
    using seed_db_ok by (simp_all add: start_world_def second_def device_ids_def) (simp add: seed_db_def)
  ultimately show ?thesis using valid_connection_accepted [of first_client ?w] unfolding ids by blast
qed


section \<open>Late messages of a superseded connection\<close>

lemma disconnect_recorded:
  assumes "run_state (OnDisconnect (app_hook timeout maxPayload) cl err expire) w = (u, w')"
    and "w_fate w (w_stmts w) = None" "cl_ID cl \<noteq> []" "w_clock w (w_ticks w) \<noteq> 0"
  shows "presence_view w' = (presence_view w)(cl_ID cl := gone (session_of w cl) (presence_view w (cl_ID cl)))"
proof -
  let ?ev = "\<lparr>de_ClientID = cl_ID cl, de_SessionID = session_of w cl, de_Reason = (case err of None \<Rightarrow> [] | Some e \<Rightarrow> Error e),
         de_ExpireSession = expire, de_DisconnectedAt = w_clock w (w_ticks w)\<rparr>"
  obtain r w1 where r: "run_state (Ingestor_MarkDisconnected (app_ingestor timeout maxPayload) ?ev)
        (w\<lparr>w_ticks := Suc (w_ticks w)\<rparr>) = (r, w1)"
    and w': "w' = w1\<lparr>w_sessions := (w_sessions w1)(cl_ptr cl := None)\<rparr>"
    by (rule OnDisconnect_run [OF assms(1)])
  have "fst (run_state (MarkDisconnected ?ev) (w\<lparr>w_ticks := Suc (w_ticks w)\<rparr>)) = Inr ()"
    using assms(2) by (simp add: MarkDisconnected_def exec_pool_run mark_disconnected_stmt_def)
  then have "r = Inr ()"
    using r assms(3,4)
    by (auto simp: Ingestor_MarkDisconnected_def Let_def IsZero_def store_ingestion_def split: prod.splits sum.splits)
  from app.disconnect_run(3) [OF r this] show ?thesis using w' assms(3) by simp
qed

text \<open>
  C33. A well-formed message gets through. When topic, QoS, payload and client id are valid and the statements are answered
  by a consistent, monthly partitioned database, the packet is let through unchanged.
\<close>

theorem valid_publish_stored:
  assumes "validate_publish maxPayload (publish_event_of w cl pk) = Inr fmt"
    and "can_record (w_uuid w) (w_db w)" "monthly (w_db w)" "\<forall>n. w_fate w n = None"
  shows "\<exists>w'. run_state (OnPublish (app_hook timeout maxPayload) cl pk) w = ((pk, None), w')"
  using publish_accepted [of maxPayload w cl pk fmt timeout] assms by simp

text \<open>
  C39. A superseded connection can still end its successor's presence. A message that the old connection of a device gets
  through after the new one has connected puts the old session back on the device's row; the old connection's disconnect
  then marks the device offline although the new connection is still there.
\<close>

theorem late_publish_ends_successor:
  assumes "presence_view w (cl_ID old_cl) = Some (DeviceStatusOnline, session_of w new_cl)"
    and "run_state (OnPublish (app_hook timeout maxPayload) old_cl pk) w = ((pk', None), w1)"
    and "run_state (OnDisconnect (app_hook timeout maxPayload) old_cl err expire) w1 = (u, w2)"
    and "cl_ID old_cl \<notin> {[], ''inline''}" "cl_ptr old_cl \<noteq> cl_ptr new_cl"
    and "w_fate w1 (w_stmts w1) = None" "w_clock w1 (w_ticks w1) \<noteq> 0"
  shows "presence_view w2 (cl_ID old_cl) = Some (DeviceStatusOffline, session_of w old_cl)
    \<and> session_of w2 new_cl = session_of w new_cl"
proof -
  obtain r where run: "run_state (PersistBeforeRoute (app_ingestor timeout maxPayload) (publish_event_of w old_cl pk))
       (w\<lparr>w_ticks := Suc (w_ticks w)\<rparr>) = (r, w1)" and r: "r = Inr ()"
    by (rule OnPublish_run [OF assms(2)]) (auto split: sum.splits)
  have sessions: "w_sessions w1 = w_sessions w"
    using leavesD [OF ingestor_hook_state(3) run] by (simp add: hook_state_def)
  have "presence_view w1 (cl_ID old_cl) = Some (DeviceStatusOnline, session_of w old_cl)"
    by (rule app.persist_run [OF run]) (use r assms(1,4) in \<open>auto simp: seen_def\<close>)
  moreover have "session_of w1 old_cl = session_of w old_cl" using sessions by (simp add: session_of_def)
  ultimately have "presence_view w2 (cl_ID old_cl) = Some (DeviceStatusOffline, session_of w old_cl)"
    using disconnect_recorded [OF assms(3,6) _ assms(7)] assms(4) by (simp add: gone_def)
  moreover have "session_of w2 new_cl = session_of w new_cl"
    using disconnect_effect(3) [OF assms(3)] sessions assms(5) by (simp add: session_of_def)
  ultimately show ?thesis by simp
qed

text \<open>A device whose row belongs to the second connection while the first is still open.\<close>

definition superseded_db :: db where
  "superseded_db = seed_db\<lparr>db_devices := [\<lparr>d_id = ''i'', d_client_id = ''d'', d_type = ''unknown'',
      d_status = DeviceStatusOnline, d_session_id = ''b'', d_first_seen_at = 1, d_last_seen_at = 1,
      d_last_disconnected_at = None, d_metadata = Map.empty\<rparr>]\<rparr>"

definition superseded_world :: world where
  "superseded_world = (start_world superseded_db)\<lparr>w_sessions := [1 \<mapsto> ''a'', 2 \<mapsto> ''b'']\<rparr>"

definition hello_packet :: mqtt_packet where
  "hello_packet = \<lparr>pk_TopicName = ''t'', pk_Payload = ''1'', pk_Qos = 1, pk_Retain = False, pk_Filters = [(''t'', 1)]\<rparr>"

lemma superseded_facts:
  "can_record (w_uuid superseded_world) (w_db superseded_world)" "monthly (w_db superseded_world)" "w_fate superseded_world n = None"
  "w_clock superseded_world n \<noteq> 0" "session_of superseded_world first_client = ''a''" "session_of superseded_world second_client = ''b''"
  "presence_view superseded_world ''d'' = Some (DeviceStatusOnline, ''b'')"
  "validate_publish 100 (publish_event_of superseded_world first_client hello_packet) =
     Inr (if json_unmarshals ''1'' then PayloadFormatJSON else PayloadFormatText)"
proof -
  have world: "w_db superseded_world = superseded_db" "w_uuid superseded_world = (\<lambda>n. ''x'' @ Itoa (int n))"
    "w_fate superseded_world n = None" "w_clock superseded_world n = int n * second + second"
    by (simp_all add: superseded_world_def start_world_def)
  have devices: "devices_ok (dt_Code ` set (db_device_types seed_db)) (db_devices superseded_db)"
    by (simp add: superseded_db_def seed_db_def devices_ok_def)
  have "db_ok superseded_db"
    unfolding superseded_db_def
    by (rule db_ok_devices [OF seed_db_ok]) (use devices in \<open>simp_all add: superseded_db_def owners_def seed_db_def\<close>)
  moreover have "type_exists superseded_db ''unknown''" "device_ids superseded_db = {''i''}" "db_messages superseded_db = []"
    by (simp_all add: superseded_db_def seed_db_def type_exists_def device_ids_def)
  ultimately show "can_record (w_uuid superseded_world) (w_db superseded_world)" by (simp add: can_record_def world)
  show "monthly (w_db superseded_world)" by (simp add: world superseded_db_def seed_db_def monthly_def)
  show "w_fate superseded_world n = None" "w_clock superseded_world n \<noteq> 0" by (simp_all add: world second_def)
  show "session_of superseded_world first_client = ''a''" "session_of superseded_world second_client = ''b''"
    by (simp_all add: superseded_world_def session_of_def first_client_def second_client_def)
  show "presence_view superseded_world ''d'' = Some (DeviceStatusOnline, ''b'')"
    by (simp add: world presence_view_def presence_of_def superseded_db_def)
  have "ValidateClientID ''d'' = Inr ()" "ValidatePublishTopic ''t'' = Inr ()" "ValidateQoS 1 = Inr ()"
    by code_simp+
  moreover have "valid_string ''1''"
    by (simp add: valid_string_def bytes_def decode_all.simps decode_rune_def)
  ultimately show "validate_publish 100 (publish_event_of superseded_world first_client hello_packet) =
     Inr (if json_unmarshals ''1'' then PayloadFormatJSON else PayloadFormatText)"
    by (simp add: validate_publish_def ValidateTextPayload_def first_client_def hello_packet_def)
qed

theorem valid_publish_stored_witness:
  "\<exists>w'. run_state (OnPublish (app_hook 0 100) first_client hello_packet) superseded_world = ((hello_packet, None), w')"
  using valid_publish_stored [OF superseded_facts(8,1,2)] superseded_facts(3) by blast

lemma superseded_publish:
  obtains w1 where "run_state (OnPublish (app_hook 0 100) first_client hello_packet) superseded_world = ((hello_packet, None), w1)"
  using publish_accepted [OF superseded_facts(8,1,2,3)] by blast


text \<open>The environment's answers are not the ingestor's to change.\<close>

lemma publish_environment:
  assumes "run_state (OnPublish (app_hook timeout maxPayload) cl pk) w = (out, w')"
  shows "w_fate w' = w_fate w" "w_clock w' = w_clock w"
proof -
  define env where "env w = (w_fate w, w_clock w)" for w :: world
  have frame: "leaves outside_db m \<Longrightarrow> leaves env m" for m :: "(world, 'x) state"
    by (simp add: state_io_rel_def outside_db_def env_def)
  have "leaves env (UpsertAlert a)" for a
    unfolding UpsertAlert_def by (rule frame, rule exec_pool_outside)
  then have q: "quiet env (app_ingestor timeout maxPayload)"
    unfolding calm_def
    by (auto intro!: preorder_frame clock_leaves ctx_leaves hub_leaves simp: env_def store_alerts_def simp del: prod.inject)
  have "leaves env (PersistPublish ev)" for ev
    unfolding PersistPublish_def EnsureMessagePartition_def ensureDevice_def
    by (rule frame) (intro io_rules preorder_frame exec_pool_outside tx_outside in_tx_outside)
  then have "leaves env (PersistBeforeRoute (app_ingestor timeout maxPayload) ev)" for ev
    by (intro ingestor_rel(3) [OF q]) (simp add: store_ingestion_def)
  note persist = this
  obtain r where "run_state (PersistBeforeRoute (app_ingestor timeout maxPayload) (publish_event_of w cl pk))
       (w\<lparr>w_ticks := Suc (w_ticks w)\<rparr>) = (r, w')" by (rule OnPublish_run [OF assms])
  from leavesD [OF persist this] have "env w' = env w" by (simp add: env_def)
  then show "w_fate w' = w_fate w" "w_clock w' = w_clock w" by (simp_all add: env_def)
qed

theorem late_publish_ends_successor_witness:
  "\<exists>w1 w2. run_state (OnPublish (app_hook 0 100) first_client hello_packet) superseded_world = ((hello_packet, None), w1)
     \<and> run_state (OnDisconnect (app_hook 0 100) first_client None False) w1 = ((), w2)
     \<and> presence_view w2 ''d'' = Some (DeviceStatusOffline, ''a'') \<and> session_of w2 second_client = ''b''"
proof -
  obtain w1 where pub: "run_state (OnPublish (app_hook 0 100) first_client hello_packet) superseded_world = ((hello_packet, None), w1)"
    by (rule superseded_publish)
  obtain w2 where disc: "run_state (OnDisconnect (app_hook 0 100) first_client None False) w1 = ((), w2)"
    by (metis prod.collapse unit.exhaust)
  have "cl_ID first_client = ''d''" "cl_ptr first_client \<noteq> cl_ptr second_client"
    by (simp_all add: first_client_def second_client_def)
  then show ?thesis
    using late_publish_ends_successor [OF _ pub disc, of second_client] superseded_facts(3-7) publish_environment [OF pub] pub disc
    by simp
qed

section \<open>Subscribing\<close>



end
