(* ===== verification/Publishing.thy ===== *)
theory Publishing
  imports Broker
begin

text \<open>
  The publish service (\<open>internal/service/publish.go\<close>): an administrator's message is validated, its command is recorded
  as pending, the broker is handed the message, and the command is marked with the outcome.
\<close>

section \<open>State and operations\<close>

record 'w publish_service =
  ps_commands :: "'w publish_command_repository"
  ps_topics :: "'w topic_repository option"
  ps_publisher :: "'w mqtt_publisher"
  ps_clock :: "'w clock"
  ps_ids :: "'w id_generator"
  ps_maxPayload :: int
  ps_inlineClient :: string

definition NewPublishService :: "'w clock \<Rightarrow> 'w id_generator \<Rightarrow> 'w publish_command_repository \<Rightarrow> 'w topic_repository option \<Rightarrow>
    'w mqtt_publisher \<Rightarrow> 'w clock option \<Rightarrow> 'w id_generator option \<Rightarrow> int \<Rightarrow> 'w publish_service" where
  "NewPublishService system_clock random_ids commands topics publisher clock ids maxPayload =
     \<lparr>ps_commands = commands, ps_topics = topics, ps_publisher = publisher,
      ps_clock = (case clock of None \<Rightarrow> system_clock | Some c \<Rightarrow> c),
      ps_ids = (case ids of None \<Rightarrow> random_ids | Some g \<Rightarrow> g), ps_maxPayload = maxPayload, ps_inlineClient = ''inline''\<rparr>"

definition validate_command :: "int \<Rightarrow> publish_command \<Rightarrow> unit result" where
  "validate_command maxPayload cmd =
     (case ValidatePublishTopic (cmd_Topic cmd) of Inl e \<Rightarrow> Inl e | Inr _ \<Rightarrow>
      case ValidateQoS (cmd_QoS cmd) of Inl e \<Rightarrow> Inl e | Inr _ \<Rightarrow>
      case ValidateTextPayload (cmd_PayloadText cmd) maxPayload of Inl e \<Rightarrow> Inl e | Inr _ \<Rightarrow> Inr ())"

definition PublishService_Publish :: "'w publish_service \<Rightarrow> publish_command \<Rightarrow> ('w, publish_result) eio" where
  "PublishService_Publish s cmd =
     ebind (check (validate_command (ps_maxPayload s) cmd)) (\<lambda>_.
     State_Monad.bind (ps_ids s) (\<lambda>cid.
     State_Monad.bind (ps_clock s) (\<lambda>now.
     ebind (pr_CreatePublishCommand (ps_commands s) cid cmd now) (\<lambda>created.
     State_Monad.bind (ps_publisher s (cmd_Topic cmd) (cmd_PayloadText cmd) \<lparr>opt_QoS = cmd_QoS cmd, opt_Retain = cmd_Retain cmd\<rparr>) (\<lambda>sent.
     case sent of
       Inl err \<Rightarrow> State_Monad.bind
         (discard (pr_MarkPublishCommand (ps_commands s) (pc_ID created) PublishStatusFailed (Error err) None)) (\<lambda>_. fail err)
     | Inr _ \<Rightarrow>
         State_Monad.bind (ps_clock s) (\<lambda>publishedAt.
         State_Monad.bind (case ps_topics s of None \<Rightarrow> ret ()
            | Some topics \<Rightarrow> discard (tr_RecordAdminPublishTopic topics (ps_inlineClient s) (cmd_Topic cmd) (cmd_QoS cmd) publishedAt)) (\<lambda>_.
         ebind (pr_MarkPublishCommand (ps_commands s) (pc_ID created) PublishStatusPublished [] (Some publishedAt)) (\<lambda>_.
         ok \<lparr>res_CommandID = pc_ID created, res_Status = PublishStatusPublished, res_PublishedAt = publishedAt\<rparr>))))))))"

definition PublishService_ListPublishCommands :: "'w publish_service \<Rightarrow> command_filter \<Rightarrow> ('w, publish_command_dto page) eio" where
  "PublishService_ListPublishCommands s f =
     (let (p, ps) = NormalizePage (cf_Page f) (cf_PageSize f) in
      pr_ListPublishCommands (ps_commands s) (f\<lparr>cf_Page := p, cf_PageSize := ps\<rparr>))"

section \<open>The life of a command\<close>

text \<open>
  \<open>sent\<close> observes the messages the broker has taken. A publisher leaves the commands alone and takes the message at most once;
  everything else leaves the sent messages alone.
\<close>

definition message_of :: "publish_command \<Rightarrow> mqtt_message" where
  "message_of cmd = \<lparr>out_Topic = cmd_Topic cmd, out_Payload = cmd_PayloadText cmd, out_Retain = cmd_Retain cmd, out_QoS = cmd_QoS cmd\<rparr>"

locale publishing = command_log repo commands
  for repo :: "'w publish_command_repository" and commands :: "'w \<Rightarrow> string \<Rightarrow> publish_command_dto option" +
  fixes s :: "'w publish_service" and sent :: "'w \<Rightarrow> mqtt_message list"
  assumes on_repo: "ps_commands s = repo"
    and collaborators_quiet: "leaves commands (ps_clock s)" "leaves commands (ps_ids s)" "leaves sent (ps_clock s)" "leaves sent (ps_ids s)"
      "ps_topics s = Some topics \<Longrightarrow> leaves commands (tr_RecordAdminPublishTopic topics c t q at)"
      "ps_topics s = Some topics \<Longrightarrow> leaves sent (tr_RecordAdminPublishTopic topics c t q at)"
      "leaves sent (pr_CreatePublishCommand repo i cmd at)" "leaves sent (pr_MarkPublishCommand repo i st e pub)"
    and publisher_quiet: "leaves commands (ps_publisher s topic payload opts)"
    and publisher_sends: "run_state (ps_publisher s topic payload opts) w = (r, w') \<Longrightarrow>
        sent w' = sent w \<or> sent w' = sent w @ [\<lparr>out_Topic = topic, out_Payload = payload, out_Retain = opt_Retain opts, out_QoS = opt_QoS opts\<rparr>]"
begin

text \<open>The part after the broker has answered.\<close>

lemma refused_run:
  assumes "run_state (discard (pr_MarkPublishCommand repo i PublishStatusFailed (Error err) None)) w = (u, w')" "commands w i = Some c"
  obtains c' where "commands w' = (commands w)(i \<mapsto> c')" "c' = c \<or> c' = marked PublishStatusFailed (Error err) None c" "sent w' = sent w"
proof -
  obtain r where m: "run_state (pr_MarkPublishCommand repo i PublishStatusFailed (Error err) None) w = (r, w')"
    using assms(1) by (metis prod.collapse run_discard snd_conv)
  have s: "sent w' = sent w" by (rule leavesD [OF collaborators_quiet(8) m])
  show ?thesis
  proof (cases r)
    case (Inl e)
    then show ?thesis using mark_error [OF m [unfolded Inl]] assms(2) s by (intro that [of c]) (auto simp: fun_eq_iff)
  next
    case (Inr x)
    then show ?thesis using mark_ok [OF m [unfolded Inr]] assms(2) s by (intro that) auto
  qed
qed

lemma topics_quiet:
  "leaves commands (case ps_topics s of None \<Rightarrow> ret () | Some topics \<Rightarrow> discard (tr_RecordAdminPublishTopic topics c t q at))"
  "leaves sent (case ps_topics s of None \<Rightarrow> ret () | Some topics \<Rightarrow> discard (tr_RecordAdminPublishTopic topics c t q at))"
  by (intro io_rules preorder_frame collaborators_quiet; assumption)+

lemma published_run:
  assumes "run_state (State_Monad.bind (ps_clock s) (\<lambda>publishedAt.
         State_Monad.bind (case ps_topics s of None \<Rightarrow> ret ()
            | Some topics \<Rightarrow> discard (tr_RecordAdminPublishTopic topics (ps_inlineClient s) t q publishedAt)) (\<lambda>_.
         ebind (pr_MarkPublishCommand repo i PublishStatusPublished [] (Some publishedAt)) (\<lambda>_.
         ok \<lparr>res_CommandID = i, res_Status = PublishStatusPublished, res_PublishedAt = publishedAt\<rparr>)))) w = (r, w')"
    and "commands w i = Some c"
  obtains (unmarked) e where "r = Inl e" "commands w' = commands w" "sent w' = sent w"
  | (marked) at where "r = Inr \<lparr>res_CommandID = i, res_Status = PublishStatusPublished, res_PublishedAt = at\<rparr>"
      "commands w' = (commands w)(i \<mapsto> marked PublishStatusPublished [] (Some at) c)" "sent w' = sent w"
proof -
  obtain at w1 where at: "run_state (ps_clock s) w = (at, w1)" by (cases "run_state (ps_clock s) w")
  let ?t = "case ps_topics s of None \<Rightarrow> ret () | Some topics \<Rightarrow> discard (tr_RecordAdminPublishTopic topics (ps_inlineClient s) t q at)"
  obtain u w2 where t: "run_state ?t w1 = (u, w2)" by (cases "run_state ?t w1")
  have same: "commands w2 = commands w" "sent w2 = sent w"
    using leavesD [OF collaborators_quiet(1) at] leavesD [OF collaborators_quiet(3) at]
      leavesD [OF topics_quiet(1) t] leavesD [OF topics_quiet(2) t] by simp_all
  obtain r3 w3 where m: "run_state (pr_MarkPublishCommand repo i PublishStatusPublished [] (Some at)) w2 = (r3, w3)"
    by (cases "run_state (pr_MarkPublishCommand repo i PublishStatusPublished [] (Some at)) w2")
  have s3: "sent w3 = sent w2" by (rule leavesD [OF collaborators_quiet(8) m])
  show ?thesis
  proof (cases r3)
    case (Inl e)
    then show ?thesis
      using assms(1) at t m mark_error [OF m [unfolded Inl]] same s3 by (intro unmarked [of e]) simp_all
  next
    case (Inr x)
    then show ?thesis
      using assms at t m mark_ok [OF m [unfolded Inr]] same s3 by (intro marked [of at]) simp_all
  qed
qed

lemma publish_run:
  assumes "run_state (PublishService_Publish s cmd) w = (r, w')"
  obtains (untouched) e where "r = Inl e" "commands w' = commands w" "sent w' = sent w"
  | (unpublished) e i now c where "r = Inl e" "commands w i = None" "commands w' = (commands w)(i \<mapsto> c)"
      "c = new_command i cmd now \<or> c = marked PublishStatusFailed (Error e) None (new_command i cmd now)"
      "sent w' = sent w \<or> sent w' = sent w @ [message_of cmd]"
  | (published) i now at where "r = Inr \<lparr>res_CommandID = i, res_Status = PublishStatusPublished, res_PublishedAt = at\<rparr>"
      "validate_command (ps_maxPayload s) cmd = Inr ()"
      "commands w i = None" "commands w' = (commands w)(i \<mapsto> marked PublishStatusPublished [] (Some at) (new_command i cmd now))"
      "sent w' = sent w \<or> sent w' = sent w @ [message_of cmd]"
proof (cases "validate_command (ps_maxPayload s) cmd")
  case (Inl e)
  then show ?thesis using assms by (intro untouched [of e]) (simp_all add: PublishService_Publish_def)
next
  case (Inr v)
  obtain i w1 where i: "run_state (ps_ids s) w = (i, w1)" by (cases "run_state (ps_ids s) w")
  obtain now w2 where now: "run_state (ps_clock s) w1 = (now, w2)" by (cases "run_state (ps_clock s) w1")
  have w2: "commands w2 = commands w" "sent w2 = sent w"
    using leavesD [OF collaborators_quiet(2) i] leavesD [OF collaborators_quiet(1) now]
      leavesD [OF collaborators_quiet(4) i] leavesD [OF collaborators_quiet(3) now] by simp_all
  obtain rc w3 where create: "run_state (pr_CreatePublishCommand repo i cmd now) w2 = (rc, w3)"
    by (cases "run_state (pr_CreatePublishCommand repo i cmd now) w2")
  have s3: "sent w3 = sent w" using leavesD [OF collaborators_quiet(7) create] w2 by simp
  show ?thesis
  proof (cases rc)
    case (Inl e)
    then show ?thesis
      using assms Inr i now create on_repo create_error [OF create [unfolded Inl]] w2 s3
      by (intro untouched [of e]) (simp_all add: PublishService_Publish_def)
  next
    case (Inr c)
    note law = create_ok [OF create [unfolded Inr]]
    let ?opts = "\<lparr>opt_QoS = cmd_QoS cmd, opt_Retain = cmd_Retain cmd\<rparr>"
    obtain rs w4 where send: "run_state (ps_publisher s (cmd_Topic cmd) (cmd_PayloadText cmd) ?opts) w3 = (rs, w4)"
      by (cases "run_state (ps_publisher s (cmd_Topic cmd) (cmd_PayloadText cmd) ?opts) w3")
    have w4: "commands w4 = commands w3" by (rule leavesD [OF publisher_quiet send])
    have s4: "sent w4 = sent w \<or> sent w4 = sent w @ [message_of cmd]"
      using publisher_sends [OF send] s3 by (simp add: message_of_def)
    have id: "pc_ID c = i" using law by (simp add: new_command_def)
    have here: "commands w4 i = Some c" using law w4 w2 by simp
    show ?thesis
    proof (cases rs)
      case (Inl e)
      have r: "r = Inl e" and mark: "run_state (discard (pr_MarkPublishCommand repo i PublishStatusFailed (Error e) None)) w4 = ((), w')"
        using assms \<open>validate_command (ps_maxPayload s) cmd = Inr v\<close> i now create \<open>rc = Inr c\<close> send Inl on_repo id
        by (simp_all add: PublishService_Publish_def)
      from mark here show ?thesis
        by (rule refused_run) (use r law w4 w2 s4 in \<open>auto intro!: unpublished [of e i _ now]\<close>)
    next
      case (Inr x)
      note rest = assms [unfolded PublishService_Publish_def]
      have pub: "run_state (State_Monad.bind (ps_clock s) (\<lambda>publishedAt.
         State_Monad.bind (case ps_topics s of None \<Rightarrow> ret ()
            | Some topics \<Rightarrow> discard (tr_RecordAdminPublishTopic topics (ps_inlineClient s) (cmd_Topic cmd) (cmd_QoS cmd) publishedAt)) (\<lambda>_.
         ebind (pr_MarkPublishCommand repo i PublishStatusPublished [] (Some publishedAt)) (\<lambda>_.
         ok \<lparr>res_CommandID = i, res_Status = PublishStatusPublished, res_PublishedAt = publishedAt\<rparr>)))) w4 = (r, w')"
        using rest \<open>validate_command (ps_maxPayload s) cmd = Inr v\<close> i now create \<open>rc = Inr c\<close> send Inr on_repo id by simp
      show ?thesis
      proof (rule published_run [OF pub here])
        fix e assume "r = Inl e" "commands w' = commands w4" "sent w' = sent w4"
        then show ?thesis using law w4 w2 s4 by (intro unpublished [of e i c now]) simp_all
      next
        fix at assume "r = Inr \<lparr>res_CommandID = i, res_Status = PublishStatusPublished, res_PublishedAt = at\<rparr>"
          "commands w' = (commands w4)(i \<mapsto> marked PublishStatusPublished [] (Some at) c)" "sent w' = sent w4"
        then show ?thesis
          using law w4 w2 s4 \<open>validate_command (ps_maxPayload s) cmd = Inr v\<close> by (intro published [of i at now]) simp_all
      qed
    qed
  qed
qed

end

section \<open>The publish service of the application\<close>

text \<open>
  The embedded broker as the environment's: it passes the message to the hook under the inline client's name, routes it when the hook
  lets it through, and answers what it likes (\<open>w_mqtt\<close>).
\<close>

definition inline_client :: mqtt_client where
  "inline_client = \<lparr>cl_ptr = 0, cl_ID = ''inline'', cl_Remote = ''local'', cl_Listener = ''local'', cl_Username = [],
     cl_ProtocolVersion = 0\<rparr>"

definition broker_publish :: "hook \<Rightarrow> string \<Rightarrow> string \<Rightarrow> bool \<Rightarrow> byte \<Rightarrow> (world, unit) eio" where
  "broker_publish h topic payload retain qos =
     State_Monad.bind (OnPublish h inline_client \<lparr>pk_TopicName = topic, pk_Payload = payload, pk_Qos = qos, pk_Retain = retain, pk_Filters = []\<rparr>)
       (\<lambda>out. State (\<lambda>w. (case w_mqtt w (w_sends w) of None \<Rightarrow> Inr () | Some e \<Rightarrow> Inl e,
          w\<lparr>w_sends := Suc (w_sends w),
            w_sent := (if snd out = None
              then w_sent w @ [\<lparr>out_Topic = topic, out_Payload = payload, out_Retain = retain, out_QoS = qos\<rparr>] else w_sent w)\<rparr>)))"

definition app_publish_service :: "(string \<Rightarrow> string \<Rightarrow> bool) \<Rightarrow> int \<Rightarrow> int \<Rightarrow> world publish_service" where
  "app_publish_service ilike timeout maxPayload =
     NewPublishService clock_now new_id store_commands (Some (store_topics ilike))
       (Server_Publish (broker_publish (app_hook timeout maxPayload)) ctx_Err) (Some clock_now) (Some new_id) maxPayload"

lemma app_publish_service_simps [simp]:
  "ps_commands (app_publish_service ilike timeout maxPayload) = store_commands"
  "ps_topics (app_publish_service ilike timeout maxPayload) = Some (store_topics ilike)"
  "ps_publisher (app_publish_service ilike timeout maxPayload) = Server_Publish (broker_publish (app_hook timeout maxPayload)) ctx_Err"
  "ps_clock (app_publish_service ilike timeout maxPayload) = clock_now"
  "ps_ids (app_publish_service ilike timeout maxPayload) = new_id"
  "ps_maxPayload (app_publish_service ilike timeout maxPayload) = maxPayload"
  by (simp_all add: app_publish_service_def NewPublishService_def)

text \<open>A part of the world that the message path of the inline client leaves alone.\<close>

lemma OnPublish_rel:
  assumes "preorder_rel R" "state_io_rel R clock_now" "\<And>ev. state_io_rel R (PersistBeforeRoute (app_ingestor timeout maxPayload) ev)"
  shows "state_io_rel R (OnPublish (app_hook timeout maxPayload) cl pk)"
proof -
  have "state_io_rel R (sessionID cl)" using preorder_refl [OF assms(1)] by (simp add: state_io_rel_def)
  then show ?thesis unfolding OnPublish_def by (simp del: run_ebind) (intro io_rules assms)
qed

section \<open>Tables the message path does not touch\<close>

lemma in_tx_leaves:
  assumes "\<And>c. keeps (world_inv (\<lambda>d. v d = c)) body"
  shows "leaves (\<lambda>w. v (w_db w)) (in_tx body)"
  unfolding state_io_rel_def
proof
  fix w
  show "v (w_db (snd (run_state (in_tx body) w))) = v (w_db w)"
  proof (cases "w_fate w (w_stmts w)")
    case (Some e)
    then show ?thesis by (simp add: in_tx_def tx_begin_def Let_def)
  next
    case None
    let ?w = "w\<lparr>w_stmts := Suc (w_stmts w), w_tx := Some (w_db w)\<rparr>"
    obtain r w1 where b: "run_state body ?w = (r, w1)" by (cases "run_state body ?w")
    have "world_inv (\<lambda>d. v d = v (w_db w)) ?w" by (simp add: world_inv_def)
    from keepsD [OF assms b this] have "v (w_db w1) = v (w_db w)" by (simp add: world_inv_def)
    then show ?thesis using None b by (simp add: in_tx_def tx_begin_def Let_def)
  qed
qed

definition stmt_leaves :: "(db \<Rightarrow> 'v) \<Rightarrow> 'a statement \<Rightarrow> bool" where
  "stmt_leaves v f \<longleftrightarrow> (\<forall>u d x d'. f u d = Inr (x, d') \<longrightarrow> v d' = v d)"

lemma stmt_leaves_keeps: "stmt_leaves v f \<Longrightarrow> stmt_keeps (\<lambda>d. v d = c) f"
  by (auto simp: stmt_leaves_def stmt_keeps_def)

lemma exec_pool_leaves: "stmt_leaves v f \<Longrightarrow> leaves (\<lambda>w. v (w_db w)) (exec_pool f)"
  by (auto simp: stmt_leaves_def state_io_rel_def exec_pool_def Let_def split: option.split sum.split)

definition beside_messages :: "(db \<Rightarrow> 'v) \<Rightarrow> bool" where
  "beside_messages v \<longleftrightarrow> (\<forall>d t. v (d\<lparr>db_devices := t\<rparr>) = v d) \<and> (\<forall>d t. v (d\<lparr>db_topics := t\<rparr>) = v d)
     \<and> (\<forall>d t. v (d\<lparr>db_messages := t\<rparr>) = v d) \<and> (\<forall>d t. v (d\<lparr>db_partitions := t\<rparr>) = v d) \<and> (\<forall>d t. v (d\<lparr>db_alerts := t\<rparr>) = v d)"

lemma message_statements:
  assumes "beside_messages v"
  shows "stmt_leaves v (create_partition_stmt name lo hi)" "stmt_leaves v (ensure_device_stmt c s at)"
    "stmt_leaves v (observe_topic_stmt dev c topic kind q at)" "stmt_leaves v (insert_message_stmt dev ev)"
    "stmt_leaves v (admin_topic_stmt c topic q at)" "stmt_leaves v (upsert_alert_stmt a)"
  using assms
  by (auto simp: beside_messages_def stmt_leaves_def create_partition_stmt_def ensure_device_stmt_def observe_topic_stmt_def
      insert_message_stmt_def admin_topic_stmt_def upsert_alert_stmt_def put_table_ok put_new_ok Let_def
      split: sum.splits option.splits if_splits prod.splits)

lemma PersistPublish_leaves:
  assumes "beside_messages v"
  shows "leaves (\<lambda>w. v (w_db w)) (PersistPublish ev)"
  unfolding PersistPublish_def EnsureMessagePartition_def ensureDevice_def
  by (intro rel_ebind preorder_frame exec_pool_leaves in_tx_leaves message_statements assms)
    (intro io_rules preorder_invariant exec_tx_keeps tx_keeps stmt_leaves_keeps message_statements assms)+

lemma message_path_leaves:
  assumes "beside_messages v"
  shows "leaves (\<lambda>w. v (w_db w)) (PersistBeforeRoute (app_ingestor timeout maxPayload) ev)"
    and "leaves (\<lambda>w. v (w_db w)) (Server_Publish (broker_publish (app_hook timeout maxPayload)) ctx_Err topic payload opts)"
    and "leaves (\<lambda>w. v (w_db w)) (RecordAdminPublishTopic c topic q at)"
proof -
  have "leaves (\<lambda>w. v (w_db w)) (UpsertAlert a)" for a
    unfolding UpsertAlert_def by (intro exec_pool_leaves message_statements assms)
  then have "quiet (\<lambda>w. v (w_db w)) (app_ingestor timeout maxPayload)"
    unfolding calm_def by (auto intro!: preorder_frame clock_leaves ctx_leaves hub_leaves simp: store_alerts_def)
  then show p: "leaves (\<lambda>w. v (w_db w)) (PersistBeforeRoute (app_ingestor timeout maxPayload) ev)" for ev
    by (rule ingestor_rel(3)) (simp add: store_ingestion_def PersistPublish_leaves [OF assms])
  have "leaves (\<lambda>w. v (w_db w)) (OnPublish (app_hook timeout maxPayload) cl pk)" for cl pk
    by (intro OnPublish_rel preorder_frame clock_leaves p) simp
  then have "leaves (\<lambda>w. v (w_db w)) (broker_publish (app_hook timeout maxPayload) topic payload retain qos)" for retain qos
    unfolding broker_publish_def by (intro io_rules preorder_frame) (simp_all add: state_io_rel_def)
  then show "leaves (\<lambda>w. v (w_db w)) (Server_Publish (broker_publish (app_hook timeout maxPayload)) ctx_Err topic payload opts)"
    unfolding Server_Publish_def by (intro io_rules preorder_frame ctx_leaves) simp_all
  show "leaves (\<lambda>w. v (w_db w)) (RecordAdminPublishTopic c topic q at)"
    unfolding RecordAdminPublishTopic_def by (intro exec_pool_leaves message_statements assms)
qed

section \<open>The publish service on the store\<close>

text \<open>A part of the world beside the database, the clock and the hub.\<close>

definition beside_path :: "(world \<Rightarrow> 'v) \<Rightarrow> bool" where
  "beside_path v \<longleftrightarrow> (\<forall>w d. v (w\<lparr>w_db := d\<rparr>) = v w) \<and> (\<forall>w t. v (w\<lparr>w_tx := t\<rparr>) = v w) \<and> (\<forall>w n. v (w\<lparr>w_stmts := n\<rparr>) = v w)
     \<and> (\<forall>w n. v (w\<lparr>w_ticks := n\<rparr>) = v w) \<and> (\<forall>w n. v (w\<lparr>w_asked := n\<rparr>) = v w) \<and> (\<forall>w h. v (w\<lparr>w_hub := h\<rparr>) = v w)"

lemma statements_beside:
  assumes "beside_path v"
  shows "leaves v (exec_pool f)" "leaves v tx_begin" "leaves v (exec_tx f)" "leaves v tx_commit" "leaves v tx_rollback"
  using assms
  by (auto simp: beside_path_def state_io_rel_def exec_pool_def tx_begin_def exec_tx_def tx_commit_def Let_def
      split: option.split sum.split)

lemma in_tx_beside: "beside_path v \<Longrightarrow> leaves v body \<Longrightarrow> leaves v (in_tx body)"
  unfolding in_tx_def by (intro io_rules preorder_frame statements_beside)

lemma OnPublish_beside:
  assumes "beside_path v"
  shows "leaves v (OnPublish (app_hook timeout maxPayload) cl pk)"
proof -
  have now: "leaves v clock_now" "leaves v ctx_Err" and hub: "leaves v (hub_Publish ev)" for ev
    using assms by (auto simp: beside_path_def intro!: clock_leaves ctx_leaves hub_leaves)
  have "leaves v (UpsertAlert a)" for a
    unfolding UpsertAlert_def by (intro statements_beside assms)
  with now hub have q: "quiet v (app_ingestor timeout maxPayload)"
    unfolding calm_def by (auto simp: store_alerts_def)
  have p: "leaves v (PersistPublish ev)" for ev
    unfolding PersistPublish_def EnsureMessagePartition_def ensureDevice_def
    by (intro io_rules preorder_frame in_tx_beside statements_beside assms)
  have "leaves v (PersistBeforeRoute (app_ingestor timeout maxPayload) ev)" for ev
    by (rule ingestor_rel(3) [OF q]) (simp add: store_ingestion_def p)
  then show ?thesis by (intro OnPublish_rel preorder_frame now)
qed

lemma sent_beside: "beside_path w_sent"
  by (simp add: beside_path_def)

lemma Server_Publish_sends:
  assumes "run_state (Server_Publish (broker_publish (app_hook timeout maxPayload)) ctx_Err topic payload opts) w = (r, w')"
  shows "w_sent w' = w_sent w
     \<or> w_sent w' = w_sent w @ [\<lparr>out_Topic = topic, out_Payload = payload, out_Retain = opt_Retain opts, out_QoS = opt_QoS opts\<rparr>]"
proof -
  let ?pk = "\<lparr>pk_TopicName = topic, pk_Payload = payload, pk_Qos = opt_QoS opts, pk_Retain = opt_Retain opts, pk_Filters = []\<rparr>"
  obtain out w1 where out: "run_state (OnPublish (app_hook timeout maxPayload) inline_client ?pk) w = (out, w1)"
    by (cases "run_state (OnPublish (app_hook timeout maxPayload) inline_client ?pk) w")
  have "w_sent w1 = w_sent w" by (rule leavesD [OF OnPublish_beside [OF sent_beside] out])
  then show ?thesis
    using assms out by (auto simp: Server_Publish_def broker_publish_def split: if_splits)
qed

lemma command_view_frame: "leaves (\<lambda>w. v (w_db w)) m \<Longrightarrow> (\<And>w. command_view w = v (w_db w)) \<Longrightarrow> leaves command_view m"
  by (simp add: state_io_rel_def)

interpretation pub: publishing store_commands command_view "app_publish_service ilike timeout maxPayload" w_sent
  for ilike timeout maxPayload
proof unfold_locales
  let ?v = "\<lambda>d i. map_option scanCommand (find (\<lambda>r. c_id r = i) (db_commands d))"
  have v: "beside_messages ?v" by (simp add: beside_messages_def)
  have view: "command_view w = ?v (w_db w)" for w by (simp add: command_view_def fun_eq_iff)
  show "leaves command_view (ps_publisher (app_publish_service ilike timeout maxPayload) topic payload opts)" for topic payload opts
    using command_view_frame [OF message_path_leaves(2) [OF v] view] by simp
  show "leaves command_view (tr_RecordAdminPublishTopic topics c t q at)"
    if "ps_topics (app_publish_service ilike timeout maxPayload) = Some topics" for topics c t q at
    using that command_view_frame [OF message_path_leaves(3) [OF v] view] by (auto simp: store_topics_def)
  show "leaves w_sent (tr_RecordAdminPublishTopic topics c t q at)"
    if "ps_topics (app_publish_service ilike timeout maxPayload) = Some topics" for topics c t q at
    using that by (auto simp: store_topics_def RecordAdminPublishTopic_def intro!: statements_beside sent_beside)
  show "leaves w_sent (pr_CreatePublishCommand store_commands i cmd at)" "leaves w_sent (pr_MarkPublishCommand store_commands i st e pub)"
    for i cmd at st e pub
    by (auto simp: store_commands_def CreatePublishCommand_def MarkPublishCommand_def
        intro!: io_rules preorder_frame statements_beside sent_beside)
  show "w_sent w' = w_sent w
      \<or> w_sent w' = w_sent w @ [\<lparr>out_Topic = topic, out_Payload = payload, out_Retain = opt_Retain opts, out_QoS = opt_QoS opts\<rparr>]"
    if "run_state (ps_publisher (app_publish_service ilike timeout maxPayload) topic payload opts) w = (r, w')"
    for topic payload opts w r w'
    using that Server_Publish_sends by simp
qed (simp_all add: clock_leaves id_leaves command_view_def [abs_def])

text \<open>
  C10. The life of a command. An administrator's publish either changes nothing and reports an error, or leaves exactly one new
  command: published, with the reported time and under the reported id, when it reports success; pending, or
  failed with the reported error text, when it reports an error. No message is handed to the broker
  without a new command for it, and never more than one.
\<close>

theorem publish_command_lifecycle:
  assumes "run_state (PublishService_Publish (app_publish_service ilike timeout maxPayload) cmd) w = (r, w')"
  shows "(\<exists>e. r = Inl e \<and> command_view w' = command_view w \<and> w_sent w' = w_sent w)
    \<or> ((w_sent w' = w_sent w \<or> w_sent w' = w_sent w @ [message_of cmd])
       \<and> (\<exists>i now. command_view w i = None
         \<and> (case r of
              Inl e \<Rightarrow> command_view w' = (command_view w)(i \<mapsto> new_command i cmd now)
                \<or> command_view w' = (command_view w)(i \<mapsto> marked PublishStatusFailed (Error e) None (new_command i cmd now))
            | Inr res \<Rightarrow> res_CommandID res = i \<and> res_Status res = PublishStatusPublished
                \<and> command_view w' = (command_view w)
                    (i \<mapsto> marked PublishStatusPublished [] (Some (res_PublishedAt res)) (new_command i cmd now)))))"
  using assms
proof (cases rule: pub.publish_run)
  case (unpublished e i now c)
  then show ?thesis by auto
next
  case (published i now at)
  then show ?thesis by auto
qed simp

text \<open>When the database, the broker and the clock answer, a valid message under a new id is published.\<close>

definition answering :: "world \<Rightarrow> bool" where
  "answering w \<longleftrightarrow> (\<forall>n. w_fate w n = None) \<and> (\<forall>n. w_mqtt w n = None) \<and> (\<forall>n. \<not> w_expired w n)"

lemma answering_beside: "beside_path answering"
  by (simp add: beside_path_def answering_def)

lemma answering_start [simp]: "answering (start_world d)"
  by (simp add: answering_def start_world_def)

lemma exec_pool_answers:
  "answering w \<Longrightarrow> run_state (exec_pool f) w =
     (case f (w_uuid w (w_stmts w)) (w_db w) of
        Inl e \<Rightarrow> (Inl e, w\<lparr>w_stmts := Suc (w_stmts w)\<rparr>)
      | Inr (x, d) \<Rightarrow> (Inr x, w\<lparr>w_stmts := Suc (w_stmts w), w_db := d\<rparr>))"
  by (simp add: answering_def exec_pool_run)

lemma publish_succeeds:
  assumes "answering w" "validate_command maxPayload cmd = Inr ()" "w_ids w (w_idn w) \<notin> c_id ` set (db_commands (w_db w))"
  shows "\<exists>at w'. run_state (PublishService_Publish (app_publish_service ilike timeout maxPayload) cmd) w
     = (Inr \<lparr>res_CommandID = w_ids w (w_idn w), res_Status = PublishStatusPublished, res_PublishedAt = at\<rparr>, w')"
proof -
  let ?i = "w_ids w (w_idn w)"
  let ?w = "w\<lparr>w_idn := Suc (w_idn w), w_ticks := Suc (w_ticks w)\<rparr>"
  let ?now = "w_clock w (w_ticks w)"
  have a: "answering ?w" using assms(1) by (simp add: answering_def)
  obtain c w1 where c: "run_state (pr_CreatePublishCommand store_commands ?i cmd ?now) ?w = (Inr c, w1)" and id: "pc_ID c = ?i"
    using a assms(3)
    by (auto simp: store_commands_def CreatePublishCommand_def exec_pool_answers create_command_stmt_def insert_row_def put_table_def
        scanCommand_def Let_def)
  have w1: "answering w1"
    using leavesD [OF _ c] a answering_beside
    by (auto simp: store_commands_def CreatePublishCommand_def intro!: io_rules preorder_frame statements_beside)
  let ?p = "Server_Publish (broker_publish (app_hook timeout maxPayload)) ctx_Err (cmd_Topic cmd) (cmd_PayloadText cmd)
      \<lparr>opt_QoS = cmd_QoS cmd, opt_Retain = cmd_Retain cmd\<rparr>"
  let ?pk = "\<lparr>pk_TopicName = cmd_Topic cmd, pk_Payload = cmd_PayloadText cmd, pk_Qos = cmd_QoS cmd, pk_Retain = cmd_Retain cmd, pk_Filters = []\<rparr>"
  obtain out w2 where out: "run_state (OnPublish (app_hook timeout maxPayload) inline_client ?pk) w1 = (out, w2)"
    by (cases "run_state (OnPublish (app_hook timeout maxPayload) inline_client ?pk) w1")
  have w2: "answering w2" using leavesD [OF OnPublish_beside [OF answering_beside] out] w1 by simp
  obtain w3 where pub: "run_state ?p w1 = (Inr (), w3)" and w3: "answering w3"
    using w1 w2 out by (auto simp: Server_Publish_def broker_publish_def answering_def)
  obtain w4 where t: "run_state (discard (tr_RecordAdminPublishTopic (store_topics ilike) ''inline'' (cmd_Topic cmd) (cmd_QoS cmd)
      (w_clock w3 (w_ticks w3)))) (w3\<lparr>w_ticks := Suc (w_ticks w3)\<rparr>) = ((), w4)"
    by simp
  have "answering (w3\<lparr>w_ticks := Suc (w_ticks w3)\<rparr>)" using w3 by (simp add: answering_def)
  then have w4: "answering w4"
    using leavesD [OF _ t, of answering] answering_beside
    by (auto simp: store_topics_def RecordAdminPublishTopic_def simp del: run_discard intro!: io_rules preorder_frame statements_beside)
  obtain w5 where m: "run_state (pr_MarkPublishCommand store_commands ?i PublishStatusPublished [] (Some (w_clock w3 (w_ticks w3)))) w4 = (Inr (), w5)"
    using w4 by (auto simp: store_commands_def MarkPublishCommand_def mark_command_stmt_def exec_pool_answers)
  show ?thesis
    using assms(2) c id pub t m by (simp add: PublishService_Publish_def app_publish_service_def NewPublishService_def)
qed

text \<open>The life of a command at a concrete message.\<close>

definition hello_command :: publish_command where
  "hello_command = \<lparr>cmd_AdminUserID = ''u1'', cmd_Topic = ''t'', cmd_PayloadText = ''m'', cmd_QoS = 1, cmd_Retain = False\<rparr>"

lemma hello_command_valid: "validate_command 100 hello_command = Inr ()"
proof -
  have "\<not> sys_topic ''t''" "\<not> ContainsAny ''t'' ''+#''" by code_simp+
  then show ?thesis
    by (simp add: hello_command_def validate_command_def ValidatePublishTopic_def ValidateQoS_def ValidateTextPayload_def
        MaxTopicLength_def valid_string_def bytes_def decode_all.simps decode_rune_def)
qed

lemma hello_published:
  obtains at w' where "run_state (PublishService_Publish (app_publish_service (\<lambda>_ _. True) 1000 100) hello_command) (start_world seed_db)
     = (Inr \<lparr>res_CommandID = ''n0'', res_Status = PublishStatusPublished, res_PublishedAt = at\<rparr>, w')"
proof -
  have "w_ids (start_world seed_db) (w_idn (start_world seed_db)) = ''n0''" "db_commands (w_db (start_world seed_db)) = []" by code_simp+
  then show ?thesis
    using publish_succeeds [OF answering_start hello_command_valid, of seed_db "\<lambda>_ _. True" 1000] that by auto
qed

theorem publish_command_lifecycle_witness:
  "\<exists>w' c. command_view w' = (command_view (start_world seed_db))(''n0'' \<mapsto> c) \<and> pc_Status c = PublishStatusPublished \<and> pc_Topic c = ''t''"
proof -
  obtain at w' where run: "run_state (PublishService_Publish (app_publish_service (\<lambda>_ _. True) 1000 100) hello_command) (start_world seed_db)
     = (Inr \<lparr>res_CommandID = ''n0'', res_Status = PublishStatusPublished, res_PublishedAt = at\<rparr>, w')"
    by (rule hello_published)
  show ?thesis
    using publish_command_lifecycle [OF run] by (fastforce simp: marked_def new_command_def hello_command_def)
qed

end
