(* ===== verification/Scheduling.thy ===== *)
theory Scheduling
  imports Publishing
begin

text \<open>
  Scheduled publishing (\<open>internal/service/scheduled_publish.go\<close>): the service that creates, cancels and runs tasks, the
  scheduler's loop, and the machine that their interleaving makes: while the scheduler works through the
  tasks it has read, an administrator may cancel or create tasks between any two repository calls.
\<close>

section \<open>The service\<close>

record 'w scheduled_publish_service =
  sp_repo :: "'w scheduled_publish_repository"
  sp_publisher :: "'w publish_service"
  sp_clock :: "'w clock"
  sp_ids :: "'w id_generator"
  sp_maxPayload :: int

definition NewScheduledPublishService :: "'w clock \<Rightarrow> 'w id_generator \<Rightarrow> 'w scheduled_publish_repository \<Rightarrow> 'w publish_service \<Rightarrow>
    'w clock option \<Rightarrow> 'w id_generator option \<Rightarrow> int \<Rightarrow> 'w scheduled_publish_service" where
  "NewScheduledPublishService system_clock random_ids repo publisher clock ids maxPayload =
     \<lparr>sp_repo = repo, sp_publisher = publisher, sp_clock = (case clock of None \<Rightarrow> system_clock | Some c \<Rightarrow> c),
      sp_ids = (case ids of None \<Rightarrow> random_ids | Some g \<Rightarrow> g), sp_maxPayload = maxPayload\<rparr>"

definition new_task :: "create_scheduled_publish_command \<Rightarrow> string \<Rightarrow> time \<Rightarrow> time \<Rightarrow> scheduled_publish_task_dto" where
  "new_task cmd i now nextRunAt =
     \<lparr>task_ID = i, task_DeviceID = cs_DeviceID cmd, task_ClientID = [], task_AdminUserID = cs_AdminUserID cmd,
      task_Name = cs_Name cmd, task_Topic = cs_Topic cmd, task_PayloadText = cs_PayloadText cmd, task_QoS = cs_QoS cmd,
      task_Retain = cs_Retain cmd, task_ScheduleType = cs_ScheduleType cmd, task_RunAt = cs_RunAt cmd,
      task_TimeOfDay = cs_TimeOfDay cmd, task_Weekdays = cs_Weekdays cmd,
      task_Timezone = (if cs_Timezone cmd = [] then ''Asia/Hong_Kong'' else cs_Timezone cmd), task_Status = TaskActive,
      task_NextRunAt = Some nextRunAt, task_LastRunAt = None, task_LastError = [], task_RunCount = 0,
      task_CreatedAt = now, task_UpdatedAt = now\<rparr>"

definition CreateScheduledPublish :: "(string \<Rightarrow> location option) \<Rightarrow> 'w scheduled_publish_service \<Rightarrow>
    create_scheduled_publish_command \<Rightarrow> ('w, scheduled_publish_task_dto) eio" where
  "CreateScheduledPublish tzdb s cmd =
     ebind (check (ValidateTextPayload (cs_PayloadText cmd) (sp_maxPayload s))) (\<lambda>_.
     State_Monad.bind (sp_clock s) (\<lambda>now.
     ebind (check (ValidateScheduleCommand tzdb cmd now)) (\<lambda>nextRunAt.
     State_Monad.bind (sp_ids s) (\<lambda>i.
     sr_CreateScheduledTask (sp_repo s) (new_task cmd i now nextRunAt)))))"

definition ListScheduledPublishes :: "'w scheduled_publish_service \<Rightarrow> scheduled_publish_filter \<Rightarrow>
    ('w, scheduled_publish_task_dto page) eio" where
  "ListScheduledPublishes s f =
     (let (p, ps) = NormalizePage (sf_Page f) (sf_PageSize f) in
      sr_ListScheduledTasks (sp_repo s) (f\<lparr>sf_Page := p, sf_PageSize := ps\<rparr>))"

definition CancelScheduledPublish :: "'w scheduled_publish_service \<Rightarrow> string \<Rightarrow> ('w, scheduled_publish_task_dto) eio" where
  "CancelScheduledPublish s i =
     (if i = [] then fail (InvalidInput ''invalid_task_id'' ''task id must not be empty'')
      else State_Monad.bind (sp_clock s) (\<lambda>now. sr_CancelScheduledTask (sp_repo s) i now))"

section \<open>Running a task\<close>

definition command_of_task :: "scheduled_publish_task_dto \<Rightarrow> publish_command" where
  "command_of_task task = \<lparr>cmd_AdminUserID = task_AdminUserID task, cmd_Topic = task_Topic task,
     cmd_PayloadText = task_PayloadText task, cmd_QoS = task_QoS task, cmd_Retain = task_Retain task\<rparr>"

text \<open>The status of the run and of the task, the error text and the next run.\<close>

definition run_outcome :: "(string \<Rightarrow> location option) \<Rightarrow> scheduled_publish_task_dto \<Rightarrow> publish_result result \<Rightarrow> time \<Rightarrow>
    run_status \<times> task_status \<times> string \<times> time option" where
  "run_outcome tzdb task sent finishedAt =
     (case sent of
        Inl err \<Rightarrow>
          if task_ScheduleType task = ScheduleTypeOnce then (RunFailed, TaskFailed, Error err, None)
          else (case NextRunAfterTask tzdb task finishedAt of
                  Inl nextErr \<Rightarrow> (RunFailed, TaskFailed, Error err @ ''; next run calculation failed: '' @ Error nextErr, None)
                | Inr nxt \<Rightarrow> (RunFailed, TaskActive, Error err, nxt))
      | Inr res \<Rightarrow>
          if task_ScheduleType task = ScheduleTypeOnce then (RunPublished, TaskCompleted, [], None)
          else (case NextRunAfterTask tzdb task finishedAt of
                  Inl nextErr \<Rightarrow> (RunPublished, TaskFailed, Error nextErr, None)
                | Inr nxt \<Rightarrow> (RunPublished, TaskActive, [], nxt)))"

text \<open>\<open>runOne\<close> up to the call that records the run: the record of the run, and the publisher's error.\<close>

definition publish_task :: "(string \<Rightarrow> location option) \<Rightarrow> 'w scheduled_publish_service \<Rightarrow> scheduled_publish_task_dto \<Rightarrow> time \<Rightarrow>
    ('w, scheduled_publish_finish \<times> go_error option) state" where
  "publish_task tzdb s task startedAt =
     State_Monad.bind (PublishService_Publish (sp_publisher s) (command_of_task task)) (\<lambda>sent.
     State_Monad.bind (sp_clock s) (\<lambda>finishedAt.
     let (runStatus, taskStatus, errText, nextRunAt) = run_outcome tzdb task sent finishedAt in
     State_Monad.bind (sp_ids s) (\<lambda>i. ret
       (\<lparr>fin_TaskID = task_ID task, fin_RunID = i,
         fin_PublishCommandID = (case sent of Inl _ \<Rightarrow> [] | Inr res \<Rightarrow> res_CommandID res),
         fin_RunStatus = runStatus, fin_TaskStatus = taskStatus, fin_Error = errText,
         fin_ScheduledFor = (case task_NextRunAt task of None \<Rightarrow> startedAt | Some t \<Rightarrow> t),
         fin_StartedAt = startedAt, fin_FinishedAt = finishedAt, fin_NextRunAt = nextRunAt\<rparr>,
        case sent of Inl err \<Rightarrow> Some err | Inr _ \<Rightarrow> None))))"

definition runOne :: "(string \<Rightarrow> location option) \<Rightarrow> 'w scheduled_publish_service \<Rightarrow> scheduled_publish_task_dto \<Rightarrow> time \<Rightarrow>
    ('w, unit) eio" where
  "runOne tzdb s task startedAt =
     State_Monad.bind (publish_task tzdb s task startedAt) (\<lambda>(finish, err).
     ebind (sr_FinishScheduledRun (sp_repo s) finish) (\<lambda>_. case err of None \<Rightarrow> ok () | Some e \<Rightarrow> fail e))"

text \<open>The loop over the due tasks: the error of a run is logged and dropped.\<close>

fun run_tasks :: "(string \<Rightarrow> location option) \<Rightarrow> 'w scheduled_publish_service \<Rightarrow> time \<Rightarrow> scheduled_publish_task_dto list \<Rightarrow>
    ('w, unit) state" where
  "run_tasks tzdb s now [] = ret ()"
| "run_tasks tzdb s now (task # rest) =
     State_Monad.bind (discard (runOne tzdb s task now)) (\<lambda>_. run_tasks tzdb s now rest)"

definition RunDue :: "(string \<Rightarrow> location option) \<Rightarrow> 'w scheduled_publish_service \<Rightarrow> int \<Rightarrow> ('w, int) eio" where
  "RunDue tzdb s limit =
     State_Monad.bind (sp_clock s) (\<lambda>now.
     ebind (sr_ListDueScheduledTasks (sp_repo s) now (if limit \<le> 0 then 20 else limit)) (\<lambda>tasks.
     State_Monad.bind (run_tasks tzdb s now tasks) (\<lambda>_. ok (int (length tasks)))))"

section \<open>The scheduler\<close>

record 'w scheduled_publish_scheduler =
  sd_service :: "'w scheduled_publish_service"
  sd_interval :: int

definition NewScheduledPublishScheduler :: "'w scheduled_publish_service \<Rightarrow> int \<Rightarrow> 'w scheduled_publish_scheduler" where
  "NewScheduledPublishScheduler service interval =
     \<lparr>sd_service = service, sd_interval = (if interval \<le> 0 then 10 * second else interval)\<rparr>"

text \<open>One iteration before the \<open>select\<close>: \<open>ctx.Err()\<close> is asked only about a failed poll.\<close>

definition poll_once :: "(string \<Rightarrow> location option) \<Rightarrow> 'w context_err \<Rightarrow> 'w scheduled_publish_scheduler \<Rightarrow> ('w, unit) state" where
  "poll_once tzdb ctx sd =
     State_Monad.bind (RunDue tzdb (sd_service sd) 20) (\<lambda>r. case r of Inl _ \<Rightarrow> discard ctx | Inr _ \<Rightarrow> ret ())"

text \<open>
  The loop. \<open>stopped k\<close> tells which way the \<open>select\<close> of the \<open>k\<close>-th iteration goes: the context is done, or the ticker
  fires. A loop that is never stopped has no final world.
\<close>

partial_function (option) Scheduler_Run :: "(string \<Rightarrow> location option) \<Rightarrow> 'w context_err \<Rightarrow> 'w scheduled_publish_scheduler \<Rightarrow>
    (nat \<Rightarrow> bool) \<Rightarrow> nat \<Rightarrow> 'w \<Rightarrow> 'w option" where
  "Scheduler_Run tzdb ctx sd stopped k w =
     (let w' = snd (run_state (poll_once tzdb ctx sd) w) in
      if stopped k then Some w' else Scheduler_Run tzdb ctx sd stopped (Suc k) w')"

lemma Scheduler_Run_stopped:
  assumes "stopped (k + n)" "\<forall>j < n. \<not> stopped (k + j)"
  shows "Scheduler_Run tzdb ctx sd stopped k w = Some (((\<lambda>w. snd (run_state (poll_once tzdb ctx sd) w)) ^^ Suc n) w)"
  using assms
proof (induction n arbitrary: k w)
  case 0
  then show ?case by (subst Scheduler_Run.simps) simp
next
  case (Suc n)
  have "\<not> stopped k" using Suc.prems(2) by (metis add.right_neutral zero_less_Suc)
  moreover have "stopped (Suc k + n)" "\<forall>j < n. \<not> stopped (Suc k + j)"
    using Suc.prems by (simp_all flip: add_Suc_right)
  from Suc.IH [OF this] have "Scheduler_Run tzdb ctx sd stopped (Suc k) w'
      = Some (((\<lambda>w. snd (run_state (poll_once tzdb ctx sd) w)) ^^ Suc n) w')" for w' .
  ultimately show ?case
    by (subst Scheduler_Run.simps) (simp add: funpow_Suc_right del: funpow.simps)
qed

lemma Scheduler_Run_returns:
  assumes "Scheduler_Run tzdb ctx sd stopped k w = Some w'"
  shows "\<exists>n. stopped (k + n)"
proof (rule Scheduler_Run.raw_induct [where P = "\<lambda>_ _ _ stopped k _ _. \<exists>n. stopped (k + n)", OF _ assms])
  fix run and tzdb :: "string \<Rightarrow> location option" and ctx and sd :: "'a scheduled_publish_scheduler" and stopped and k :: nat
    and w w' :: 'a
  assume IH: "\<And>(tzdb :: string \<Rightarrow> location option) ctx sd stopped k w y. run tzdb ctx sd stopped k w = Some y \<Longrightarrow> \<exists>n. stopped (k + n)"
    and run: "(let w' = snd (run_state (poll_once tzdb ctx sd) w) in
      if stopped k then Some w' else run tzdb ctx sd stopped (Suc k) w') = Some w'"
  show "\<exists>n. stopped (k + n)"
  proof (cases "stopped k")
    case True
    then show ?thesis by (intro exI [of _ 0]) simp
  next
    case False
    with run obtain n where "stopped (Suc k + n)" using IH by fastforce
    then show ?thesis by (intro exI [of _ "Suc n"]) simp
  qed
qed

text \<open>
  C29. The scheduler stops. Its loop returns exactly when some \<open>select\<close> sees the context done; it has then polled once
  for every tick and once before the first, and nothing after it was stopped.
\<close>

theorem scheduler_stops:
  "Scheduler_Run tzdb ctx sd stopped 0 w =
     (if \<exists>n. stopped n
      then Some (((\<lambda>w. snd (run_state (poll_once tzdb ctx sd) w)) ^^ Suc (LEAST n. stopped n)) w) else None)"
proof (cases "\<exists>n. stopped n")
  case True
  then have "stopped (0 + (LEAST n. stopped n))" "\<forall>j < (LEAST n. stopped n). \<not> stopped (0 + j)"
    by (auto intro: LeastI_ex dest: not_less_Least)
  from Scheduler_Run_stopped [OF this] True show ?thesis by simp
next
  case False
  then show ?thesis using Scheduler_Run_returns [of tzdb ctx sd stopped 0 w] by (cases "Scheduler_Run tzdb ctx sd stopped 0 w") auto
qed

section \<open>The interleaving\<close>

text \<open>
  A state is the world, the tasks of the current poll that are still to run, the instant of the poll, and the record of the
  run that has been published but not yet recorded. Between any two steps of the scheduler another goroutine may create or cancel
  a task, or change anything but the tasks.
\<close>

record 'w scheduler_state =
  ss_world :: 'w
  ss_pending :: "scheduled_publish_task_dto list"
  ss_polled :: time
  ss_open :: "scheduled_publish_finish option"

inductive sched_step :: "(string \<Rightarrow> location option) \<Rightarrow> 'w scheduled_publish_service \<Rightarrow> ('w \<Rightarrow> task_view set) \<Rightarrow>
    'w scheduler_state \<Rightarrow> 'w scheduler_state \<Rightarrow> bool" for tzdb s tasks where
  poll: "run_state (sp_clock s) w = (now, w1) \<Longrightarrow> run_state (sr_ListDueScheduledTasks (sp_repo s) now limit) w1 = (Inr ts, w2) \<Longrightarrow>
    sched_step tzdb s tasks \<lparr>ss_world = w, ss_pending = [], ss_polled = t0, ss_open = None\<rparr>
      \<lparr>ss_world = w2, ss_pending = ts, ss_polled = now, ss_open = None\<rparr>"
| publish: "run_state (publish_task tzdb s t now) w = ((fin, err), w') \<Longrightarrow>
    sched_step tzdb s tasks \<lparr>ss_world = w, ss_pending = t # ts, ss_polled = now, ss_open = None\<rparr>
      \<lparr>ss_world = w', ss_pending = ts, ss_polled = now, ss_open = Some fin\<rparr>"
| finish: "run_state (sr_FinishScheduledRun (sp_repo s) fin) w = (r, w') \<Longrightarrow>
    sched_step tzdb s tasks \<lparr>ss_world = w, ss_pending = ts, ss_polled = now, ss_open = Some fin\<rparr>
      \<lparr>ss_world = w', ss_pending = ts, ss_polled = now, ss_open = None\<rparr>"
| create: "run_state (CreateScheduledPublish tzdb s cmd) (ss_world st) = (r, w') \<Longrightarrow>
    sched_step tzdb s tasks st (st\<lparr>ss_world := w'\<rparr>)"
| cancel: "run_state (CancelScheduledPublish s i) (ss_world st) = (r, w') \<Longrightarrow>
    sched_step tzdb s tasks st (st\<lparr>ss_world := w'\<rparr>)"
| other: "tasks w' = tasks (ss_world st) \<Longrightarrow> sched_step tzdb s tasks st (st\<lparr>ss_world := w'\<rparr>)"

inductive_simps sched_step_open:
  "sched_step tzdb s tasks \<lparr>ss_world = w, ss_pending = [], ss_polled = t0, ss_open = Some fin\<rparr> st'"

text \<open>What a run may write: an active task has a next run, any other has none, and a run never cancels.\<close>

definition good_finish :: "scheduled_publish_finish \<Rightarrow> bool" where
  "good_finish r \<longleftrightarrow> (fin_TaskStatus r = TaskActive \<longleftrightarrow> fin_NextRunAt r \<noteq> None) \<and> fin_TaskStatus r \<noteq> TaskCanceled"

definition good_task :: "task_view \<Rightarrow> bool" where
  "good_task v \<longleftrightarrow> (tv_status v = TaskActive \<longleftrightarrow> tv_next v \<noteq> None) \<and> 0 \<le> tv_runs v"

lemma good_task_kept: "good_task v \<Longrightarrow> good_task (canceled i v)" "good_finish r \<Longrightarrow> good_task v \<Longrightarrow> good_task (finished r v)"
  by (auto simp: good_task_def good_finish_def canceled_def finished_def)

text \<open>What may become of a task that is no longer active: at most a cancellation.\<close>

definition retired :: "task_view \<Rightarrow> task_view \<Rightarrow> bool" where
  "retired v v' \<longleftrightarrow> v' = v \<or> v' = v\<lparr>tv_status := TaskCanceled, tv_next := None\<rparr>"

lemma retired_kept: "retired v (canceled i v)" "tv_status v \<noteq> TaskActive \<Longrightarrow> retired v (finished r v)" "retired v v"
  by (simp_all add: retired_def canceled_def finished_def)

lemma retired_canceled: "retired v v' \<Longrightarrow> tv_status v = TaskCanceled \<Longrightarrow> tv_next v = None \<Longrightarrow> v' = v"
  by (cases v) (auto simp: retired_def)

lemma NextRunAfterTask_next:
  "NextRunAfterTask tzdb task after = Inr nxt \<Longrightarrow> task_ScheduleType task \<noteq> ScheduleTypeOnce \<Longrightarrow> nxt \<noteq> None"
  by (auto simp: NextRunAfterTask_def split: sum.splits)

lemma run_outcome_good:
  assumes "run_outcome tzdb task sent finishedAt = (rs, ts, e, nxt)"
  shows "ts = TaskActive \<longleftrightarrow> nxt \<noteq> None" "ts \<noteq> TaskCanceled"
    "task_ScheduleType task = ScheduleTypeOnce \<Longrightarrow> nxt = None \<and> ts = (case sent of Inl _ \<Rightarrow> TaskFailed | Inr _ \<Rightarrow> TaskCompleted)"
    "nxt = Some t \<Longrightarrow> NextRunAfterTask tzdb task finishedAt = Inr (Some t)"
  using assms NextRunAfterTask_next [of tzdb task finishedAt]
  by (auto simp: run_outcome_def split: sum.splits if_splits)

lemma publish_task_run:
  assumes "run_state (publish_task tzdb s task startedAt) w = ((fin, err), w')"
  obtains sent w1 w2 where "run_state (PublishService_Publish (sp_publisher s) (command_of_task task)) w = (sent, w1)"
    "run_state (sp_clock s) w1 = (fin_FinishedAt fin, w2)" "w' = snd (run_state (sp_ids s) w2)" "good_finish fin"
    "fin_TaskID fin = task_ID task"
    "run_outcome tzdb task sent (fin_FinishedAt fin) = (fin_RunStatus fin, fin_TaskStatus fin, fin_Error fin, fin_NextRunAt fin)"
proof -
  obtain sent w1 where sent: "run_state (PublishService_Publish (sp_publisher s) (command_of_task task)) w = (sent, w1)"
    by (cases "run_state (PublishService_Publish (sp_publisher s) (command_of_task task)) w")
  obtain at w2 where at: "run_state (sp_clock s) w1 = (at, w2)" by (cases "run_state (sp_clock s) w1")
  obtain i w3 where i: "run_state (sp_ids s) w2 = (i, w3)" by (cases "run_state (sp_ids s) w2")
  obtain rs ts e nxt where out: "run_outcome tzdb task sent at = (rs, ts, e, nxt)" by (cases "run_outcome tzdb task sent at")
  show ?thesis
    using that [OF sent] assms sent at i out run_outcome_good(1,2) [OF out] by (auto simp: publish_task_def good_finish_def)
qed

locale scheduling = task_queue repo tasks
  for repo :: "'w scheduled_publish_repository" and tasks :: "'w \<Rightarrow> task_view set" +
  fixes s :: "'w scheduled_publish_service"
  assumes on_repo: "sp_repo s = repo"
    and quiet_collaborators: "leaves tasks (sp_clock s)" "leaves tasks (sp_ids s)"
      "leaves tasks (PublishService_Publish (sp_publisher s) cmd)"
begin

lemma publish_task_quiet: "leaves tasks (publish_task tzdb s task startedAt)"
  unfolding publish_task_def
  by (intro io_rules preorder_frame quiet_collaborators)
    (auto split: prod.split intro!: io_rules preorder_frame quiet_collaborators)

lemma create_run:
  assumes "run_state (CreateScheduledPublish tzdb s cmd) w = (r, w')"
  obtains (refused) e where "r = Inl e" "tasks w' = tasks w"
  | (created) t i now nextRunAt where "r = Inr t" "ValidateScheduleCommand tzdb cmd now = Inr nextRunAt" "\<forall>v \<in> tasks w. tv_id v \<noteq> i"
      "tasks w' = insert \<lparr>tv_id = i, tv_status = TaskActive, tv_next = Some nextRunAt, tv_runs = 0\<rparr> (tasks w)"
proof (cases "ValidateTextPayload (cs_PayloadText cmd) (sp_maxPayload s)")
  case (Inl e)
  then show ?thesis using assms by (intro refused [of e]) (simp_all add: CreateScheduledPublish_def)
next
  case valid: (Inr v)
  obtain now w1 where now: "run_state (sp_clock s) w = (now, w1)" by (cases "run_state (sp_clock s) w")
  have w1: "tasks w1 = tasks w" by (rule leavesD [OF quiet_collaborators(1) now])
  show ?thesis
  proof (cases "ValidateScheduleCommand tzdb cmd now")
    case (Inl e)
    then show ?thesis using assms valid now w1 by (intro refused [of e]) (simp_all add: CreateScheduledPublish_def)
  next
    case (Inr nextRunAt)
    obtain i w2 where i: "run_state (sp_ids s) w1 = (i, w2)" by (cases "run_state (sp_ids s) w1")
    have w2: "tasks w2 = tasks w" using leavesD [OF quiet_collaborators(2) i] w1 by simp
    have run: "run_state (sr_CreateScheduledTask repo (new_task cmd i now nextRunAt)) w2 = (r, w')"
      using assms valid now i Inr on_repo by (simp add: CreateScheduledPublish_def)
    show ?thesis
    proof (cases r)
      case (Inl e)
      then show ?thesis using create_error [OF run [unfolded Inl]] w2 by (intro refused [of e]) simp_all
    next
      case (Inr t)
      then show ?thesis using create_ok [OF run [unfolded Inr]] w2 \<open>ValidateScheduleCommand tzdb cmd now = Inr nextRunAt\<close>
        by (intro created [of t now nextRunAt i]) (simp_all add: new_task_def)
    qed
  qed
qed

lemma cancel_run:
  assumes "run_state (CancelScheduledPublish s i) w = (r, w')"
  shows "tasks w' = tasks w \<or> tasks w' = canceled i ` tasks w"
    "r = Inr t \<Longrightarrow> tasks w' = canceled i ` tasks w \<and> task_ID t = i \<and> view_of_task t \<in> tasks w'
      \<and> task_Status t = TaskCanceled \<and> task_NextRunAt t = None"
proof -
  obtain now w1 where now: "run_state (sp_clock s) w = (now, w1)" by (cases "run_state (sp_clock s) w")
  have w1: "tasks w1 = tasks w" by (rule leavesD [OF quiet_collaborators(1) now])
  show ok: "tasks w' = canceled i ` tasks w \<and> task_ID t = i \<and> view_of_task t \<in> tasks w'
      \<and> task_Status t = TaskCanceled \<and> task_NextRunAt t = None" if "r = Inr t" for t
    using that assms now w1 on_repo cancel_ok [of i now w1 t w']
    by (auto simp: CancelScheduledPublish_def split: if_splits)
  show "tasks w' = tasks w \<or> tasks w' = canceled i ` tasks w"
  proof (cases r)
    case (Inl e)
    then show ?thesis using assms now w1 on_repo cancel_error [of i now w1 e w']
      by (auto simp: CancelScheduledPublish_def split: if_splits)
  qed (use ok in simp)
qed

text \<open>The effect of one step on the tasks.\<close>

lemma step_tasks:
  assumes "sched_step tzdb s tasks st st'"
  obtains (same) "tasks (ss_world st') = tasks (ss_world st)" "\<And>r. ss_open st' = Some r \<Longrightarrow> ss_open st = Some r \<or> good_finish r"
  | (create) i t where "\<forall>v \<in> tasks (ss_world st). tv_id v \<noteq> i" "ss_open st' = ss_open st"
      "tasks (ss_world st') = insert \<lparr>tv_id = i, tv_status = TaskActive, tv_next = Some t, tv_runs = 0\<rparr> (tasks (ss_world st))"
  | (cancel) i where "tasks (ss_world st') = canceled i ` tasks (ss_world st)" "ss_open st' = ss_open st"
  | (finish) r where "ss_open st = Some r" "tasks (ss_world st') = finished r ` tasks (ss_world st)" "ss_open st' = None"
  using assms
proof (cases rule: sched_step.cases)
  case (poll w now w1 limit ts w2 t0)
  then have "tasks w2 = tasks w"
    using leavesD [OF quiet_collaborators(1) poll(3)] due_ok [OF poll(4) [unfolded on_repo]] by simp
  then show ?thesis using poll(1,2) by (intro same) simp_all
next
  case (publish t now w fin err w' ts)
  have "tasks w' = tasks w" by (rule leavesD [OF publish_task_quiet publish(3)])
  moreover from publish(3) have "good_finish fin" by (rule publish_task_run)
  ultimately show ?thesis using publish(1,2) by (intro same) simp_all
next
  case (finish fin w r w' ts now)
  show ?thesis
  proof (cases r)
    case (Inl e)
    then show ?thesis
      using finish finish_error [of fin w e w'] on_repo by (intro same) simp_all
  next
    case (Inr u)
    then show ?thesis
      using finish finish_ok [of fin w u w'] on_repo by (intro that(4) [of fin]) simp_all
  qed
next
  case (create cmd r w')
  from create(2) show ?thesis
  proof (cases rule: create_run)
    case (refused e)
    then show ?thesis using create(1) by (intro same) simp_all
  next
    case (created t i now nextRunAt)
    then show ?thesis using create(1) by (intro that(2) [of i nextRunAt]) simp_all
  qed
next
  case (cancel i r w')
  from cancel_run(1) [OF cancel(2)] show ?thesis
  proof
    assume "tasks w' = tasks (ss_world st)"
    then show ?thesis using cancel(1) by (intro same) simp_all
  next
    assume "tasks w' = canceled i ` tasks (ss_world st)"
    then show ?thesis using cancel(1) by (intro that(3) [of i]) simp_all
  qed
next
  case (other w')
  then show ?thesis by (intro same) simp_all
qed

definition tasks_ok :: "'w scheduler_state \<Rightarrow> bool" where
  "tasks_ok st \<longleftrightarrow> (\<forall>v \<in> tasks (ss_world st). good_task v)
     \<and> inj_on tv_id (tasks (ss_world st)) \<and> (\<forall>r. ss_open st = Some r \<longrightarrow> good_finish r)"

lemma ids_kept [simp]: "tv_id (canceled i v) = tv_id v" "tv_id (finished r v) = tv_id v"
  by (simp_all add: canceled_def finished_def)

lemma inj_image: "inj_on tv_id V \<Longrightarrow> (\<And>v. tv_id (f v) = tv_id v) \<Longrightarrow> inj_on tv_id (f ` V)"
  by (auto simp: inj_on_def)

lemma tasks_ok_step:
  assumes "sched_step tzdb s tasks st st'" "tasks_ok st"
  shows "tasks_ok st'"
  using assms(1)
proof (cases rule: step_tasks)
  case (create i t)
  then show ?thesis using assms(2) by (auto simp: tasks_ok_def good_task_def)
next
  case (cancel i)
  then show ?thesis using assms(2) by (auto simp: tasks_ok_def good_task_kept intro!: inj_image)
next
  case (finish r)
  then show ?thesis using assms(2) by (auto simp: tasks_ok_def good_task_kept intro!: inj_image)
qed (use assms(2) in \<open>auto simp: tasks_ok_def\<close>)

lemma tasks_ok_steps: "(sched_step tzdb s tasks)\<^sup>*\<^sup>* st st' \<Longrightarrow> tasks_ok st \<Longrightarrow> tasks_ok st'"
  by (induction rule: rtranclp_induct) (auto dest: tasks_ok_step)

text \<open>A task that is no longer active keeps its run count and never becomes active again; a canceled one stays as it is.\<close>

lemma retired_step:
  assumes "sched_step tzdb s tasks st st'" "v \<in> tasks (ss_world st)" "tv_status v \<noteq> TaskActive"
  shows "\<exists>v' \<in> tasks (ss_world st'). retired v v'"
  using assms(1)
proof (cases rule: step_tasks)
  case (cancel i)
  then show ?thesis using assms(2) retired_kept(1) by auto
next
  case (finish r)
  then show ?thesis using assms(2,3) retired_kept(2) by auto
qed (use assms(2) retired_kept(3) in auto)

lemma retired_steps:
  assumes "(sched_step tzdb s tasks)\<^sup>*\<^sup>* st st'" "v \<in> tasks (ss_world st)" "tv_status v \<noteq> TaskActive"
  shows "\<exists>v' \<in> tasks (ss_world st'). retired v v'"
  using assms(1)
proof (induction rule: rtranclp_induct)
  case base
  then show ?case using assms(2) by (auto simp: retired_def)
next
  case (step y z)
  then obtain v' where v': "v' \<in> tasks (ss_world y)" "retired v v'" by blast
  then have "tv_status v' \<noteq> TaskActive" using assms(3) by (auto simp: retired_def)
  from retired_step [OF step(2) v'(1) this] show ?case using v'(2) by (auto simp: retired_def)
qed

text \<open>A poll of the program is a path of the machine.\<close>

lemma runOne_steps:
  "(sched_step tzdb s tasks)\<^sup>*\<^sup>* \<lparr>ss_world = w, ss_pending = t # ts, ss_polled = now, ss_open = None\<rparr>
     \<lparr>ss_world = snd (run_state (runOne tzdb s t now) w), ss_pending = ts, ss_polled = now, ss_open = None\<rparr>"
proof -
  obtain fin err w1 where p: "run_state (publish_task tzdb s t now) w = ((fin, err), w1)"
    by (cases "run_state (publish_task tzdb s t now) w") auto
  obtain r w2 where f: "run_state (sr_FinishScheduledRun (sp_repo s) fin) w1 = (r, w2)"
    by (cases "run_state (sr_FinishScheduledRun (sp_repo s) fin) w1")
  have "snd (run_state (runOne tzdb s t now) w) = w2"
    using p f by (auto simp: runOne_def split: sum.split option.split)
  then show ?thesis
    using sched_step.publish [OF p, of tasks ts] sched_step.finish [OF f, of tzdb tasks ts now]
    by (auto intro: converse_rtranclp_into_rtranclp)
qed

lemma run_tasks_steps:
  "(sched_step tzdb s tasks)\<^sup>*\<^sup>* \<lparr>ss_world = w, ss_pending = ts, ss_polled = now, ss_open = None\<rparr>
     \<lparr>ss_world = snd (run_state (run_tasks tzdb s now ts) w), ss_pending = [], ss_polled = now, ss_open = None\<rparr>"
proof (induction ts arbitrary: w)
  case (Cons t ts)
  show ?case
    using rtranclp_trans [OF runOne_steps [of tzdb w t ts now] Cons [of "snd (run_state (runOne tzdb s t now) w)"]]
    by simp
qed simp

lemma RunDue_steps:
  assumes "run_state (RunDue tzdb s limit) w = (r, w')"
  shows "\<exists>now. (sched_step tzdb s tasks)\<^sup>*\<^sup>* \<lparr>ss_world = w, ss_pending = [], ss_polled = t0, ss_open = None\<rparr>
     \<lparr>ss_world = w', ss_pending = [], ss_polled = now, ss_open = None\<rparr>"
proof -
  let ?l = "if limit \<le> 0 then 20 else limit"
  obtain now w1 where now: "run_state (sp_clock s) w = (now, w1)" by (cases "run_state (sp_clock s) w")
  obtain rs w2 where due: "run_state (sr_ListDueScheduledTasks (sp_repo s) now ?l) w1 = (rs, w2)"
    by (cases "run_state (sr_ListDueScheduledTasks (sp_repo s) now ?l) w1")
  show ?thesis
  proof (cases rs)
    case (Inl e)
    have "tasks w2 = tasks w"
      using leavesD [OF quiet_collaborators(1) now] due_error [of now ?l w1 e w2] due on_repo Inl by simp
    moreover have "w' = w2" using assms now due Inl by (simp add: RunDue_def)
    ultimately show ?thesis
      using sched_step.other [of tasks w' "\<lparr>ss_world = w, ss_pending = [], ss_polled = t0, ss_open = None\<rparr>" tzdb s]
      by (intro exI [of _ t0]) auto
  next
    case (Inr ts)
    have "w' = snd (run_state (run_tasks tzdb s now ts) w2)" using assms now due Inr by (auto simp: RunDue_def split: prod.splits)
    with sched_step.poll [OF now due [unfolded Inr], of tzdb tasks t0] run_tasks_steps [of tzdb w2 ts now] show ?thesis
      by (auto intro: converse_rtranclp_into_rtranclp)
  qed
qed

text \<open>A recorded run of an active task.\<close>

lemma recorded_run:
  assumes "run_state (publish_task tzdb s task startedAt) w = ((fin, err), w1)"
    and "run_state (sr_FinishScheduledRun repo fin) w1 = (Inr u, w')"
    and "v \<in> tasks w" "tv_id v = task_ID task" "tv_status v = TaskActive"
  shows "v\<lparr>tv_status := fin_TaskStatus fin, tv_next := fin_NextRunAt fin, tv_runs := tv_runs v + 1\<rparr> \<in> tasks w'"
proof -
  from assms(1) have "fin_TaskID fin = task_ID task" by (rule publish_task_run)
  then have "finished fin v = v\<lparr>tv_status := fin_TaskStatus fin, tv_next := fin_NextRunAt fin, tv_runs := tv_runs v + 1\<rparr>"
    using assms(4,5) by (simp add: finished_def)
  moreover have "tasks w1 = tasks w" by (rule leavesD [OF publish_task_quiet assms(1)])
  ultimately show ?thesis using finish_ok [OF assms(2)] assms(3) by (metis imageI)
qed

end

section \<open>The scheduler on the store\<close>

definition app_scheduled_service :: "(string \<Rightarrow> string \<Rightarrow> bool) \<Rightarrow> int \<Rightarrow> int \<Rightarrow> world scheduled_publish_service" where
  "app_scheduled_service ilike timeout maxPayload =
     NewScheduledPublishService clock_now new_id store_tasks (app_publish_service ilike timeout maxPayload)
       (Some clock_now) (Some new_id) maxPayload"

lemma app_scheduled_service_simps [simp]:
  "sp_repo (app_scheduled_service ilike timeout maxPayload) = store_tasks"
  "sp_publisher (app_scheduled_service ilike timeout maxPayload) = app_publish_service ilike timeout maxPayload"
  "sp_clock (app_scheduled_service ilike timeout maxPayload) = clock_now"
  "sp_ids (app_scheduled_service ilike timeout maxPayload) = new_id"
  "sp_maxPayload (app_scheduled_service ilike timeout maxPayload) = maxPayload"
  by (simp_all add: app_scheduled_service_def NewScheduledPublishService_def)

text \<open>A publish leaves every table alone but those of the messages and the commands.\<close>

lemma command_statements:
  assumes "\<And>d t. v (d\<lparr>db_commands := t\<rparr>) = v d"
  shows "leaves (\<lambda>w. v (w_db w)) (CreatePublishCommand i cmd at)" "leaves (\<lambda>w. v (w_db w)) (MarkPublishCommand i st e pub)"
  using assms unfolding CreatePublishCommand_def MarkPublishCommand_def
  by (auto simp: stmt_leaves_def create_command_stmt_def mark_command_stmt_def put_table_ok Let_def
      intro!: rel_ebind rel_return preorder_frame exec_pool_leaves)

lemma publish_leaves:
  assumes "beside_messages v" "\<And>d t. v (d\<lparr>db_commands := t\<rparr>) = v d"
  shows "leaves (\<lambda>w. v (w_db w)) (PublishService_Publish (app_publish_service ilike timeout maxPayload) cmd)"
  unfolding PublishService_Publish_def app_publish_service_simps store_commands_def publish_command_repository.simps
    store_topics_def topic_repository.simps
  by (intro io_rules preorder_frame clock_leaves id_leaves message_path_leaves command_statements assms)
    (auto intro!: io_rules preorder_frame clock_leaves message_path_leaves command_statements assms)

interpretation sched: scheduling store_tasks tasks_view "app_scheduled_service ilike timeout maxPayload"
  for ilike timeout maxPayload
proof unfold_locales
  have "beside_messages (\<lambda>d. task_row_view ` set (db_tasks d))" by (simp add: beside_messages_def)
  then show "leaves tasks_view (PublishService_Publish (sp_publisher (app_scheduled_service ilike timeout maxPayload)) cmd)" for cmd
    unfolding tasks_view_def [abs_def] app_scheduled_service_simps by (rule publish_leaves) simp
qed (simp_all add: clock_leaves id_leaves tasks_view_def [abs_def])

abbreviation interleaved :: "(string \<Rightarrow> location option) \<Rightarrow> (string \<Rightarrow> string \<Rightarrow> bool) \<Rightarrow> int \<Rightarrow> int \<Rightarrow>
    world scheduler_state \<Rightarrow> world scheduler_state \<Rightarrow> bool" where
  "interleaved tzdb ilike timeout maxPayload \<equiv>
     (sched_step tzdb (app_scheduled_service ilike timeout maxPayload) tasks_view)\<^sup>*\<^sup>*"

text \<open>
  C2. A cancellation is final. Once a cancel call has answered, the task stays canceled, without a next run and with the run
  count it had, whatever the scheduler and the other requests do afterwards; a run of it that was already
  under way is recorded without changing the task.
\<close>

theorem cancellation_is_final:
  assumes "run_state (CancelScheduledPublish (app_scheduled_service ilike timeout maxPayload) i) (ss_world st) = (Inr t, w1)"
    and "interleaved tzdb ilike timeout maxPayload (st\<lparr>ss_world := w1\<rparr>) st'"
  shows "view_of_task t \<in> tasks_view (ss_world st') \<and> task_ID t = i \<and> task_Status t = TaskCanceled \<and> task_NextRunAt t = None"
proof -
  note c = sched.cancel_run(2) [OF assms(1) refl]
  then have t: "task_ID t = i" "task_Status t = TaskCanceled" "task_NextRunAt t = None" by simp_all
  then have v: "tv_status (view_of_task t) = TaskCanceled" "tv_next (view_of_task t) = None" by (simp_all add: view_of_task_def)
  have "view_of_task t \<in> tasks_view w1" using c by blast
  then have "\<exists>v' \<in> tasks_view (ss_world st'). retired (view_of_task t) v'"
    using v by (intro sched.retired_steps [OF assms(2)]) simp_all
  then have "view_of_task t \<in> tasks_view (ss_world st')" using v by (metis retired_canceled)
  then show ?thesis using t by simp
qed

text \<open>
  C12. The table of tasks. In every interleaving of polls, runs, creations and cancellations, a task has a next run exactly
  while it is active, its run count is not negative, and no two tasks share an id.
\<close>

theorem task_table_invariant:
  assumes "interleaved tzdb ilike timeout maxPayload st st'" "ss_open st = None"
    and "\<forall>v \<in> tasks_view (ss_world st). good_task v" "inj_on tv_id (tasks_view (ss_world st))"
  shows "(\<forall>v \<in> tasks_view (ss_world st'). (tv_status v = TaskActive \<longleftrightarrow> tv_next v \<noteq> None) \<and> 0 \<le> tv_runs v)
    \<and> inj_on tv_id (tasks_view (ss_world st'))"
  using sched.tasks_ok_steps [OF assms(1)] assms(2-4) by (simp_all add: sched.tasks_ok_def good_task_def)


section \<open>One run\<close>

lemma finish_leaves:
  assumes "\<And>d t. v (d\<lparr>db_tasks := t\<rparr>) = v d" "\<And>d t. v (d\<lparr>db_runs := t\<rparr>) = v d"
  shows "leaves (\<lambda>w. v (w_db w)) (FinishScheduledRun fin)"
  unfolding FinishScheduledRun_def
  by (intro in_tx_leaves rel_ebind preorder_invariant exec_tx_keeps tx_keeps stmt_leaves_keeps)
    (use assms in \<open>auto simp: stmt_leaves_def insert_run_stmt_def finish_task_stmt_def put_new_ok Let_def split: if_splits\<close>)

lemma weekly_after: "weekly_loop loc h m allowed now offsets = Inr t \<Longrightarrow> now < t"
  by (induction loc h m allowed now offsets rule: weekly_loop.induct) (auto simp: After_def split: if_splits)

lemma NextRunAfterTask_weekly:
  "NextRunAfterTask tzdb task after = Inr (Some t) \<Longrightarrow> task_ScheduleType task = ScheduleTypeWeekly \<Longrightarrow> after < t"
  by (auto simp: NextRunAfterTask_def NextRunForCommand_def schedule_of_task_def nextWeeklyRun_def
      simp del: weekly_loop.simps split: sum.splits if_splits dest: weekly_after)


text \<open>
  Listing the tasks never succeeds. The columns \<open>id\<close> and \<open>status\<close> of the statement belong to both joined tables, so
  the database refuses it whatever the filter and the contents.
\<close>

theorem listing_tasks_fails:
  "\<exists>e. fst (run_state (ListScheduledPublishes (app_scheduled_service ilike timeout maxPayload) f) w) = Inl e"
proof -
  have "resolve_columns [task_columns, device_columns] task_columns \<noteq> None" by code_simp
  then show ?thesis
    by (auto simp: ListScheduledPublishes_def store_tasks_def ListScheduledTasks_def read_page_checked_def exec_pool_def Let_def
        split: prod.splits option.splits)
qed

section \<open>When the environment answers\<close>

lemma publish_service_beside:
  assumes "beside_path v" "\<And>w n. v (w\<lparr>w_idn := n\<rparr>) = v w" "\<And>w n ms. v (w\<lparr>w_sends := n, w_sent := ms\<rparr>) = v w"
  shows "leaves v (PublishService_Publish (app_publish_service ilike timeout maxPayload) cmd)"
proof -
  have now: "leaves v clock_now" "leaves v new_id" "leaves v ctx_Err"
    using assms(1,2) by (auto simp: beside_path_def intro!: clock_leaves id_leaves ctx_leaves)
  have "leaves v (broker_publish (app_hook timeout maxPayload) topic payload retain qos)" for topic payload retain qos
    unfolding broker_publish_def
    by (intro rel_bind preorder_frame OnPublish_beside assms) (simp add: state_io_rel_def assms(3))
  then have "leaves v (Server_Publish (broker_publish (app_hook timeout maxPayload)) ctx_Err topic payload opts)" for topic payload opts
    unfolding Server_Publish_def by (intro io_rules preorder_frame now)
  then show ?thesis
    unfolding PublishService_Publish_def app_publish_service_simps store_commands_def publish_command_repository.simps
      store_topics_def topic_repository.simps CreatePublishCommand_def MarkPublishCommand_def RecordAdminPublishTopic_def
    by (intro io_rules preorder_frame now statements_beside assms)
      (auto intro!: io_rules preorder_frame now statements_beside assms(1))
qed

lemma exec_tx_answers:
  "answering w \<Longrightarrow> w_tx w = Some t \<Longrightarrow> f (w_uuid w (w_stmts w)) t = Inr (x, d) \<Longrightarrow>
     run_state (exec_tx f) w = (Inr x, w\<lparr>w_stmts := Suc (w_stmts w), w_tx := Some d\<rparr>)"
  by (simp add: answering_def exec_tx_def)

lemma finish_succeeds:
  assumes "answering w" "fin_RunID fin \<notin> r_id ` set (db_runs (w_db w))" "task_exists (w_db w) (fin_TaskID fin)"
    and "fin_PublishCommandID fin = [] \<or> command_exists (w_db w) (fin_PublishCommandID fin)"
    and "\<forall>r \<in> set (db_tasks (w_db w)). k_run_count r < 2147483647"
  shows "\<exists>w'. run_state (FinishScheduledRun fin) w = (Inr (), w')"
proof -
  have "null_or (command_exists (w_db w)) (if fin_PublishCommandID fin = [] then None else Some (fin_PublishCommandID fin))"
    using assms(4) by (auto simp: null_or_def)
  then obtain d1 where run: "\<And>u. insert_run_stmt fin u (w_db w) = Inr ((), d1)" and d1: "db_tasks d1 = db_tasks (w_db w)"
    using assms(2,3) by (simp add: insert_run_stmt_def insert_row_def put_new_def)
  obtain d2 where fin: "\<And>u. finish_task_stmt fin u d1 = Inr ((), d2)"
    using assms(5) by (force simp: finish_task_stmt_def Let_def d1)
  let ?w = "w\<lparr>w_stmts := Suc (w_stmts w), w_tx := Some (w_db w)\<rparr>"
  let ?w1 = "?w\<lparr>w_stmts := Suc (Suc (w_stmts w)), w_tx := Some d1\<rparr>"
  have "run_state tx_begin w = (Inr (), ?w)" using assms(1) by (simp add: tx_begin_def answering_def Let_def)
  moreover have "run_state (exec_tx (insert_run_stmt fin)) ?w = (Inr (), ?w1)"
    using exec_tx_answers [of ?w "w_db w" "insert_run_stmt fin" "()" d1] run assms(1) by (simp add: answering_def)
  moreover have "run_state (exec_tx (finish_task_stmt fin)) ?w1
      = (Inr (), ?w1\<lparr>w_stmts := Suc (Suc (Suc (w_stmts w))), w_tx := Some d2\<rparr>)"
    using exec_tx_answers [of ?w1 d1 "finish_task_stmt fin" "()" d2] fin assms(1) by (simp add: answering_def)
  ultimately show ?thesis
    using assms(1) by (simp add: FinishScheduledRun_def in_tx_def tx_commit_def answering_def)
qed

lemma task_runs:
  assumes "answering w" "validate_command maxPayload (command_of_task task) = Inr ()" "task_exists (w_db w) (task_ID task)"
    and "\<forall>n. w_ids w n \<notin> c_id ` set (db_commands (w_db w))" "\<forall>n. w_ids w n \<notin> r_id ` set (db_runs (w_db w))"
    and "\<forall>r \<in> set (db_tasks (w_db w)). k_run_count r < 2147483647"
  shows "\<exists>w'. run_state (runOne tzdb (app_scheduled_service ilike timeout maxPayload) task startedAt) w = (Inr (), w')"
proof -
  let ?s = "app_scheduled_service ilike timeout maxPayload"
  let ?publish = "PublishService_Publish (app_publish_service ilike timeout maxPayload) (command_of_task task)"
  obtain at w1 where sent: "run_state ?publish w
      = (Inr \<lparr>res_CommandID = w_ids w (w_idn w), res_Status = PublishStatusPublished, res_PublishedAt = at\<rparr>, w1)"
    using publish_succeeds [OF assms(1,2)] assms(4) by blast
  have "leaves (\<lambda>w. (answering w, w_ids w)) ?publish"
    by (rule publish_service_beside) (simp_all add: beside_path_def answering_def)
  from leavesD [OF this sent] assms(1) have w1: "answering w1" "w_ids w1 = w_ids w" by simp_all
  have "leaves (\<lambda>w. (db_tasks (w_db w), db_runs (w_db w))) ?publish"
    using publish_leaves [of "\<lambda>d. (db_tasks d, db_runs d)"] by (simp add: beside_messages_def)
  from leavesD [OF this sent] have db: "db_tasks (w_db w1) = db_tasks (w_db w)" "db_runs (w_db w1) = db_runs (w_db w)" by simp_all
  have "command_view w1 (w_ids w (w_idn w)) \<noteq> None"
    using sent by (cases rule: pub.publish_run) auto
  then have cmd: "command_exists (w_db w1) (w_ids w (w_idn w))"
    by (force simp: command_view_def command_exists_def dest!: find_SomeD)
  obtain fin err w2 where p: "run_state (publish_task tzdb ?s task startedAt) w = ((fin, err), w2)"
    by (cases "run_state (publish_task tzdb ?s task startedAt) w") auto
  have err: "err = None" and fin: "fin_TaskID fin = task_ID task" "fin_PublishCommandID fin = w_ids w (w_idn w)"
      "fin_RunID fin = w_ids w (w_idn w1)" and w2: "w_db w2 = w_db w1" "answering w2"
    using p sent w1 by (auto simp: publish_task_def answering_def split: prod.splits)
  have "\<exists>w'. run_state (FinishScheduledRun fin) w2 = (Inr (), w')"
    by (rule finish_succeeds) (use w2 fin db cmd assms(3,5,6) in \<open>simp_all add: task_exists_def\<close>)
  then show ?thesis using p err by (auto simp: runOne_def store_tasks_def)
qed

text \<open>
  C35. A valid task runs. When the database and the broker answer and the generator's ids are new, the run of a stored task
  whose topic, level and payload are valid succeeds, so that its run is recorded and its message published.
\<close>

theorem valid_task_runs:
  assumes "answering w" "validate_command maxPayload (command_of_task task) = Inr ()" "task_exists (w_db w) (task_ID task)"
    and "\<forall>n. w_ids w n \<notin> c_id ` set (db_commands (w_db w))" "\<forall>n. w_ids w n \<notin> r_id ` set (db_runs (w_db w))"
    and "\<forall>r \<in> set (db_tasks (w_db w)). k_run_count r < 2147483647"
  shows "\<exists>w'. run_state (runOne tzdb (app_scheduled_service ilike timeout maxPayload) task startedAt) w = (Inr (), w')"
  using assms by (rule task_runs)

section \<open>A task at concrete values\<close>

definition light_device :: device_row where
  "light_device = \<lparr>d_id = ''x'', d_client_id = ''d'', d_type = ''unknown'', d_status = DeviceStatusOffline, d_session_id = [],
     d_first_seen_at = 0, d_last_seen_at = 0, d_last_disconnected_at = None, d_metadata = Map.empty\<rparr>"

definition light_row :: task_row where
  "light_row = \<lparr>k_id = ''k'', k_device_id = ''x'', k_admin_user_id = ''u1'', k_name = ''on'', k_topic = ''t'', k_payload_text = ''m'',
     k_qos = 1, k_retain = False, k_schedule_type = ScheduleTypeOnce, k_run_at = Some 5, k_time_of_day = [], k_weekdays = [],
     k_timezone = ''UTC'', k_status = TaskActive, k_next_run_at = Some 5, k_last_run_at = None, k_last_error = [], k_run_count = 0,
     k_created_at = 1, k_updated_at = 1\<rparr>"

definition light_task :: scheduled_publish_task_dto where
  "light_task = (case scanScheduledTask (light_row, Some ''d'') of Inr t \<Rightarrow> t)"

definition light_world :: world where
  "light_world = start_world (seed_db\<lparr>db_devices := [light_device], db_tasks := [light_row]\<rparr>)"

definition light_view :: task_view where
  "light_view = \<lparr>tv_id = ''k'', tv_status = TaskActive, tv_next = Some 5, tv_runs = 0\<rparr>"

lemma light_facts:
  "answering light_world" "tasks_view light_world = {light_view}" "tv_id light_view = task_ID light_task"
  "tv_status light_view = TaskActive" "task_ScheduleType light_task = ScheduleTypeOnce" "task_Topic light_task = ''t''"
  "command_of_task light_task = hello_command"
  by (simp_all add: light_world_def start_world_def seed_db_def answering_def tasks_view_def task_row_view_def light_row_def light_view_def
      light_task_def scanScheduledTask_def command_of_task_def hello_command_def byte_of_smallint_def)

lemma light_db:
  "task_exists (w_db light_world) (task_ID light_task)" "db_commands (w_db light_world) = []" "db_runs (w_db light_world) = []"
  "db_tasks (w_db light_world) = [light_row]"
  by (simp_all add: light_world_def start_world_def seed_db_def task_exists_def light_row_def light_task_def scanScheduledTask_def)

theorem valid_task_runs_witness:
  "\<exists>w'. run_state (runOne (\<lambda>_. None) (app_scheduled_service (\<lambda>_ _. True) 1000 100) light_task 7) light_world = (Inr (), w')"
  by (rule valid_task_runs) (simp_all add: light_facts light_db hello_command_valid light_row_def)


lemma light_canceled:
  obtains t w1 where "run_state (CancelScheduledPublish (app_scheduled_service (\<lambda>_ _. True) 1000 100) ''k'') light_world = (Inr t, w1)"
  by (auto simp: CancelScheduledPublish_def store_tasks_def CancelScheduledTask_def exec_pool_answers answering_def light_world_def
      start_world_def seed_db_def cancel_task_stmt_def find_row_def light_row_def client_of_def light_device_def scanScheduledTask_def Let_def)

theorem cancellation_is_final_witness:
  "\<exists>t w1. view_of_task t \<in> tasks_view (snd (run_state (RunDue (\<lambda>_. None) (app_scheduled_service (\<lambda>_ _. True) 1000 100) 5) w1))
     \<and> task_ID t = ''k'' \<and> task_Status t = TaskCanceled"
proof -
  let ?s = "app_scheduled_service (\<lambda>_ _. True) 1000 100"
  let ?st = "\<lparr>ss_world = light_world, ss_pending = [], ss_polled = 0, ss_open = None\<rparr>"
  obtain t w1 where c: "run_state (CancelScheduledPublish ?s ''k'') light_world = (Inr t, w1)" by (rule light_canceled)
  then have c': "run_state (CancelScheduledPublish ?s ''k'') (ss_world ?st) = (Inr t, w1)" by simp
  have "\<exists>now. interleaved (\<lambda>_. None) (\<lambda>_ _. True) 1000 100 \<lparr>ss_world = w1, ss_pending = [], ss_polled = 0, ss_open = None\<rparr>
      \<lparr>ss_world = snd (run_state (RunDue (\<lambda>_. None) ?s 5) w1), ss_pending = [], ss_polled = now, ss_open = None\<rparr>"
    by (rule sched.RunDue_steps [OF surjective_pairing])
  then obtain now where path: "interleaved (\<lambda>_. None) (\<lambda>_ _. True) 1000 100 (?st\<lparr>ss_world := w1\<rparr>)
      \<lparr>ss_world = snd (run_state (RunDue (\<lambda>_. None) ?s 5) w1), ss_pending = [], ss_polled = now, ss_open = None\<rparr>"
    by auto
  show ?thesis
    using cancellation_is_final [OF c' path] by auto
qed

theorem task_table_invariant_witness:
  "inj_on tv_id (tasks_view (snd (run_state (RunDue (\<lambda>_. None) (app_scheduled_service (\<lambda>_ _. True) 1000 100) 5) light_world)))"
proof -
  let ?s = "app_scheduled_service (\<lambda>_ _. True) 1000 100"
  let ?st = "\<lparr>ss_world = light_world, ss_pending = [], ss_polled = 0, ss_open = None\<rparr>"
  have "\<exists>now. interleaved (\<lambda>_. None) (\<lambda>_ _. True) 1000 100 \<lparr>ss_world = light_world, ss_pending = [], ss_polled = 0, ss_open = None\<rparr>
      \<lparr>ss_world = snd (run_state (RunDue (\<lambda>_. None) ?s 5) light_world), ss_pending = [], ss_polled = now, ss_open = None\<rparr>"
    by (rule sched.RunDue_steps [OF surjective_pairing])
  then obtain now where path: "interleaved (\<lambda>_. None) (\<lambda>_ _. True) 1000 100 ?st
      \<lparr>ss_world = snd (run_state (RunDue (\<lambda>_. None) ?s 5) light_world), ss_pending = [], ss_polled = now, ss_open = None\<rparr>"
    by auto
  show ?thesis
    using task_table_invariant [OF path] by (simp add: light_facts good_task_def light_view_def)
qed

end
