(* ===== verification/QuickActions.thy ===== *)
theory QuickActions
  imports Publishing
begin

text \<open>
  Quick actions (\<open>internal/service/quick_action.go\<close>): named messages that an administrator stores for an infrared controller
  and sends with one request.
\<close>

section \<open>The service\<close>

record 'w quick_action_service =
  qs_repo :: "'w quick_action_repository"
  qs_GetDevice :: "string \<Rightarrow> ('w, device_dto) eio"
  qs_Publish :: "publish_command \<Rightarrow> ('w, publish_result) eio"
  qs_clock :: "'w clock"
  qs_ids :: "'w id_generator"
  qs_maxPayload :: int

definition NewQuickActionService :: "'w clock \<Rightarrow> 'w id_generator \<Rightarrow> 'w quick_action_repository \<Rightarrow> (string \<Rightarrow> ('w, device_dto) eio) \<Rightarrow>
    (publish_command \<Rightarrow> ('w, publish_result) eio) \<Rightarrow> 'w clock option \<Rightarrow> 'w id_generator option \<Rightarrow> int \<Rightarrow> 'w quick_action_service" where
  "NewQuickActionService system_clock random_ids repo get_device publish clock ids maxPayload =
     \<lparr>qs_repo = repo, qs_GetDevice = get_device, qs_Publish = publish,
      qs_clock = (case clock of None \<Rightarrow> system_clock | Some c \<Rightarrow> c),
      qs_ids = (case ids of None \<Rightarrow> random_ids | Some g \<Rightarrow> g), qs_maxPayload = maxPayload\<rparr>"

definition unsupported_device :: go_error where
  "unsupported_device =
     InvalidInput ''unsupported_device_type'' ''quick actions are only available for smart infrared controllers''"

definition bad_action_id :: go_error where
  "bad_action_id = InvalidInput ''invalid_quick_action_id'' ''quick action id must not be empty''"

definition new_action :: "create_quick_action_command \<Rightarrow> string \<Rightarrow> time \<Rightarrow> quick_action_dto" where
  "new_action cmd i now =
     \<lparr>qa_ID = i, qa_DeviceID = cq_DeviceID cmd, qa_ClientID = [], qa_AdminUserID = cq_AdminUserID cmd, qa_Name = cq_Name cmd,
      qa_Topic = cq_Topic cmd, qa_PayloadText = cq_PayloadText cmd, qa_QoS = cq_QoS cmd, qa_Retain = cq_Retain cmd,
      qa_CreatedAt = now, qa_UpdatedAt = now\<rparr>"

definition trimmed :: "create_quick_action_command \<Rightarrow> create_quick_action_command" where
  "trimmed cmd = cmd\<lparr>cq_Name := TrimSpace (cq_Name cmd), cq_Topic := TrimSpace (cq_Topic cmd)\<rparr>"

definition QuickActionService_Create :: "'w quick_action_service \<Rightarrow> create_quick_action_command \<Rightarrow> ('w, quick_action_dto) eio" where
  "QuickActionService_Create s cmd =
     (let cmd = trimmed cmd in
      ebind (check (ValidateQuickActionCommand cmd (qs_maxPayload s))) (\<lambda>_.
      ebind (qs_GetDevice s (cq_DeviceID cmd)) (\<lambda>device.
      if dev_Type device \<noteq> InfraredControllerType then fail unsupported_device
      else State_Monad.bind (qs_clock s) (\<lambda>now.
        State_Monad.bind (qs_ids s) (\<lambda>i. qr_CreateQuickAction (qs_repo s) (new_action cmd i now))))))"

definition QuickActionService_List :: "'w quick_action_service \<Rightarrow> quick_action_filter \<Rightarrow> ('w, quick_action_dto page) eio" where
  "QuickActionService_List s f =
     (let (p, ps) = NormalizePage (qf_Page f) (qf_PageSize f) in
      qr_ListQuickActions (qs_repo s) (f\<lparr>qf_Page := p, qf_PageSize := ps\<rparr>))"

definition QuickActionService_Delete :: "'w quick_action_service \<Rightarrow> string \<Rightarrow> ('w, unit) eio" where
  "QuickActionService_Delete s i =
     (if TrimSpace i = [] then fail bad_action_id else qr_DeleteQuickAction (qs_repo s) i)"

definition command_of_action :: "quick_action_dto \<Rightarrow> string \<Rightarrow> publish_command" where
  "command_of_action a user = \<lparr>cmd_AdminUserID = user, cmd_Topic = qa_Topic a, cmd_PayloadText = qa_PayloadText a,
     cmd_QoS = qa_QoS a, cmd_Retain = qa_Retain a\<rparr>"

definition ExecuteQuickAction :: "'w quick_action_service \<Rightarrow> string \<Rightarrow> string \<Rightarrow> ('w, quick_action_execute_result) eio" where
  "ExecuteQuickAction s i adminUserID =
     (if TrimSpace i = [] then fail bad_action_id
      else ebind (qr_GetQuickAction (qs_repo s) i) (\<lambda>action.
        ebind (qs_GetDevice s (qa_DeviceID action)) (\<lambda>device.
        if dev_Type device \<noteq> InfraredControllerType then fail unsupported_device
        else ebind (qs_Publish s (command_of_action action adminUserID)) (\<lambda>result.
          ok \<lparr>qr_ActionID = qa_ID action, qr_CommandID = res_CommandID result, qr_Status = res_Status result,
              qr_PublishedAt = res_PublishedAt result\<rparr>))))"

section \<open>The contract\<close>

text \<open>
  The stored actions, each without the client id that a listing adds, and the type of every device. A name belongs to at most
  one action of a device: storing it again replaces that action and keeps its id.
\<close>

definition action_key :: "quick_action_dto \<Rightarrow> string \<times> string" where
  "action_key a = (qa_DeviceID a, qa_Name a)"

definition stored_action :: "quick_action_dto \<Rightarrow> quick_action_dto" where
  "stored_action a = a\<lparr>qa_ClientID := []\<rparr>"

definition same_message :: "quick_action_dto \<Rightarrow> quick_action_dto \<Rightarrow> bool" where
  "same_message a b \<longleftrightarrow> action_key a = action_key b \<and> qa_AdminUserID a = qa_AdminUserID b \<and> qa_Topic a = qa_Topic b
     \<and> qa_PayloadText a = qa_PayloadText b \<and> qa_QoS a = qa_QoS b \<and> qa_Retain a = qa_Retain b"

lemma same_message_stored [simp]: "same_message a (stored_action b) \<longleftrightarrow> same_message a b"
  by (simp add: same_message_def stored_action_def action_key_def)

locale quick_action_book =
  fixes repo :: "'w quick_action_repository" and get_device :: "string \<Rightarrow> ('w, device_dto) eio"
    and actions :: "'w \<Rightarrow> quick_action_dto set" and device_type :: "'w \<Rightarrow> string \<Rightarrow> string option" and consistent :: "'w \<Rightarrow> bool"
  assumes get_ok: "run_state (qr_GetQuickAction repo i) w = (Inr a, w') \<Longrightarrow> stored_action a \<in> actions w \<and> qa_ID a = i"
    and get_leaves: "leaves (\<lambda>w. (actions w, device_type w)) (qr_GetQuickAction repo i)" "leaves (\<lambda>w. (actions w, device_type w)) (get_device i)"
    and device_ok: "run_state (get_device i) w = (Inr d, w') \<Longrightarrow> device_type w i = Some (dev_Type d)"
    and create_ok: "run_state (qr_CreateQuickAction repo a) w = (Inr b, w') \<Longrightarrow> consistent w \<Longrightarrow>
      actions w' = insert (stored_action b) {x \<in> actions w. action_key x \<noteq> action_key a} \<and> same_message a b
      \<and> (\<forall>x \<in> actions w. action_key x = action_key a \<longrightarrow> qa_ID x = qa_ID b)"
    and create_error: "run_state (qr_CreateQuickAction repo a) w = (Inl e, w') \<Longrightarrow> consistent w \<Longrightarrow> actions w' = actions w"
    and delete_ok: "run_state (qr_DeleteQuickAction repo i) w = (Inr u, w') \<Longrightarrow> actions w' = {x \<in> actions w. qa_ID x \<noteq> i}"
    and delete_error: "run_state (qr_DeleteQuickAction repo i) w = (Inl e, w') \<Longrightarrow> actions w' = actions w"

locale quick_actions = quick_action_book repo get_device actions device_type consistent
  for repo :: "'w quick_action_repository" and get_device and actions and device_type and consistent +
  fixes s :: "'w quick_action_service"
  assumes on_repo: "qs_repo s = repo" "qs_GetDevice s = get_device"
    and quiet: "leaves (\<lambda>w. (actions w, device_type w)) (qs_clock s)" "leaves (\<lambda>w. (actions w, device_type w)) (qs_ids s)"
    and consistent_kept: "run_state (get_device i) w = (d, w1) \<Longrightarrow> consistent w \<Longrightarrow> consistent w1"
      "run_state (qs_clock s) w = (now, w1) \<Longrightarrow> consistent w \<Longrightarrow> consistent w1"
      "run_state (qs_ids s) w = (i, w1) \<Longrightarrow> consistent w \<Longrightarrow> consistent w1"
begin

text \<open>An execution that gets as far as the publisher.\<close>

lemma execute_run:
  assumes "run_state (ExecuteQuickAction s i user) w = (r, w')"
  obtains (refused) e w1 where "r = Inl e" "w' = w1" "w1 = w \<or> w1 = snd (run_state (qr_GetQuickAction repo i) w)
        \<or> (\<exists>j. w1 = snd (run_state (get_device j) (snd (run_state (qr_GetQuickAction repo i) w))))"
  | (sent) a d w1 w2 sent where "run_state (qr_GetQuickAction repo i) w = (Inr a, w1)" "run_state (get_device (qa_DeviceID a)) w1 = (Inr d, w2)"
      "stored_action a \<in> actions w" "qa_ID a = i" "device_type w (qa_DeviceID a) = Some InfraredControllerType"
      "run_state (qs_Publish s (command_of_action a user)) w2 = (sent, w')"
      "r = map_sum id (\<lambda>res. \<lparr>qr_ActionID = i, qr_CommandID = res_CommandID res, qr_Status = res_Status res, qr_PublishedAt = res_PublishedAt res\<rparr>) sent"
proof (cases "TrimSpace i = []")
  case True
  then show ?thesis using assms by (intro refused [of bad_action_id w]) (simp_all add: ExecuteQuickAction_def)
next
  case i: False
  obtain g w1 where g: "run_state (qr_GetQuickAction repo i) w = (g, w1)" by (cases "run_state (qr_GetQuickAction repo i) w")
  show ?thesis
  proof (cases g)
    case (Inl e)
    then show ?thesis using assms i g on_repo by (intro refused [of e w1]) (simp_all add: ExecuteQuickAction_def)
  next
    case (Inr a)
    obtain d w2 where d: "run_state (get_device (qa_DeviceID a)) w1 = (d, w2)" by (cases "run_state (get_device (qa_DeviceID a)) w1")
    have types: "device_type w1 = device_type w" using leavesD [OF get_leaves(1) g] by simp
    show ?thesis
    proof (cases "\<exists>dev. d = Inr dev \<and> dev_Type dev = InfraredControllerType")
      case False
      then obtain e where "r = Inl e" "w' = w2"
        using assms i g Inr d on_repo by (auto simp: ExecuteQuickAction_def split: sum.splits if_splits)
      moreover have "w2 = snd (run_state (get_device (qa_DeviceID a)) (snd (run_state (qr_GetQuickAction repo i) w)))"
        using g d by simp
      ultimately show ?thesis by (intro refused [of e w2]) blast+
    next
      case True
      then obtain dev where dev: "d = Inr dev" "dev_Type dev = InfraredControllerType" by auto
      obtain sent w3 where p: "run_state (qs_Publish s (command_of_action a user)) w2 = (sent, w3)"
        by (cases "run_state (qs_Publish s (command_of_action a user)) w2")
      note a = get_ok [OF g [unfolded Inr]]
      show ?thesis
        using assms i g Inr d dev p a types device_ok [OF d [unfolded dev(1)]] on_repo
        by (intro that(2) [of a w1 dev w2 sent]) (cases sent; simp add: ExecuteQuickAction_def)+
    qed
  qed
qed

text \<open>A successful creation.\<close>

lemma create_run:
  assumes "run_state (QuickActionService_Create s cmd) w = (Inr b, w')" "consistent w"
  obtains i now where "ValidateQuickActionCommand (trimmed cmd) (qs_maxPayload s) = Inr ()"
    "device_type w (cq_DeviceID cmd) = Some InfraredControllerType"
    "actions w' = insert (stored_action b) {x \<in> actions w. action_key x \<noteq> action_key b}" "same_message (new_action (trimmed cmd) i now) b"
    "\<forall>x \<in> actions w. action_key x = action_key b \<longrightarrow> qa_ID x = qa_ID b"
proof -
  let ?v = "\<lambda>w. (actions w, device_type w)"
  have dev: "cq_DeviceID (trimmed cmd) = cq_DeviceID cmd" by (simp add: trimmed_def)
  obtain d w1 where d: "run_state (get_device (cq_DeviceID cmd)) w = (d, w1)" by (cases "run_state (get_device (cq_DeviceID cmd)) w")
  obtain now w2 where now: "run_state (qs_clock s) w1 = (now, w2)" by (cases "run_state (qs_clock s) w1")
  obtain i w3 where i: "run_state (qs_ids s) w2 = (i, w3)" by (cases "run_state (qs_ids s) w2")
  from assms(1) d now i dev on_repo obtain device where valid: "ValidateQuickActionCommand (trimmed cmd) (qs_maxPayload s) = Inr ()"
    and device: "d = Inr device" "dev_Type device = InfraredControllerType"
    and create: "run_state (qr_CreateQuickAction repo (new_action (trimmed cmd) i now)) w3 = (Inr b, w')"
    by (auto simp: QuickActionService_Create_def Let_def split: sum.splits if_splits)
  have "?v w3 = ?v w" using leavesD [OF get_leaves(2) d] leavesD [OF quiet(1) now] leavesD [OF quiet(2) i] by simp
  moreover have "consistent w3"
    using consistent_kept(1) [OF d assms(2)] consistent_kept(2) [OF now] consistent_kept(3) [OF i] by blast
  moreover note law = create_ok [OF create]
  ultimately show ?thesis
    using valid device_ok [OF d [unfolded device(1)]] device(2)
    by (intro that [of i now]) (auto simp: same_message_def new_action_def)
qed

end

section \<open>Quick actions on the store\<close>

definition action_of_row :: "quick_action_row \<Rightarrow> quick_action_dto" where
  "action_of_row r = \<lparr>qa_ID = q_id r, qa_DeviceID = q_device_id r, qa_ClientID = [], qa_AdminUserID = q_admin_user_id r,
     qa_Name = q_name r, qa_Topic = q_topic r, qa_PayloadText = q_payload_text r, qa_QoS = byte_of_smallint (q_qos r),
     qa_Retain = q_retain r, qa_CreatedAt = q_created_at r, qa_UpdatedAt = q_updated_at r\<rparr>"

definition actions_view :: "world \<Rightarrow> quick_action_dto set" where
  "actions_view w = action_of_row ` set (db_quick_actions (w_db w))"

definition device_type_view :: "world \<Rightarrow> string \<Rightarrow> string option" where
  "device_type_view w i = map_option d_type (find (\<lambda>r. d_id r = i) (db_devices (w_db w)))"

lemma scan_action: "scanQuickAction (r, c) = Inr a \<Longrightarrow> stored_action a = action_of_row r \<and> qa_ID a = q_id r"
  by (auto simp: scanQuickAction_def stored_action_def action_of_row_def split: option.splits)

lemma get_action_law:
  "run_state (GetQuickAction i) w = (Inr a, w') \<Longrightarrow> stored_action a \<in> actions_view w \<and> qa_ID a = i"
  by (auto simp: GetQuickAction_def joined_quick_actions_def actions_view_def dest!: exec_pool_ok find_row_ok scan_action
      split: sum.splits prod.splits)

lemma get_device_law: "run_state (GetDevice i) w = (Inr d, w') \<Longrightarrow> device_type_view w i = Some (dev_Type d)"
  by (auto simp: GetDevice_def device_type_view_def find_row_def scanDevice_def dest!: exec_pool_ok
      split: sum.splits prod.splits option.splits)

lemma action_reads: "leaves w_db (GetQuickAction i)" "leaves w_db (GetDevice i)"
  unfolding GetQuickAction_def GetDevice_def
  by (intro rel_ebind rel_check rel_return preorder_frame read_only_pool read_only_case)+

lemma upsert_row_others:
  assumes "upsert_row key pk ref merge new tbl = Inr (r, tbl')" "distinct (map key tbl)" "\<And>x. key (merge x) = key x"
  shows "set tbl' = insert r {x \<in> set tbl. key x \<noteq> key new}"
proof -
  have "set tbl' \<subseteq> insert r {x \<in> set tbl. key x \<noteq> key new}" using upsert_row_rows [OF assms] by auto
  moreover have "r \<in> set tbl'" using upsert_row_in [OF assms(1,3)] by simp
  moreover have "x \<in> set tbl'" if "x \<in> set tbl" "key x \<noteq> key new" for x
    using assms(1) by (cases rule: upsert_row_cases) (use that in \<open>auto simp: image_iff intro!: bexI [of _ x]\<close>)
  ultimately show ?thesis by auto
qed

lemma create_action_stmt_ok:
  assumes "create_quick_action_stmt a u d = Inr ((row, c), d')" "quick_actions_ok devs users (db_quick_actions d)"
  shows "set (db_quick_actions d') = insert row {x \<in> set (db_quick_actions d). quick_action_key x \<noteq> (qa_DeviceID a, qa_Name a)}"
    "same_message a (action_of_row row)" "\<exists>cl. c = Some cl"
    "\<forall>x \<in> set (db_quick_actions d). quick_action_key x = (qa_DeviceID a, qa_Name a) \<longrightarrow> q_id x = q_id row"
proof -
  let ?new = "\<lparr>q_id = qa_ID a, q_device_id = qa_DeviceID a, q_admin_user_id = qa_AdminUserID a, q_name = qa_Name a,
           q_topic = qa_Topic a, q_payload_text = qa_PayloadText a, q_qos = uint (qa_QoS a), q_retain = qa_Retain a,
           q_created_at = qa_CreatedAt a, q_updated_at = qa_UpdatedAt a\<rparr>"
  let ?merge = "\<lambda>old. old\<lparr>q_admin_user_id := qa_AdminUserID a, q_topic := qa_Topic a, q_payload_text := qa_PayloadText a,
                     q_qos := uint (qa_QoS a), q_retain := qa_Retain a, q_updated_at := qa_UpdatedAt a\<rparr>"
  let ?ref = "\<lambda>r. device_exists d (q_device_id r) \<and> user_exists d (q_admin_user_id r)"
  obtain t where up: "upsert_row quick_action_key q_id ?ref ?merge ?new (db_quick_actions d) = Inr (row, t)"
    and d': "d' = d\<lparr>db_quick_actions := t\<rparr>" and c: "c = client_of d (q_device_id row)"
    using assms(1) by (auto simp: create_quick_action_stmt_def put_table_ok split: sum.splits)
  have key: "quick_action_key ?new = (qa_DeviceID a, qa_Name a)" by (simp add: quick_action_key_def)
  have keep: "quick_action_key (?merge x) = quick_action_key x" for x by (simp add: quick_action_key_def)
  have dist: "distinct (map quick_action_key (db_quick_actions d))" using assms(2) by (simp add: quick_actions_ok_def)
  have others: "set t = insert row {x \<in> set (db_quick_actions d). quick_action_key x \<noteq> quick_action_key ?new}"
    by (rule upsert_row_others [OF up dist]) (rule keep)
  show "set (db_quick_actions d') = insert row {x \<in> set (db_quick_actions d). quick_action_key x \<noteq> (qa_DeviceID a, qa_Name a)}"
    unfolding d' using others [unfolded key] by simp
  show "\<exists>cl. c = Some cl" using upsert_row_ref [OF up] device_exists_client c by auto
  have qos: "byte_of_smallint (uint q) = q" for q by (simp add: byte_of_smallint_def)
  have message: "same_message a (action_of_row (?merge old))" if "quick_action_key old = quick_action_key ?new" for old
    using that by (simp add: same_message_def action_of_row_def action_key_def quick_action_key_def qos)
  have "same_message a (action_of_row ?new)"
    by (simp add: same_message_def action_of_row_def action_key_def quick_action_key_def qos)
  note fresh = this
  show "same_message a (action_of_row row)"
    using up
  proof (cases rule: upsert_row_cases)
    case (update old)
    then have "quick_action_key old = quick_action_key ?new" by (auto dest: find_SomeD)
    then show ?thesis unfolding update(2) by (rule message)
  next
    case insert
    show ?thesis unfolding insert(3) by (rule fresh)
  qed
  show "\<forall>x \<in> set (db_quick_actions d). quick_action_key x = (qa_DeviceID a, qa_Name a) \<longrightarrow> q_id x = q_id row"
    using up
  proof (cases rule: upsert_row_cases)
    case (update old)
    then have "old \<in> set (db_quick_actions d)" "quick_action_key old = (qa_DeviceID a, qa_Name a)"
      using key by (auto dest: find_SomeD)
    moreover have "inj_on quick_action_key (set (db_quick_actions d))" using dist by (simp add: distinct_map)
    ultimately have "x = old" if "x \<in> set (db_quick_actions d)" "quick_action_key x = (qa_DeviceID a, qa_Name a)" for x
      using that by (metis inj_onD)
    then show ?thesis unfolding update(2) by auto
  next
    case insert
    then show ?thesis using key by (auto simp: image_iff)
  qed
qed

lemma create_action_cases:
  assumes "run_state (CreateQuickAction a) w = (r, w')" "db_ok (w_db w)"
  obtains (failed) e where "r = Inl e" "w_db w' = w_db w"
  | (stored) row c b where "create_quick_action_stmt a (w_uuid w (w_stmts w)) (w_db w) = Inr ((row, c), w_db w')"
      "r = Inr b" "stored_action b = action_of_row row" "qa_ID b = q_id row"
proof (cases "run_state (exec_pool (create_quick_action_stmt a)) w")
  case (Pair x w1)
  show ?thesis
  proof (cases x)
    case (Inl e)
    then show ?thesis using assms(1) Pair by (intro failed [of e]) (auto simp: CreateQuickAction_def dest!: exec_pool_error)
  next
    case (Inr rc)
    obtain row c where rc: "rc = (row, c)" by (cases rc)
    with Inr Pair have st: "create_quick_action_stmt a (w_uuid w (w_stmts w)) (w_db w) = Inr ((row, c), w_db w1)"
      by (auto dest!: exec_pool_ok)
    note ok = create_action_stmt_ok [OF st db_ok_facts(11) [OF assms(2)]]
    then obtain cl where cl: "c = Some cl" by auto
    then obtain b where b: "scanQuickAction (row, c) = Inr b" by (simp add: scanQuickAction_def)
    then show ?thesis using assms(1) Pair Inr rc st scan_action [OF b] by (intro stored) (auto simp: CreateQuickAction_def)
  qed
qed

lemma create_action_law:
  assumes "run_state (CreateQuickAction a) w = (Inr b, w')" "db_ok (w_db w)"
  shows "actions_view w' = insert (stored_action b) {x \<in> actions_view w. action_key x \<noteq> action_key a} \<and> same_message a b
    \<and> (\<forall>x \<in> actions_view w. action_key x = action_key a \<longrightarrow> qa_ID x = qa_ID b)"
  using assms
proof (cases rule: create_action_cases)
  case (stored row c b')
  note ok = create_action_stmt_ok [OF stored(1) db_ok_facts(11) [OF assms(2)]]
  have key: "action_key (action_of_row x) = quick_action_key x" "qa_ID (action_of_row x) = q_id x" for x
    by (simp_all add: action_key_def action_of_row_def quick_action_key_def)
  have "actions_view w' = insert (stored_action b) {x \<in> actions_view w. action_key x \<noteq> action_key a}"
    using stored ok(1) by (auto simp: actions_view_def key action_key_def [of a])
  moreover have "same_message a b" using ok(2) stored(2,3) by (metis Inr_inject same_message_stored)
  ultimately show ?thesis using ok(4) stored by (auto simp: actions_view_def key action_key_def [of a])
qed simp

lemma delete_action_law:
  "run_state (DeleteQuickAction i) w = (Inr u, w') \<Longrightarrow> actions_view w' = {x \<in> actions_view w. qa_ID x \<noteq> i}"
  by (auto simp: DeleteQuickAction_def delete_quick_action_stmt_def actions_view_def action_of_row_def dest!: exec_pool_ok)

lemma action_errors:
  "run_state (DeleteQuickAction i) w = (Inl e, w') \<Longrightarrow> actions_view w' = actions_view w"
  by (auto simp: DeleteQuickAction_def actions_view_def dest!: exec_pool_error)

lemma get_leaves_views: "leaves w_db m \<Longrightarrow> leaves (\<lambda>w. (actions_view w, device_type_view w)) m"
  by (auto simp: state_io_rel_def actions_view_def device_type_view_def fun_eq_iff)

interpretation actions: quick_action_book store_quick_actions GetDevice actions_view device_type_view "\<lambda>w. db_ok (w_db w)"
proof unfold_locales
  show "actions_view w' = actions_view w"
    if "run_state (qr_CreateQuickAction store_quick_actions a) w = (Inl e, w')" "db_ok (w_db w)" for a e w w'
    using that(1) [unfolded store_quick_actions_def quick_action_repository.simps] that(2)
    by (cases rule: create_action_cases) (simp_all add: actions_view_def)
qed (simp_all only: store_quick_actions_def quick_action_repository.simps,
     (erule get_action_law get_device_law create_action_law delete_action_law action_errors
      | assumption | rule get_leaves_views, rule action_reads)+)

definition app_quick_action_service :: "(string \<Rightarrow> string \<Rightarrow> bool) \<Rightarrow> int \<Rightarrow> int \<Rightarrow> world quick_action_service" where
  "app_quick_action_service ilike timeout maxPayload =
     NewQuickActionService clock_now new_id store_quick_actions GetDevice
       (PublishService_Publish (app_publish_service ilike timeout maxPayload)) (Some clock_now) (Some new_id) maxPayload"

lemma app_quick_action_service_simps [simp]:
  "qs_repo (app_quick_action_service ilike timeout maxPayload) = store_quick_actions"
  "qs_GetDevice (app_quick_action_service ilike timeout maxPayload) = GetDevice"
  "qs_Publish (app_quick_action_service ilike timeout maxPayload) = PublishService_Publish (app_publish_service ilike timeout maxPayload)"
  "qs_clock (app_quick_action_service ilike timeout maxPayload) = clock_now"
  "qs_ids (app_quick_action_service ilike timeout maxPayload) = new_id"
  "qs_maxPayload (app_quick_action_service ilike timeout maxPayload) = maxPayload"
  by (simp_all add: app_quick_action_service_def NewQuickActionService_def)

interpretation qact: quick_actions store_quick_actions GetDevice actions_view device_type_view "\<lambda>w. db_ok (w_db w)"
    "app_quick_action_service ilike timeout maxPayload" for ilike timeout maxPayload
proof unfold_locales
  show "db_ok (w_db w1)" if "run_state (GetDevice i) w = (d, w1)" "db_ok (w_db w)" for i w d w1
    using leavesD [OF action_reads(2) that(1)] that(2) by simp
qed (auto simp: state_io_rel_def actions_view_def device_type_view_def fun_eq_iff)

section \<open>Executing and replacing\<close>


text \<open>
  C23. Storing a quick action. A success stores the trimmed name and topic with the message for an infrared controller, as the only action of that
  device with that name, and leaves every other action alone; an action that had the name before keeps its id
  and takes the new message.
\<close>

theorem quick_action_replaces:
  assumes "run_state (QuickActionService_Create (app_quick_action_service ilike timeout maxPayload) cmd) w = (Inr b, w')" "db_ok (w_db w)"
  shows "device_type_view w (cq_DeviceID cmd) = Some InfraredControllerType
    \<and> actions_view w' = insert (stored_action b) {x \<in> actions_view w. (qa_DeviceID x, qa_Name x) \<noteq> (cq_DeviceID cmd, TrimSpace (cq_Name cmd))}
    \<and> qa_DeviceID b = cq_DeviceID cmd \<and> qa_Name b = TrimSpace (cq_Name cmd) \<and> qa_Topic b = TrimSpace (cq_Topic cmd)
    \<and> qa_PayloadText b = cq_PayloadText cmd
    \<and> (\<forall>x \<in> actions_view w. (qa_DeviceID x, qa_Name x) = (cq_DeviceID cmd, TrimSpace (cq_Name cmd)) \<longrightarrow> qa_ID x = qa_ID b)"
proof (intro conjI)
  from assms obtain i now where c: "device_type_view w (cq_DeviceID cmd) = Some InfraredControllerType"
      "actions_view w' = insert (stored_action b) {x \<in> actions_view w. action_key x \<noteq> action_key b}"
      "same_message (new_action (trimmed cmd) i now) b" "\<forall>x \<in> actions_view w. action_key x = action_key b \<longrightarrow> qa_ID x = qa_ID b"
    by (rule qact.create_run) simp
  show "device_type_view w (cq_DeviceID cmd) = Some InfraredControllerType" by (rule c)
  show b: "qa_DeviceID b = cq_DeviceID cmd" "qa_Name b = TrimSpace (cq_Name cmd)" "qa_Topic b = TrimSpace (cq_Topic cmd)"
    "qa_PayloadText b = cq_PayloadText cmd"
    using c(3) by (simp_all add: same_message_def new_action_def trimmed_def action_key_def)
  show "actions_view w' = insert (stored_action b) {x \<in> actions_view w. (qa_DeviceID x, qa_Name x) \<noteq> (cq_DeviceID cmd, TrimSpace (cq_Name cmd))}"
    using c(2) b by (simp add: action_key_def)
  show "\<forall>x \<in> actions_view w. (qa_DeviceID x, qa_Name x) = (cq_DeviceID cmd, TrimSpace (cq_Name cmd)) \<longrightarrow> qa_ID x = qa_ID b"
    using c(4) b by (simp add: action_key_def)
qed

section \<open>A quick action at concrete values\<close>

definition remote_device :: device_row where
  "remote_device = \<lparr>d_id = ''x'', d_client_id = ''d'', d_type = ''GSCU1B'', d_status = DeviceStatusOffline, d_session_id = [],
     d_first_seen_at = 0, d_last_seen_at = 0, d_last_disconnected_at = None, d_metadata = Map.empty\<rparr>"

definition on_row :: quick_action_row where
  "on_row = \<lparr>q_id = ''q'', q_device_id = ''x'', q_admin_user_id = ''u1'', q_name = ''on'', q_topic = ''t'', q_payload_text = ''m'',
     q_qos = 1, q_retain = False, q_created_at = 1, q_updated_at = 1\<rparr>"

definition remote_world :: world where
  "remote_world = start_world (seed_db\<lparr>db_devices := [remote_device], db_quick_actions := [on_row]\<rparr>)"

definition off_command :: create_quick_action_command where
  "off_command = \<lparr>cq_AdminUserID = ''u1'', cq_DeviceID = ''x'', cq_Name = ''on'', cq_Topic = ''t'', cq_PayloadText = ''n'', cq_QoS = 0,
     cq_Retain = True\<rparr>"

abbreviation remote_service :: "world quick_action_service" where
  "remote_service \<equiv> app_quick_action_service (\<lambda>_ _. True) 1000 100"

lemma on_facts: "db_ok (w_db remote_world)" "TrimSpace ''q'' = ''q''" "TrimSpace ''on'' = ''on''" "TrimSpace ''t'' = ''t''"
    "TrimSpace ''x'' = ''x''" "length (to_runes ''on'') = 2" "answering remote_world"
proof -
  show "TrimSpace ''q'' = ''q''" "TrimSpace ''on'' = ''on''" "TrimSpace ''t'' = ''t''" "TrimSpace ''x'' = ''x''"
    by (simp_all add: TrimSpace_plain plain_byte_def is_space_def)
  show "length (to_runes ''on'') = 2" by (simp add: to_runes_def bytes_def decode_all.simps decode_rune_def)
qed (simp_all add: remote_world_def start_world_def seed_db_def remote_device_def on_row_def db_ok_def wf_defs owners_def device_ids_def
    answering_def)

lemma on_executed:
  obtains res w' where "run_state (ExecuteQuickAction remote_service ''q'' ''u1'') remote_world = (Inr res, w')"
proof -
  let ?w = "remote_world\<lparr>w_stmts := 2\<rparr>"
  obtain a where get: "run_state (qr_GetQuickAction store_quick_actions ''q'') remote_world = (Inr a, remote_world\<lparr>w_stmts := 1\<rparr>)"
    and a: "command_of_action a ''u1'' = hello_command" "qa_DeviceID a = ''x''"
    by (simp add: store_quick_actions_def GetQuickAction_def joined_quick_actions_def exec_pool_def find_row_def scanQuickAction_def
        client_of_def remote_world_def start_world_def remote_device_def on_row_def command_of_action_def hello_command_def byte_of_smallint_def)
  obtain dev where dev: "run_state (GetDevice ''x'') (remote_world\<lparr>w_stmts := 1\<rparr>) = (Inr dev, ?w)" "dev_Type dev = InfraredControllerType"
    by (simp add: GetDevice_def exec_pool_def find_row_def scanDevice_def remote_world_def start_world_def remote_device_def
        InfraredControllerType_def)
  have "answering ?w" using on_facts(7) by (simp add: answering_def)
  moreover have "w_ids ?w (w_idn ?w) \<notin> c_id ` set (db_commands (w_db ?w))" by (simp add: remote_world_def start_world_def seed_db_def)
  ultimately obtain at w' where "run_state (PublishService_Publish (app_publish_service (\<lambda>_ _. True) 1000 100) hello_command) ?w
     = (Inr \<lparr>res_CommandID = w_ids ?w (w_idn ?w), res_Status = PublishStatusPublished, res_PublishedAt = at\<rparr>, w')"
    using publish_succeeds [of ?w 100 hello_command] hello_command_valid by blast
  then show ?thesis using that get dev a by (simp add: ExecuteQuickAction_def on_facts)
qed


lemma off_stored:
  obtains b w' where "run_state (QuickActionService_Create remote_service off_command) remote_world = (Inr b, w')"
proof -
  have topic: "\<not> sys_topic ''t''" "\<not> ContainsAny ''t'' ''+#''" by code_simp+
  have trim: "trimmed off_command = off_command" by (simp add: trimmed_def off_command_def on_facts)
  have valid: "ValidateQuickActionCommand off_command 100 = Inr ()"
    by (simp add: ValidateQuickActionCommand_def off_command_def on_facts topic ValidatePublishTopic_def ValidateQoS_def
        ValidateTextPayload_def MaxTopicLength_def valid_string_def bytes_def decode_all.simps decode_rune_def)
  have off: "cq_DeviceID off_command = ''x''" "cq_Name off_command = ''on''" "cq_AdminUserID off_command = ''u1''"
    by (simp_all add: off_command_def)
  show ?thesis
    using that
    by (simp add: QuickActionService_Create_def Let_def trim valid off GetDevice_def exec_pool_def find_row_def scanDevice_def remote_world_def
        start_world_def remote_device_def InfraredControllerType_def store_quick_actions_def CreateQuickAction_def
        create_quick_action_stmt_def upsert_row_def put_table_def quick_action_key_def new_action_def device_exists_def user_exists_def
        on_row_def seed_db_def client_of_def scanQuickAction_def)
qed

theorem quick_action_replaces_witness:
  "\<exists>b w'. actions_view w' = {b} \<and> qa_ID b = ''q'' \<and> qa_PayloadText b = ''n''"
proof -
  obtain b w' where run: "run_state (QuickActionService_Create remote_service off_command) remote_world = (Inr b, w')" by (rule off_stored)
  have v: "actions_view remote_world = {action_of_row on_row}" by (simp add: actions_view_def remote_world_def start_world_def)
  note r = quick_action_replaces [OF run on_facts(1), unfolded v]
  have "qa_ID b = ''q''" using r by (simp add: off_command_def on_facts action_of_row_def on_row_def)
  moreover have "qa_PayloadText b = ''n''" using r by (simp add: off_command_def)
  moreover have "actions_view w' = {stored_action b}"
    using r by (auto simp: off_command_def on_facts action_of_row_def on_row_def)
  ultimately show ?thesis by (intro exI [of _ "stored_action b"] exI [of _ w']) (simp add: stored_action_def)
qed

end
