(* ===== verification/Auth.thy ===== *)
theory Auth
  imports Publishing
begin

text \<open>
  Authentication (\<open>internal/service/auth.go\<close>): login, logout, the check of a session and the first administrator. The
  password hasher is bcrypt, which is not part of the repository: it is a parameter, a function that compares a
  hash with a password.
\<close>

section \<open>The service\<close>

record 'w auth_service =
  as_repo :: "'w auth_repository"
  as_hasher :: "'w password_hasher"
  as_ids :: "'w id_generator"
  as_clock :: "'w clock"
  as_ttl :: int

definition NewAuthService :: "'w password_hasher \<Rightarrow> 'w id_generator \<Rightarrow> 'w clock \<Rightarrow> 'w auth_repository \<Rightarrow> 'w password_hasher option \<Rightarrow>
    'w id_generator option \<Rightarrow> 'w clock option \<Rightarrow> int \<Rightarrow> 'w auth_service" where
  "NewAuthService bcrypt random_ids system_clock repo hasher ids clock ttl =
     \<lparr>as_repo = repo, as_hasher = (case hasher of None \<Rightarrow> bcrypt | Some h \<Rightarrow> h),
      as_ids = (case ids of None \<Rightarrow> random_ids | Some g \<Rightarrow> g), as_clock = (case clock of None \<Rightarrow> system_clock | Some c \<Rightarrow> c),
      as_ttl = (if ttl \<le> 0 then 24 * hour else ttl)\<rparr>"

definition bad_credentials :: go_error where
  "bad_credentials = InvalidInput ''invalid_credentials'' ''username or password is incorrect''"

definition unauthorized :: go_error where
  "unauthorized = InvalidInput ''unauthorized'' ''authentication required''"

definition Login :: "'w auth_service \<Rightarrow> string \<Rightarrow> string \<Rightarrow> ('w, admin_user_dto \<times> string \<times> time) eio" where
  "Login s username password =
     (let username = TrimSpace username in
      if username = [] \<or> password = [] then fail (InvalidInput ''invalid_credentials'' ''username and password are required'')
      else State_Monad.bind (aur_FindAdminByUsername (as_repo s) username) (\<lambda>found.
        case found of Inl _ \<Rightarrow> fail bad_credentials | Inr user \<Rightarrow>
        if adm_Disabled user then fail bad_credentials
        else (case ph_Compare (as_hasher s) (adm_PasswordHash user) password of Inl _ \<Rightarrow> fail bad_credentials | Inr _ \<Rightarrow>
          State_Monad.bind (as_ids s) (\<lambda>token.
          State_Monad.bind (as_clock s) (\<lambda>now.
          ebind (aur_CreateSession (as_repo s) \<lparr>ses_Token = token, ses_UserID = adm_ID user, ses_ExpiresAt = now + as_ttl s\<rparr>) (\<lambda>_.
          ok (\<lparr>au_ID = adm_ID user, au_Username = adm_Username user, au_Role = adm_Role user\<rparr>, token, now + as_ttl s)))))))"

definition Logout :: "'w auth_service \<Rightarrow> string \<Rightarrow> ('w, unit) eio" where
  "Logout s token = (if token = [] then ok () else aur_DeleteSession (as_repo s) token)"

definition ValidateSession :: "'w auth_service \<Rightarrow> string \<Rightarrow> ('w, admin_user_dto) eio" where
  "ValidateSession s token =
     (if token = [] then fail unauthorized
      else State_Monad.bind (as_clock s) (\<lambda>now.
        State_Monad.bind (aur_FindSession (as_repo s) token now) (\<lambda>found.
        case found of Inl _ \<Rightarrow> fail unauthorized | Inr session \<Rightarrow> aur_GetAdminByID (as_repo s) (ses_UserID session))))"

definition AuthService_BootstrapAdmin :: "'w auth_service \<Rightarrow> string \<Rightarrow> string \<Rightarrow> ('w, unit) eio" where
  "AuthService_BootstrapAdmin s username password =
     (if TrimSpace username = [] \<or> password = [] then ok ()
      else ebind (ph_Hash (as_hasher s) password) (\<lambda>hash.
        State_Monad.bind (as_ids s) (\<lambda>i.
        State_Monad.bind (as_clock s) (\<lambda>now.
        aur_BootstrapAdmin (as_repo s) i username hash now))))"

section \<open>Histories\<close>

text \<open>
  What may happen to the sessions: logins, logouts and checks in any order, and anything else that leaves the sessions alone.
  A history records the tokens its logins have handed out.
\<close>

inductive auth_history :: "'w auth_service \<Rightarrow> ('w \<Rightarrow> admin_session set) \<Rightarrow> 'w \<Rightarrow> string list \<Rightarrow> 'w \<Rightarrow> bool" for s sessions where
  start: "auth_history s sessions w [] w"
| login: "auth_history s sessions w issued w1 \<Longrightarrow> run_state (Login s username password) w1 = (Inr (user, token, expires), w2) \<Longrightarrow>
    auth_history s sessions w (token # issued) w2"
| login_refused: "auth_history s sessions w issued w1 \<Longrightarrow> run_state (Login s username password) w1 = (Inl e, w2) \<Longrightarrow>
    auth_history s sessions w issued w2"
| logout: "auth_history s sessions w issued w1 \<Longrightarrow> run_state (Logout s t) w1 = (r, w2) \<Longrightarrow> auth_history s sessions w issued w2"
| validate: "auth_history s sessions w issued w1 \<Longrightarrow> run_state (ValidateSession s t) w1 = (v, w2) \<Longrightarrow> auth_history s sessions w issued w2"
| other: "auth_history s sessions w issued w1 \<Longrightarrow> sessions w2 = sessions w1 \<Longrightarrow> auth_history s sessions w issued w2"

inductive_cases no_login: "auth_history s sessions w [] w'"

definition live :: "('w \<Rightarrow> admin_session set) \<Rightarrow> 'w \<Rightarrow> string \<Rightarrow> bool" where
  "live sessions w token \<longleftrightarrow> token \<in> ses_Token ` sessions w"

locale authentication = session_table repo sessions users
  for repo :: "'w auth_repository" and sessions :: "'w \<Rightarrow> admin_session set" and users :: "'w \<Rightarrow> admin_user set" +
  fixes s :: "'w auth_service"
  assumes on_repo: "as_repo s = repo"
    and quiet: "leaves sessions (as_clock s)" "leaves sessions (as_ids s)" "leaves users (as_clock s)" "leaves users (as_ids s)"
begin

lemma login_run:
  assumes "run_state (Login s username password) w = (r, w')"
  obtains (refused) e where "r = Inl e" "sessions w' = sessions w"
  | (granted) a token now where "r = Inr (\<lparr>au_ID = adm_ID a, au_Username = adm_Username a, au_Role = adm_Role a\<rparr>, token, now + as_ttl s)"
      "a \<in> users w" "adm_Username a = TrimSpace username" "\<not> adm_Disabled a"
      "ph_Compare (as_hasher s) (adm_PasswordHash a) password = Inr ()" "\<not> live sessions w token"
      "sessions w' = insert \<lparr>ses_Token = token, ses_UserID = adm_ID a, ses_ExpiresAt = now + as_ttl s\<rparr> (sessions w)"
proof (cases "TrimSpace username = [] \<or> password = []")
  case True
  then show ?thesis
    using assms
    by (intro refused [of "InvalidInput ''invalid_credentials'' ''username and password are required''"]) (auto simp: Login_def Let_def)
next
  case some: False
  obtain found w1 where f: "run_state (aur_FindAdminByUsername repo (TrimSpace username)) w = (found, w1)"
    by (cases "run_state (aur_FindAdminByUsername repo (TrimSpace username)) w")
  have w1: "sessions w1 = sessions w" "users w1 = users w" using leavesD [OF reads(1) f] leavesD [OF reads(2) f] by simp_all
  show ?thesis
  proof (cases "\<exists>a. found = Inr a \<and> \<not> adm_Disabled a \<and> ph_Compare (as_hasher s) (adm_PasswordHash a) password = Inr ()")
    case False
    then have "r = Inl bad_credentials \<and> w' = w1"
      using assms some f on_repo by (auto simp: Login_def Let_def split: sum.splits if_splits)
    then show ?thesis using w1 by (intro refused) auto
  next
    case True
    then obtain a where a: "found = Inr a" "\<not> adm_Disabled a" "ph_Compare (as_hasher s) (adm_PasswordHash a) password = Inr ()" by auto
    obtain token w2 where t: "run_state (as_ids s) w1 = (token, w2)" by (cases "run_state (as_ids s) w1")
    obtain now w3 where now: "run_state (as_clock s) w2 = (now, w3)" by (cases "run_state (as_clock s) w2")
    have w3: "sessions w3 = sessions w" using leavesD [OF quiet(2) t] leavesD [OF quiet(1) now] w1 by simp
    let ?session = "\<lparr>ses_Token = token, ses_UserID = adm_ID a, ses_ExpiresAt = now + as_ttl s\<rparr>"
    obtain c w4 where c: "run_state (aur_CreateSession repo ?session) w3 = (c, w4)" by (cases "run_state (aur_CreateSession repo ?session) w3")
    note run = assms [unfolded Login_def Let_def] some f a t now c on_repo
    show ?thesis
    proof (cases c)
      case (Inl e)
      then show ?thesis using run create_error [OF c [unfolded Inl]] w3 by (intro refused [of e]) auto
    next
      case (Inr x)
      then show ?thesis
        using run user_ok [OF f [unfolded a(1)]] create_ok [OF c [unfolded Inr]] w3
        by (intro granted [of a token now]) (auto simp: live_def)
    qed
  qed
qed

lemma logout_run:
  assumes "run_state (Logout s token) w = (r, w')"
  shows "sessions w' \<subseteq> sessions w" "r = Inr x \<Longrightarrow> token \<noteq> [] \<Longrightarrow> \<not> live sessions w' token"
proof -
  have e: "sessions w' = sessions w" if "run_state (aur_DeleteSession repo token) w = (Inl e, w')" for e
    using that by (rule delete_error)
  have d: "sessions w' = {r \<in> sessions w. ses_Token r \<noteq> token}" if "run_state (aur_DeleteSession repo token) w = (Inr y, w')" for y
    using that by (rule delete_ok)
  show "sessions w' \<subseteq> sessions w" using assms e d on_repo by (cases r) (auto simp: Logout_def split: if_splits)
  show "r = Inr x \<Longrightarrow> token \<noteq> [] \<Longrightarrow> \<not> live sessions w' token"
    using assms d on_repo by (auto simp: Logout_def live_def)
qed

lemma validate_leaves: "leaves sessions (ValidateSession s token)" "leaves users (ValidateSession s token)"
  unfolding ValidateSession_def on_repo by (intro io_rules preorder_frame quiet reads)+

lemma validate_run:
  assumes "run_state (ValidateSession s token) w = (Inr user, w')"
  obtains session now w1 where "session \<in> sessions w" "ses_Token session = token" "run_state (as_clock s) w = (now, w1)"
    "now < ses_ExpiresAt session"
    "\<exists>a \<in> users w. adm_ID a = ses_UserID session \<and> \<not> adm_Disabled a
       \<and> user = \<lparr>au_ID = adm_ID a, au_Username = adm_Username a, au_Role = adm_Role a\<rparr>"
proof -
  obtain now w1 where now: "run_state (as_clock s) w = (now, w1)" by (cases "run_state (as_clock s) w")
  have w1: "sessions w1 = sessions w" "users w1 = users w" using leavesD [OF quiet(1) now] leavesD [OF quiet(3) now] by simp_all
  obtain found w2 where f: "run_state (aur_FindSession repo token now) w1 = (found, w2)" by (cases "run_state (aur_FindSession repo token now) w1")
  have w2: "users w2 = users w" using leavesD [OF reads(6) f] w1 by simp
  obtain session where session: "found = Inr session" and get: "run_state (aur_GetAdminByID repo (ses_UserID session)) w2 = (Inr user, w')"
    using assms now f on_repo by (auto simp: ValidateSession_def split: if_splits sum.splits)
  show ?thesis
    using find_ok [OF f [unfolded session]] get_ok [OF get] now w1 w2 by (intro that [of session now w1]) auto
qed

text \<open>A token that lives after a history lived before it or was handed out by one of its logins.\<close>

lemma history_live: "auth_history s sessions w issued w' \<Longrightarrow> live sessions w' token \<Longrightarrow> live sessions w token \<or> token \<in> set issued"
proof (induction rule: auth_history.induct)
  case (login w issued w1 username password user tok expires w2)
  from login.hyps(2) have "sessions w2 = sessions w1 \<or> (\<exists>u e. sessions w2 = insert \<lparr>ses_Token = tok, ses_UserID = u, ses_ExpiresAt = e\<rparr> (sessions w1))"
    by (cases rule: login_run) auto
  then show ?case using login by (auto simp: live_def)
next
  case (login_refused w issued w1 username password e w2)
  from login_refused.hyps(2) have "sessions w2 = sessions w1" by (cases rule: login_run) auto
  then show ?case using login_refused by (simp add: live_def)
next
  case (logout w issued w1 t r w2)
  then show ?case using logout_run(1) [OF logout.hyps(2)] by (auto simp: live_def)
next
  case (validate w issued w1 t v w2)
  have "sessions w2 = sessions w1" by (rule leavesD [OF validate_leaves(1) validate.hyps(2)])
  then show ?case using validate by (simp add: live_def)
qed (simp_all add: live_def)

lemma validate_live: "run_state (ValidateSession s token) w = (Inr user, w') \<Longrightarrow> live sessions w token"
  by (erule validate_run) (auto simp: live_def)

end

section \<open>Authentication on the store\<close>

definition app_auth_service :: "world password_hasher \<Rightarrow> int \<Rightarrow> world auth_service" where
  "app_auth_service bcrypt ttl = NewAuthService bcrypt new_id clock_now store_auth (Some bcrypt) (Some new_id) (Some clock_now) ttl"

lemma app_auth_service_simps [simp]:
  "as_repo (app_auth_service bcrypt ttl) = store_auth" "as_hasher (app_auth_service bcrypt ttl) = bcrypt"
  "as_ids (app_auth_service bcrypt ttl) = new_id" "as_clock (app_auth_service bcrypt ttl) = clock_now"
  "as_ttl (app_auth_service bcrypt ttl) = (if ttl \<le> 0 then 24 * hour else ttl)"
  by (simp_all add: app_auth_service_def NewAuthService_def)

interpretation authn: authentication store_auth sessions_view users_view "app_auth_service bcrypt ttl" for bcrypt ttl
  by unfold_locales (simp_all add: clock_leaves id_leaves sessions_view_def [abs_def] users_view_def [abs_def])


text \<open>
  C8. Who is let in. In every history of logins, logouts and checks that starts without sessions, a token is accepted
  only if a login of the history handed it out; its session has not expired at the time of the check, and the
  answer is an enabled administrator.
\<close>

theorem accepted_token_was_issued:
  assumes "auth_history (app_auth_service bcrypt ttl) sessions_view w issued w'" "sessions_view w = {}"
    and "run_state (ValidateSession (app_auth_service bcrypt ttl) token) w' = (Inr user, w'')"
  shows "token \<in> set issued \<and> (\<exists>session \<in> sessions_view w'. ses_Token session = token \<and> w_clock w' (w_ticks w') < ses_ExpiresAt session
       \<and> (\<exists>a \<in> users_view w'. adm_ID a = ses_UserID session \<and> \<not> adm_Disabled a \<and> adm_ID a = au_ID user))"
proof (rule conjI)
  show "token \<in> set issued"
    using authn.history_live [OF assms(1) authn.validate_live [OF assms(3)]] assms(2) by (simp add: live_def)
  from assms(3) show "\<exists>session \<in> sessions_view w'. ses_Token session = token \<and> w_clock w' (w_ticks w') < ses_ExpiresAt session
       \<and> (\<exists>a \<in> users_view w'. adm_ID a = ses_UserID session \<and> \<not> adm_Disabled a \<and> adm_ID a = au_ID user)"
    by (rule authn.validate_run) (fastforce simp: app_auth_service_simps(4))
qed

text \<open>
  C9. Logout is final. After a successful logout the token is refused in every later history in which no login hands
  it out again.
\<close>

theorem logout_is_final:
  assumes "run_state (Logout (app_auth_service bcrypt ttl) token) w = (Inr (), w1)"
    and "auth_history (app_auth_service bcrypt ttl) sessions_view w1 issued w2" "token \<notin> set issued"
  shows "\<exists>e. fst (run_state (ValidateSession (app_auth_service bcrypt ttl) token) w2) = Inl e"
proof (cases "fst (run_state (ValidateSession (app_auth_service bcrypt ttl) token) w2)")
  case (Inr user)
  obtain w3 where v: "run_state (ValidateSession (app_auth_service bcrypt ttl) token) w2 = (Inr user, w3)"
    using Inr by (metis prod.collapse)
  then have "token \<noteq> []" by (auto simp: ValidateSession_def)
  then have "\<not> live sessions_view w1 token" by (rule authn.logout_run(2) [OF assms(1) refl])
  then show ?thesis
    using authn.history_live [OF assms(2) authn.validate_live [OF v]] assms(3) by simp
qed simp

text \<open>When the database answers, the session that a login opened is found until it expires.\<close>

lemma find_session_answers:
  assumes "w_fate w (w_stmts w) = None" "session \<in> sessions_view w" "now < ses_ExpiresAt session"
    and "\<forall>r \<in> sessions_view w. ses_Token r = ses_Token session \<longrightarrow> r = session"
  shows "\<exists>w'. run_state (FindSession (ses_Token session) now) w = (Inr session, w')"
proof -
  from assms(2) obtain row where row: "row \<in> set (db_sessions (w_db w))" "session = session_of_row row"
    by (auto simp: sessions_view_def)
  let ?P = "\<lambda>r. s_token r = ses_Token session \<and> now < s_expires_at r"
  obtain r where r: "find ?P (db_sessions (w_db w)) = Some r"
    using row assms(3) by (cases "find ?P (db_sessions (w_db w))") (auto simp: find_None_iff' session_of_row_def)
  then have "r \<in> set (db_sessions (w_db w))" "s_token r = ses_Token session" by (auto dest: find_SomeD)
  then have "session_of_row r = session" using assms(4) by (force simp: sessions_view_def session_of_row_def)
  then show ?thesis using r assms(1) by (simp add: FindSession_def exec_pool_run find_row_def session_of_row_def)
qed

lemma get_admin_answers:
  assumes "w_fate w (w_stmts w) = None" "a \<in> users_view w" "\<not> adm_Disabled a"
    and "\<forall>b \<in> users_view w. adm_ID b = adm_ID a \<longrightarrow> b = a"
  shows "\<exists>w'. run_state (GetAdminByID (adm_ID a)) w
     = (Inr \<lparr>au_ID = adm_ID a, au_Username = adm_Username a, au_Role = adm_Role a\<rparr>, w')"
proof -
  from assms(2) obtain row where row: "row \<in> set (db_users (w_db w))" "a = user_of_row row" by (auto simp: users_view_def)
  let ?P = "\<lambda>r. u_id r = adm_ID a \<and> \<not> u_disabled r"
  obtain r where r: "find ?P (db_users (w_db w)) = Some r"
    using row assms(3) by (cases "find ?P (db_users (w_db w))") (auto simp: find_None_iff' user_of_row_def)
  then have "r \<in> set (db_users (w_db w))" "u_id r = adm_ID a" by (auto dest: find_SomeD)
  then have "user_of_row r = a" using assms(4) by (force simp: users_view_def user_of_row_def)
  then show ?thesis using r assms(1) by (auto simp: GetAdminByID_def exec_pool_run find_row_def user_of_row_def)
qed

lemma users_distinct: "db_ok (w_db w) \<Longrightarrow> inj_on adm_ID (users_view w)"
  using db_ok_facts(6) [of "w_db w"]
  by (auto simp: users_ok_def users_view_def user_of_row_def distinct_map inj_on_def)

lemma login_leaves_users: "leaves users_view (Login (app_auth_service bcrypt ttl) username password)"
  unfolding Login_def Let_def app_auth_service_simps
  by (intro io_rules preorder_frame auth.reads clock_leaves id_leaves) (auto simp: users_view_def)

text \<open>
  The token that a login hands out is accepted, for the same administrator, as long as the session has not expired, when the
  database is consistent and answers.
\<close>

lemma login_validates:
  assumes "run_state (Login (app_auth_service bcrypt ttl) username password) w = (Inr (user, token, expires), w')"
    and "db_ok (w_db w)" "token \<noteq> []" "w_clock w' (w_ticks w') < expires" "\<forall>n. w_fate w' n = None"
  shows "\<exists>w''. run_state (ValidateSession (app_auth_service bcrypt ttl) token) w' = (Inr user, w'')"
  using assms(1)
proof (cases rule: authn.login_run)
  case (granted a tok now)
  then have tok: "tok = token" and user: "user = \<lparr>au_ID = adm_ID a, au_Username = adm_Username a, au_Role = adm_Role a\<rparr>"
    and expires: "expires = now + as_ttl (app_auth_service bcrypt ttl)" by simp_all
  have users: "users_view w' = users_view w" by (rule leavesD [OF login_leaves_users assms(1)])
  let ?session = "\<lparr>ses_Token = token, ses_UserID = adm_ID a, ses_ExpiresAt = expires\<rparr>"
  let ?w = "w'\<lparr>w_ticks := Suc (w_ticks w')\<rparr>"
  have "sessions_view ?w = insert ?session (sessions_view w)" using granted(7) tok expires by (simp add: sessions_view_def)
  then obtain w2 where f: "run_state (FindSession token (w_clock w' (w_ticks w'))) ?w = (Inr ?session, w2)"
    using find_session_answers [of ?w ?session "w_clock w' (w_ticks w')"] granted(6) tok assms(4,5) by (auto simp: live_def)
  have w2: "w_fate w2 (w_stmts w2) = None" "users_view w2 = users_view w"
    using f assms(5) users by (auto simp: FindSession_def users_view_def dest!: exec_pool_ok split: sum.splits)
  then obtain w3 where "run_state (GetAdminByID (adm_ID a)) w2 = (Inr user, w3)"
    using get_admin_answers [of w2 a] granted(2,4) users_distinct [OF assms(2)] user by (auto simp: inj_on_def)
  then show ?thesis using f assms(3) by (simp add: ValidateSession_def store_auth_def)
qed simp

text \<open>
  A padded administrator is locked out. The first administrator is stored under the configured name as it is, but a login looks
  for the trimmed name: with surrounding spaces in the name, no password lets that administrator in.
\<close>

theorem padded_admin_locked_out:
  assumes "run_state (AuthService_BootstrapAdmin (app_auth_service bcrypt ttl) username password) w = (r, w')"
    and "TrimSpace username \<noteq> username" "\<forall>a \<in> users_view w. adm_Username a \<noteq> TrimSpace username"
    and "leaves users_view (ph_Hash bcrypt password)"
  shows "\<exists>e. fst (run_state (Login (app_auth_service bcrypt ttl) username attempt) w') = Inl e"
proof -
  have "users_view w' \<subseteq> users_view w \<union> {a. adm_Username a = username}"
  proof (cases "TrimSpace username = [] \<or> password = []")
    case True
    then show ?thesis using assms(1) by (auto simp: AuthService_BootstrapAdmin_def)
  next
    case False
    obtain h w1 where h: "run_state (ph_Hash bcrypt password) w = (h, w1)" by (cases "run_state (ph_Hash bcrypt password) w")
    have w1: "users_view w1 = users_view w" by (rule leavesD [OF assms(4) h])
    have "users_view (snd (run_state (BootstrapAdmin i username hash now) w2)) \<subseteq> users_view w2 \<union> {a. adm_Username a = username}" for i hash now w2
      by (auto simp: BootstrapAdmin_def exec_pool_def bootstrap_admin_stmt_def put_new_def users_view_def user_of_row_def Let_def
          split: option.splits sum.splits if_splits dest!: insert_row_ok)
    note stored = this [of "w_ids w1 (w_idn w1)" _ "w_clock w1 (w_ticks w1)" "w1\<lparr>w_idn := Suc (w_idn w1), w_ticks := Suc (w_ticks w1)\<rparr>"]
    show ?thesis
    proof (cases h)
      case (Inl e)
      then show ?thesis using assms(1) False h w1 by (auto simp: AuthService_BootstrapAdmin_def)
    next
      case (Inr hash)
      then have "w' = snd (run_state (BootstrapAdmin (w_ids w1 (w_idn w1)) username hash (w_clock w1 (w_ticks w1)))
          (w1\<lparr>w_idn := Suc (w_idn w1), w_ticks := Suc (w_ticks w1)\<rparr>))"
        using assms(1) False h by (simp add: AuthService_BootstrapAdmin_def store_auth_def)
      moreover have "users_view (w1\<lparr>w_idn := Suc (w_idn w1), w_ticks := Suc (w_ticks w1)\<rparr>) = users_view w"
        using w1 by (simp add: users_view_def)
      ultimately show ?thesis using stored [of hash] by simp
    qed
  qed
  then have none: "adm_Username a \<noteq> TrimSpace username" if "a \<in> users_view w'" for a using that assms(2,3) by auto
  obtain r2 w2 where l: "run_state (Login (app_auth_service bcrypt ttl) username attempt) w' = (r2, w2)"
    by (cases "run_state (Login (app_auth_service bcrypt ttl) username attempt) w'")
  then show ?thesis by (cases rule: authn.login_run) (use none l in auto)
qed

section \<open>Sessions at concrete values\<close>

text \<open>A hasher for examples: the hash of a password is its bytes, and comparing is equality.\<close>

definition plain_hasher :: "world password_hasher" where
  "plain_hasher = \<lparr>ph_Hash = (\<lambda>p. ok (map of_char p)),
     ph_Compare = (\<lambda>h p. if h = map of_char p then Inr () else Inl (ForeignError ''mismatch''))\<rparr>"

definition admin_row :: user_row where
  "admin_row = \<lparr>u_id = ''u1'', u_username = ''admin'', u_password_hash = [112], u_role = ''admin'', u_disabled = False, u_created_at = 0\<rparr>"

definition login_world :: world where
  "login_world = start_world (seed_db\<lparr>db_users := [admin_row]\<rparr>)"

abbreviation login_service :: "world auth_service" where
  "login_service \<equiv> app_auth_service plain_hasher (60 * second)"

definition logged_in :: "world" where
  "logged_in = snd (run_state (Login login_service ''admin'' ''p'') login_world)"

lemma trim_admin: "TrimSpace ''admin'' = ''admin''" "Itoa 0 = ''0''"
  by code_simp+

lemmas login_defs = Login_def trim_admin store_auth_def FindAdminByUsername_def CreateSession_def create_session_stmt_def exec_pool_def
  find_row_def insert_row_def put_new_def user_exists_def plain_hasher_def login_world_def start_world_def seed_db_def admin_row_def second_def

lemma login_runs:
  "run_state (Login login_service ''admin'' ''p'') login_world
     = (Inr (\<lparr>au_ID = ''u1'', au_Username = ''admin'', au_Role = ''admin''\<rparr>, ''n0'', 61 * second), logged_in)"
proof -
  have "fst (run_state (Login login_service ''admin'' ''p'') login_world)
     = Inr (\<lparr>au_ID = ''u1'', au_Username = ''admin'', au_Role = ''admin''\<rparr>, ''n0'', 61 * second)"
    by (simp add: login_defs)
  then show ?thesis unfolding logged_in_def by (metis prod.collapse)
qed

lemma logged_in_facts:
  "w_clock logged_in (w_ticks logged_in) < 61 * second" "w_fate logged_in n = None" "sessions_view login_world = {}" "db_ok (w_db login_world)"
  by (simp_all add: logged_in_def login_defs sessions_view_def db_ok_def wf_defs owners_def device_ids_def)


lemma token_accepted:
  obtains w where "run_state (ValidateSession login_service ''n0'') logged_in = (Inr \<lparr>au_ID = ''u1'', au_Username = ''admin'', au_Role = ''admin''\<rparr>, w)"
proof -
  have "fst (run_state (ValidateSession login_service ''n0'') logged_in) = Inr \<lparr>au_ID = ''u1'', au_Username = ''admin'', au_Role = ''admin''\<rparr>"
    by (simp add: logged_in_def login_defs ValidateSession_def FindSession_def GetAdminByID_def)
  then show ?thesis using that by (metis prod.collapse)
qed

theorem accepted_token_was_issued_witness:
  "\<exists>session \<in> sessions_view logged_in. ses_Token session = ''n0'' \<and> w_clock logged_in (w_ticks logged_in) < ses_ExpiresAt session"
proof -
  obtain w where "run_state (ValidateSession login_service ''n0'') logged_in = (Inr \<lparr>au_ID = ''u1'', au_Username = ''admin'', au_Role = ''admin''\<rparr>, w)"
    by (rule token_accepted)
  moreover have "auth_history login_service sessions_view login_world [''n0''] logged_in"
    using auth_history.login [OF auth_history.start login_runs] .
  ultimately show ?thesis using accepted_token_was_issued logged_in_facts(3) by blast
qed

theorem logout_is_final_witness:
  "\<exists>e. fst (run_state (ValidateSession login_service ''n0'') (snd (run_state (Logout login_service ''n0'') logged_in))) = Inl e"
proof -
  let ?w = "snd (run_state (Logout login_service ''n0'') logged_in)"
  have "fst (run_state (Logout login_service ''n0'') logged_in) = Inr ()"
    by (simp add: Logout_def store_auth_def DeleteSession_def delete_session_stmt_def exec_pool_def logged_in_facts Let_def)
  then have "run_state (Logout login_service ''n0'') logged_in = (Inr (), ?w)" by (metis prod.collapse)
  from logout_is_final [OF this auth_history.start] show ?thesis by simp
qed

theorem padded_admin_locked_out_witness:
  "\<exists>e. fst (run_state (Login login_service '' root'' ''p'') (snd (run_state (AuthService_BootstrapAdmin login_service '' root'' ''p'') login_world))) = Inl e"
proof (rule padded_admin_locked_out [OF surjective_pairing])
  have t: "TrimSpace '' root'' = ''root''" by code_simp
  then show "TrimSpace '' root'' \<noteq> '' root''" "\<forall>a \<in> users_view login_world. adm_Username a \<noteq> TrimSpace '' root''"
    by (simp_all add: users_view_def user_of_row_def login_world_def start_world_def admin_row_def)
  show "leaves users_view (ph_Hash plain_hasher ''p'')" by (simp add: plain_hasher_def state_io_rel_def)
qed

end
