(* ===== verification/Queries.thy ===== *)
theory Queries
  imports Progress
begin

text \<open>
  The services that answer the administrator's questions (\<open>internal/service/device.go\<close>, \<open>message.go\<close>, \<open>alerts.go\<close>) and the
  retention job (\<open>internal/jobs/retention.go\<close>). \<open>ilike\<close> and \<open>collate\<close> are PostgreSQL's pattern match and sort order.
\<close>

section \<open>Devices, types and topics\<close>

record 'w device_service =
  ds_devices :: "'w device_repository"
  ds_topics :: "'w topic_repository"
  ds_clock :: "'w clock"

definition NewDeviceService :: "'w clock \<Rightarrow> 'w device_repository \<Rightarrow> 'w topic_repository \<Rightarrow> 'w clock option \<Rightarrow> 'w device_service" where
  "NewDeviceService system_clock devices topics clock =
     \<lparr>ds_devices = devices, ds_topics = topics, ds_clock = (case clock of None \<Rightarrow> system_clock | Some c \<Rightarrow> c)\<rparr>"

definition bad_device_id :: go_error where
  "bad_device_id = InvalidInput ''invalid_device_id'' ''device id must not be empty''"

definition DeviceService_ListDevices :: "'w device_service \<Rightarrow> device_filter \<Rightarrow> ('w, device_dto page) eio" where
  "DeviceService_ListDevices s f =
     (let (p, ps) = NormalizePage (df_Page f) (df_PageSize f) in
      dr_ListDevices (ds_devices s) (f\<lparr>df_Page := p, df_PageSize := ps\<rparr>))"

definition DeviceService_GetDevice :: "'w device_service \<Rightarrow> string \<Rightarrow> ('w, device_dto) eio" where
  "DeviceService_GetDevice s i = (if TrimSpace i = [] then fail bad_device_id else dr_GetDevice (ds_devices s) i)"

definition DeviceService_ChangeDeviceType :: "'w device_service \<Rightarrow> change_device_type_command \<Rightarrow> ('w, device_dto) eio" where
  "DeviceService_ChangeDeviceType s cmd =
     (if TrimSpace (cdt_DeviceID cmd) = [] then fail bad_device_id
      else if TrimSpace (cdt_Type cmd) = [] then fail (InvalidInput ''invalid_device_type'' ''device type must not be empty'')
      else State_Monad.bind (ds_clock s) (\<lambda>now. dr_ChangeDeviceType (ds_devices s) cmd now))"

definition DeviceService_ListDeviceTypes :: "'w device_service \<Rightarrow> ('w, device_type_dto list) eio" where
  "DeviceService_ListDeviceTypes s = dr_ListDeviceTypes (ds_devices s)"

definition DeviceService_ListDeviceTopics :: "'w device_service \<Rightarrow> string \<Rightarrow> topic_filter \<Rightarrow> ('w, observed_topic_dto page) eio" where
  "DeviceService_ListDeviceTopics s deviceID f =
     (if TrimSpace deviceID = [] then fail bad_device_id
      else (let (p, ps) = NormalizePage (tf_Page f) (tf_PageSize f) in
        tr_ListDeviceTopics (ds_topics s) deviceID (f\<lparr>tf_Page := p, tf_PageSize := ps\<rparr>)))"

definition DeviceService_ListTopics :: "'w device_service \<Rightarrow> topic_filter \<Rightarrow> ('w, observed_topic_dto page) eio" where
  "DeviceService_ListTopics s f =
     (let (p, ps) = NormalizePage (tf_Page f) (tf_PageSize f) in
      tr_ListTopics (ds_topics s) (f\<lparr>tf_Page := p, tf_PageSize := ps\<rparr>))"

section \<open>Messages and alerts\<close>

record 'w message_service =
  ms_messages :: "'w message_repository"
  ms_clock :: "'w clock"

definition NewMessageService :: "'w clock \<Rightarrow> 'w message_repository \<Rightarrow> 'w clock option \<Rightarrow> 'w message_service" where
  "NewMessageService system_clock messages clock =
     \<lparr>ms_messages = messages, ms_clock = (case clock of None \<Rightarrow> system_clock | Some c \<Rightarrow> c)\<rparr>"

definition MessageService_QueryMessages :: "'w message_service \<Rightarrow> message_filter \<Rightarrow> ('w, message_dto page) eio" where
  "MessageService_QueryMessages s f =
     State_Monad.bind (ms_clock s) (\<lambda>now. mr_QueryMessages (ms_messages s) (ApplyDefaultMessageRange now f))"

record 'w alert_service =
  als_alerts :: "'w alert_repository"

definition NewAlertService :: "'w alert_repository \<Rightarrow> 'w alert_service" where
  "NewAlertService alerts = \<lparr>als_alerts = alerts\<rparr>"

definition AlertService_ListAlerts :: "'w alert_service \<Rightarrow> alert_filter \<Rightarrow> ('w, system_alert page) eio" where
  "AlertService_ListAlerts s f =
     (let (p, ps) = NormalizePage (af_Page f) (af_PageSize f) in
      ar_ListAlerts (als_alerts s) (f\<lparr>af_Page := p, af_PageSize := ps\<rparr>))"

section \<open>Retention\<close>

record 'w retention_job =
  rj_store :: "time \<Rightarrow> ('w, int) eio"
  rj_clock :: "'w clock"

definition NewRetentionJob :: "'w clock \<Rightarrow> (time \<Rightarrow> ('w, int) eio) \<Rightarrow> 'w clock option \<Rightarrow> 'w retention_job" where
  "NewRetentionJob system_clock store clock =
     \<lparr>rj_store = store, rj_clock = (case clock of None \<Rightarrow> system_clock | Some c \<Rightarrow> c)\<rparr>"

definition RunOnce :: "'w retention_job \<Rightarrow> int \<Rightarrow> ('w, int) eio" where
  "RunOnce j keepFor =
     (if keepFor \<le> 0 then ok 0 else State_Monad.bind (rj_clock j) (\<lambda>now. rj_store j (now - keepFor)))"

section \<open>On the store\<close>

definition app_device_service :: "(string \<Rightarrow> string \<Rightarrow> bool) \<Rightarrow> (string \<Rightarrow> string) \<Rightarrow> world device_service" where
  "app_device_service ilike collate = NewDeviceService clock_now (store_devices ilike collate) (store_topics ilike) (Some clock_now)"

definition app_message_service :: "world message_service" where
  "app_message_service = NewMessageService clock_now store_messages (Some clock_now)"

definition app_alert_service :: "world alert_service" where
  "app_alert_service = NewAlertService store_alerts"

definition store_retention_job :: "world retention_job" where
  "store_retention_job = NewRetentionJob clock_now DeleteMessagesBefore (Some clock_now)"

lemma app_services_simps [simp]:
  "ds_devices (app_device_service ilike collate) = store_devices ilike collate"
  "ds_topics (app_device_service ilike collate) = store_topics ilike"
  "ds_clock (app_device_service ilike collate) = clock_now"
  "ms_messages app_message_service = store_messages" "ms_clock app_message_service = clock_now"
  "als_alerts app_alert_service = store_alerts"
  "rj_store store_retention_job = DeleteMessagesBefore" "rj_clock store_retention_job = clock_now"
  by (simp_all add: app_device_service_def NewDeviceService_def app_message_service_def NewMessageService_def
      app_alert_service_def NewAlertService_def store_retention_job_def NewRetentionJob_def)

text \<open>A message query with a bound of its own does not depend on the clock.\<close>

lemma message_query_bounded:
  assumes "mf_From f \<noteq> None \<or> mf_To f \<noteq> None"
  shows "run_state (MessageService_QueryMessages app_message_service f) w
     = run_state (QueryMessages f) (w\<lparr>w_ticks := Suc (w_ticks w)\<rparr>)"
proof -
  obtain p ps where n: "NormalizePage (mf_Page f) (mf_PageSize f) = (p, ps)" by (cases "NormalizePage (mf_Page f) (mf_PageSize f)")
  have "message_matches (f\<lparr>mf_Page := p, mf_PageSize := ps\<rparr>) = message_matches f" by (simp add: message_matches_def [abs_def])
  then show ?thesis
    using assms NormalizePage_idem [OF n]
    by (auto simp: MessageService_QueryMessages_def ApplyDefaultMessageRange_def store_messages_def QueryMessages_def n Let_def)
qed

lemma message_rows_ticks [simp]: "message_rows f (w\<lparr>w_ticks := n\<rparr>) = message_rows f w"
  by (simp add: message_rows_def)

interpretation query_pages: paged_list
  "\<lambda>p ps. MessageService_QueryMessages app_message_service (f\<lparr>mf_From := Some t, mf_Page := p, mf_PageSize := ps\<rparr>)"
  "message_rows (f\<lparr>mf_From := Some t\<rparr>)" msg_ReceivedAt for f t
proof
  show "sorted_wrt (\<lambda>x y. msg_ReceivedAt y \<le> msg_ReceivedAt x) (message_rows (f\<lparr>mf_From := Some t\<rparr>) w)" for w
    by (rule message_pages.newest)
next
  fix p ps w pg w'
  assume run: "run_state (MessageService_QueryMessages app_message_service (f\<lparr>mf_From := Some t, mf_Page := p, mf_PageSize := ps\<rparr>)) w = (Inr pg, w')"
    and b: "1 \<le> p" "p \<le> 40000000000000000" "1 \<le> ps" "ps \<le> 200"
  have "run_state (QueryMessages (f\<lparr>mf_From := Some t, mf_Page := p, mf_PageSize := ps\<rparr>)) (w\<lparr>w_ticks := Suc (w_ticks w)\<rparr>) = (Inr pg, w')"
    using run by (simp add: message_query_bounded)
  from message_pages.page_ok [OF this b]
  show "page_items pg = take (nat ps) (drop (nat ((p - 1) * ps)) (message_rows (f\<lparr>mf_From := Some t\<rparr>) w))
      \<and> page_no pg = p \<and> page_size pg = ps
      \<and> page_total pg = (if page_items pg = [] then 0 else int (length (message_rows (f\<lparr>mf_From := Some t\<rparr>) w)))
      \<and> message_rows (f\<lparr>mf_From := Some t\<rparr>) w' = message_rows (f\<lparr>mf_From := Some t\<rparr>) w"
    by simp
qed


text \<open>
  A page number out of range. For a page so large that the 64-bit product of the offset is negative, the listing fails
  although the request is valid and the true offset is just beyond the end.
\<close>

theorem huge_page_fails:
  assumes "wrap64 ((p - 1) * ps) < 0" "1 \<le> p" "p \<le> 9223372036854775807" "1 \<le> ps" "ps \<le> 200"
  shows "\<exists>e. fst (run_state (DeviceService_ListDevices (app_device_service ilike collate) (f\<lparr>df_Page := p, df_PageSize := ps\<rparr>)) w) = Inl e"
proof -
  have "page_offset p ps < 0" using assms by (simp add: page_offset_def wrap64_id int64_def)
  then show ?thesis
    using assms(2-5)
    by (auto simp: DeviceService_ListDevices_def store_devices_def ListDevices_def read_page_def page_query_def NormalizePage_id exec_pool_def
        Let_def split: option.split)
qed

text \<open>
  C32. Changing a device's type. A success means that the type exists and that exactly this device's row now has it, with one
  more line in the audit log from the old type to the new one; a failure changes nothing.
\<close>

theorem device_type_changed:
  assumes "run_state (DeviceService_ChangeDeviceType (app_device_service ilike collate) cmd) w = (r, w')"
  shows "case r of Inl e \<Rightarrow> w_db w' = w_db w
    | Inr dev \<Rightarrow> dev_ID dev = cdt_DeviceID cmd \<and> dev_Type dev = cdt_Type cmd \<and> type_exists (w_db w) (cdt_Type cmd)
        \<and> db_devices (w_db w') = map (\<lambda>d. if d_id d = cdt_DeviceID cmd then d\<lparr>d_type := cdt_Type cmd\<rparr> else d) (db_devices (w_db w))
        \<and> (\<exists>old at. old \<in> d_type ` {d \<in> set (db_devices (w_db w)). d_id d = cdt_DeviceID cmd}
             \<and> db_type_changes (w_db w') = db_type_changes (w_db w) @
               [\<lparr>x_device_id = cdt_DeviceID cmd, x_old_type = old, x_new_type = cdt_Type cmd, x_actor_id = cdt_ActorID cmd, x_changed_at = at\<rparr>])"
proof (cases "TrimSpace (cdt_DeviceID cmd) = [] \<or> TrimSpace (cdt_Type cmd) = []")
  case True
  then show ?thesis using assms by (auto simp: DeviceService_ChangeDeviceType_def split: if_splits)
next
  case False
  let ?w = "w\<lparr>w_ticks := Suc (w_ticks w)\<rparr>" and ?at = "w_clock w (w_ticks w)"
  have run: "run_state (ChangeDeviceType cmd ?at) ?w = (r, w')"
    using assms False by (simp add: DeviceService_ChangeDeviceType_def store_devices_def)
  show ?thesis
  proof (cases r)
    case (Inl e)
    have "w_db w' = w_db ?w"
      using run [unfolded Inl ChangeDeviceType_def]
      by (rule in_tx_error [rotated])
        (intro hoare_ebind [OF exec_tx_no_effect] hoare_ebind [OF commit_effect] hoare_ok)
    then show ?thesis using Inl by simp
  next
    case (Inr dev)
    obtain w1 w2 where tx: "w_tx w1 = Some (w_db w)" "w' = w2\<lparr>w_tx := None\<rparr>"
      and body: "run_state (ebind (exec_tx (\<lambda>_ d. case find_row (\<lambda>r. d_id r = cdt_DeviceID cmd) (db_devices d) of
                               Inl e \<Rightarrow> Inl e | Inr r \<Rightarrow> Inr (d_type r, d))) (\<lambda>oldType.
      ebind (exec_tx (update_type_stmt (cdt_DeviceID cmd) (cdt_Type cmd))) (\<lambda>row.
      ebind (exec_tx (log_type_change_stmt cmd oldType ?at)) (\<lambda>_.
      ebind tx_commit (\<lambda>_. ok (scanDevice row)))))) w1 = (Inr dev, w2)"
      using run [unfolded Inr ChangeDeviceType_def] by (rule in_tx_ok) simp
    from body tx(1) obtain old u1 u2 u3 row d1 d2 where old: "find_row (\<lambda>r. d_id r = cdt_DeviceID cmd) (db_devices (w_db w)) = Inr old"
      and up: "update_type_stmt (cdt_DeviceID cmd) (cdt_Type cmd) u2 (w_db w) = Inr (row, d1)"
      and log: "log_type_change_stmt cmd (d_type old) ?at u3 d1 = Inr ((), d2)"
      and w2: "w_db w2 = d2" "dev = scanDevice row"
      by (auto split: sum.splits prod.splits dest!: exec_tx_ok tx_commit_ok)
    have row: "old \<in> set (db_devices (w_db w))" "d_id old = cdt_DeviceID cmd" using old by (auto dest: find_row_ok)
    have typed: "type_exists (w_db w) (cdt_Type cmd)" "row = old\<lparr>d_type := cdt_Type cmd\<rparr>"
      "d1 = (w_db w)\<lparr>db_devices := update_rows (\<lambda>r. d_id r = cdt_DeviceID cmd) (\<lambda>r. r\<lparr>d_type := cdt_Type cmd\<rparr>) (db_devices (w_db w))\<rparr>"
      using up old by (auto simp: update_type_stmt_def split: if_splits)
    have "d2 = d1\<lparr>db_type_changes := db_type_changes d1 @ [\<lparr>x_device_id = cdt_DeviceID cmd, x_old_type = d_type old,
        x_new_type = cdt_Type cmd, x_actor_id = cdt_ActorID cmd, x_changed_at = ?at\<rparr>]\<rparr>"
      using log by (auto simp: log_type_change_stmt_def split: if_splits)
    then show ?thesis
      using Inr tx(2) w2 typed row by (auto simp: scanDevice_def update_rows_def)
  qed
qed

text \<open>
  Retention. With a positive period it deletes exactly the messages older than the period and reports how many; otherwise it does
  nothing.
\<close>

theorem retention_deletes_old:
  assumes "run_state (RunOnce store_retention_job keepFor) w = (Inr n, w')"
  shows "if keepFor \<le> 0 then n = 0 \<and> w' = w
    else db_messages (w_db w') = filter (\<lambda>m. w_clock w (w_ticks w) - keepFor \<le> m_received_at m) (db_messages (w_db w))
      \<and> n = int (length (db_messages (w_db w))) - int (length (db_messages (w_db w')))"
proof (cases "keepFor \<le> 0")
  case False
  have count: "length (filter P xs) + length (filter (\<lambda>x. \<not> P x) xs) = length xs" for P and xs :: "message_row list"
    by (rule sum_length_filter_compl)
  let ?old = "\<lambda>m. m_received_at m < w_clock w (w_ticks w) - keepFor"
  have "db_messages (w_db w') = filter (\<lambda>m. \<not> ?old m) (db_messages (w_db w))" "n = int (length (filter ?old (db_messages (w_db w))))"
    using assms False by (auto simp: RunOnce_def DeleteMessagesBefore_def delete_messages_stmt_def dest!: exec_pool_ok)
  then show ?thesis using False count [of ?old "db_messages (w_db w)"] by (simp add: not_less)
qed (use assms in \<open>simp add: RunOnce_def\<close>)

section \<open>Concrete values\<close>

definition archived :: "string \<Rightarrow> time \<Rightarrow> message_row" where
  "archived i at = \<lparr>m_id = i, m_device_id = None, m_client_id = ''inline'', m_session_id = [], m_topic = ''t'', m_payload_text = i,
     m_payload_format = PayloadFormatText, m_qos = 0, m_retain = False, m_received_at = at\<rparr>"

definition archive_world :: world where
  "archive_world = start_world (seed_db\<lparr>db_messages := [archived ''a'' 3, archived ''b'' 7, archived ''c'' 5],
     db_devices := [\<lparr>d_id = ''x'', d_client_id = ''d'', d_type = ''unknown'', d_status = DeviceStatusOffline, d_session_id = [],
       d_first_seen_at = 0, d_last_seen_at = 0, d_last_disconnected_at = None, d_metadata = Map.empty\<rparr>]\<rparr>)"

definition all_messages :: message_filter where
  "all_messages = \<lparr>mf_DeviceID = [], mf_Topic = [], mf_From = Some 4, mf_To = None, mf_Page = 1, mf_PageSize = 1\<rparr>"

lemma archive_rows: "message_rows all_messages archive_world = [scanMessage (archived ''b'' 7), scanMessage (archived ''c'' 5)]"
  by (simp add: message_rows_def archive_world_def start_world_def newest_first_def message_matches_def all_messages_def archived_def any_or_def)


theorem huge_page_fails_witness:
  "\<exists>e. fst (run_state (DeviceService_ListDevices (app_device_service (\<lambda>_ _. True) id)
     (\<lparr>df_Status = [], df_Type = [], df_Query = [], df_Page = 1, df_PageSize = 1\<rparr>\<lparr>df_Page := 184467440737095518, df_PageSize := 50\<rparr>))
     archive_world) = Inl e"
  by (rule huge_page_fails) (simp_all add: wrap64_def)

theorem device_type_changed_witness:
  "\<exists>w' :: world. map d_type (db_devices (w_db w')) = [''GSCU1B''] \<and> length (db_type_changes (w_db w')) = 1"
proof -
  let ?cmd = "\<lparr>cdt_DeviceID = ''x'', cdt_Type = ''GSCU1B'', cdt_ActorID = ''u1''\<rparr>"
  let ?s = "app_device_service (\<lambda>_ _. True) id"
  have trim: "TrimSpace ''x'' = ''x''" "TrimSpace ''GSCU1B'' = ''GSCU1B''" by (simp_all add: TrimSpace_plain plain_byte_def is_space_def)
  have "\<exists>dev w'. run_state (DeviceService_ChangeDeviceType ?s ?cmd) archive_world = (Inr dev, w')"
    by (simp add: DeviceService_ChangeDeviceType_def trim store_devices_def ChangeDeviceType_def in_tx_def tx_begin_def exec_tx_def tx_commit_def
        find_row_def update_type_stmt_def log_type_change_stmt_def type_exists_def device_exists_def update_rows_def archive_world_def
        start_world_def seed_db_def)
  then obtain dev w' where run: "run_state (DeviceService_ChangeDeviceType ?s ?cmd) archive_world = (Inr dev, w')" by blast
  show ?thesis
    by (rule exI [of _ w']) (use device_type_changed [OF run] in \<open>auto simp: archive_world_def start_world_def seed_db_def\<close>)
qed

theorem retention_deletes_old_witness:
  "\<exists>w' :: world. map m_id (db_messages (w_db w')) = [''b'', ''c'']"
proof -
  have "\<exists>n w'. run_state (RunOnce store_retention_job (second - 4)) archive_world = (Inr n, w')"
    by (simp add: RunOnce_def second_def DeleteMessagesBefore_def exec_pool_def delete_messages_stmt_def archive_world_def start_world_def)
  then obtain n w' where run: "run_state (RunOnce store_retention_job (second - 4)) archive_world = (Inr n, w')" by blast
  show ?thesis
    by (rule exI [of _ w']) (use retention_deletes_old [OF run] in \<open>auto simp: archive_world_def start_world_def second_def archived_def\<close>)
qed

end
