(* ===== verification/Requests.thy ===== *)
theory Requests
  imports GoParse Scheduling QuickActions Auth Queries
begin

text \<open>
  What the router reads from a request (\<open>internal/api/router.go\<close>): query parameters, page numbers, times and JSON bodies.
  A body is the first JSON value of the stream, or nothing when the stream does not begin with one; \<open>encoding/json\<close>
  fills a struct from it field by field, and \<open>decode_field\<close> and its callers write out what the program relies on.
\<close>

section \<open>Numbers in the query\<close>

text \<open>
  \<open>strconv.Atoi\<close> returns a number beside its error: zero for a syntax error, the nearest 64-bit number for one out of range
  (which it notices as soon as the digits read so far exceed 64 bits). The router drops the error and keeps the number.
\<close>

fun uint_value :: "int \<Rightarrow> string \<Rightarrow> int option" where
  "uint_value n [] = Some n"
| "uint_value n (c # cs) =
     (if \<not> is_digit c then None
      else let n1 = n * 10 + digit_val c in
        if 18446744073709551615 < n1 then Some 18446744073709551615 else uint_value n1 cs)"

definition Atoi_value :: "string \<Rightarrow> int" where
  "Atoi_value s =
     (let neg = (s \<noteq> [] \<and> hd s = CHR ''-'');
          ds = (if s \<noteq> [] \<and> (hd s = CHR ''-'' \<or> hd s = CHR ''+'') then tl s else s)
      in if ds = [] then 0
         else (case uint_value 0 ds of
             None \<Rightarrow> 0
           | Some un \<Rightarrow>
               if \<not> neg \<and> 9223372036854775808 \<le> un then 9223372036854775807
               else if neg \<and> 9223372036854775808 < un then - 9223372036854775808
               else if neg then - un else un))"

lemma uint_value_digits:
  "0 \<le> n \<Longrightarrow> list_all is_digit ds \<Longrightarrow> read_digits n ds \<le> 18446744073709551615 \<Longrightarrow> uint_value n ds = Some (read_digits n ds)"
proof (induction ds arbitrary: n)
  case (Cons c ds)
  then have "0 \<le> digit_val c" using digit_val_bounds by simp
  with Cons read_digits_mono [of "n * 10 + digit_val c" ds] show ?case by simp
qed simp

text \<open>Where \<open>Atoi\<close> succeeds, the number is the one it returns.\<close>

lemma Atoi_value_ok:
  assumes "Atoi s = Some n"
  shows "Atoi_value s = n"
proof -
  let ?ds = "if s \<noteq> [] \<and> (hd s = CHR ''-'' \<or> hd s = CHR ''+'') then tl s else s"
  have ds: "?ds \<noteq> []" "list_all is_digit ?ds" and n: "n = (if s \<noteq> [] \<and> hd s = CHR ''-'' then - read_digits 0 ?ds else read_digits 0 ?ds)"
    and range: "int64 n"
    using assms by (auto simp: Atoi_def Let_def split: if_splits)
  have pos: "0 \<le> read_digits 0 ?ds" using read_digits_mono [OF _ ds(2), of 0] by simp
  have "read_digits 0 ?ds \<le> 18446744073709551615" using n range by (auto simp: int64_def split: if_splits)
  from uint_value_digits [OF _ ds(2) this] have "uint_value 0 ?ds = Some (read_digits 0 ?ds)" by simp
  then show ?thesis using ds(1) n range pos by (auto simp: Atoi_value_def Let_def int64_def split: if_splits)
qed

lemma Atoi_value_int64: "int64 (Atoi_value s)"
proof -
  have "0 \<le> un" if "uint_value n ds = Some un" "0 \<le> n" for un n ds
    using that
    by (induction n ds rule: uint_value.induct) (auto simp: Let_def split: if_splits dest: digit_val_bounds)
  then show ?thesis by (fastforce simp: Atoi_value_def Let_def int64_def split: option.split)
qed

section \<open>JSON bodies\<close>

text \<open>\<open>JEscaped\<close> is a string whose literal has an escape in it.\<close>

datatype json = JNull | JBool bool | JNumber int | JFraction | JString string | JEscaped string | JArray "json list" | JObject "(string \<times> json) list"

text \<open>
  A key belongs to a field when it is equal to its name up to case folding; of the runes beyond ASCII only the long s and the Kelvin sign
  fold to a letter of ASCII, which is all the names consist of. Of several matching keys the last one counts; a value of another type is
  an error. A \<open>null\<close> leaves a string, a number or a boolean as it is and makes a pointer or a slice nil.
\<close>

definition fold_rune :: "nat \<Rightarrow> nat" where
  "fold_rune r = (if 97 \<le> r \<and> r \<le> 122 then r - 32 else if r = 383 then 83 else if r = 8490 then 75 else r)"

definition same_key :: "string \<Rightarrow> string \<Rightarrow> bool" where
  "same_key a b \<longleftrightarrow> map fold_rune (to_runes a) = map fold_rune (to_runes b)"

fun decode_field :: "string \<Rightarrow> ('a \<Rightarrow> json \<Rightarrow> 'a option) \<Rightarrow> 'a \<Rightarrow> (string \<times> json) list \<Rightarrow> 'a option" where
  "decode_field name conv x [] = Some x"
| "decode_field name conv x ((k, v) # kvs) =
     (if \<not> same_key k name then decode_field name conv x kvs
      else (case conv x v of None \<Rightarrow> None | Some y \<Rightarrow> decode_field name conv y kvs))"

text \<open>\<open>null\<close> decodes to the zero value of the struct; any other value that is not an object is an error.\<close>

definition fields_of :: "json option \<Rightarrow> (string \<times> json) list option" where
  "fields_of body = (case body of Some JNull \<Rightarrow> Some [] | Some (JObject kvs) \<Rightarrow> Some kvs | _ \<Rightarrow> None)"

fun json_string :: "string \<Rightarrow> json \<Rightarrow> string option" where
  "json_string x (JString s) = Some s" | "json_string x (JEscaped s) = Some s" | "json_string x JNull = Some x" | "json_string x _ = None"

fun json_bool :: "bool \<Rightarrow> json \<Rightarrow> bool option" where
  "json_bool x (JBool b) = Some b" | "json_bool x JNull = Some x" | "json_bool x _ = None"

fun json_byte :: "byte \<Rightarrow> json \<Rightarrow> byte option" where
  "json_byte x (JNumber n) = (if 0 \<le> n \<and> n \<le> 255 then Some (word_of_int n) else None)" | "json_byte x JNull = Some x" | "json_byte x _ = None"

text \<open>An element \<open>null\<close> of an array counts as zero, which is exact as long as the key occurs once.\<close>

fun json_int :: "json \<Rightarrow> int option" where
  "json_int (JNumber n) = (if int64 n then Some n else None)" | "json_int JNull = Some 0" | "json_int _ = None"

fun json_ints :: "int list \<Rightarrow> json \<Rightarrow> int list option" where
  "json_ints x (JArray vs) = those (map json_int vs)" | "json_ints x JNull = Some []" | "json_ints x _ = None"

text \<open>\<open>UnmarshalJSON\<close> of a time reads the bytes between the quotes as they are, so a literal with an escape is no time.\<close>

fun json_time :: "time option \<Rightarrow> json \<Rightarrow> time option option" where
  "json_time x (JString s) = map_option Some (Parse_RFC3339 s)" | "json_time x JNull = Some None" | "json_time x _ = None"

abbreviation text_field :: "string \<Rightarrow> (string \<times> json) list \<Rightarrow> string option" where
  "text_field name kvs \<equiv> decode_field name json_string [] kvs"

section \<open>Requests\<close>

record http_request =
  rq_Method :: string
  rq_Path :: "string list"
  rq_Query :: "string \<Rightarrow> string"
  rq_Cookie :: "string \<Rightarrow> string option"
  rq_Body :: "json option"
  rq_RequestID :: string

definition pageParams :: "http_request \<Rightarrow> int \<times> int" where
  "pageParams r = NormalizePage (Atoi_value (rq_Query r ''page'')) (Atoi_value (rq_Query r ''pageSize''))"

definition parseOptionalTime :: "string \<Rightarrow> time option result" where
  "parseOptionalTime value =
     (if value = [] then Inr None
      else (case Parse_RFC3339 value of None \<Rightarrow> Inl (ForeignError ''parsing time'') | Some t \<Rightarrow> Inr (Some t)))"

text \<open>The request structs of the handlers.\<close>

definition decode_login :: "json option \<Rightarrow> (string \<times> string) option" where
  "decode_login body =
     (case fields_of body of None \<Rightarrow> None | Some kvs \<Rightarrow>
      (case (text_field ''username'' kvs, text_field ''password'' kvs) of
         (Some u, Some p) \<Rightarrow> Some (u, p) | _ \<Rightarrow> None))"

definition decode_type :: "json option \<Rightarrow> string option" where
  "decode_type body = (case fields_of body of None \<Rightarrow> None | Some kvs \<Rightarrow> text_field ''type'' kvs)"

record message_request =
  mr_Topic :: string
  mr_Payload :: string
  mr_PayloadEncoding :: string
  mr_QoS :: byte
  mr_Retain :: bool

definition decode_message :: "(string \<times> json) list \<Rightarrow> message_request option" where
  "decode_message kvs =
     (case (text_field ''topic'' kvs, text_field ''payload'' kvs, text_field ''payloadEncoding'' kvs,
            decode_field ''qos'' json_byte 0 kvs, decode_field ''retain'' json_bool False kvs) of
        (Some t, Some p, Some e, Some q, Some r) \<Rightarrow>
          Some \<lparr>mr_Topic = t, mr_Payload = p, mr_PayloadEncoding = e, mr_QoS = q, mr_Retain = r\<rparr>
      | _ \<Rightarrow> None)"

definition decode_publish :: "json option \<Rightarrow> message_request option" where
  "decode_publish body = Option.bind (fields_of body) decode_message"

text \<open>\<open>domain.ScheduleType(req.ScheduleType)\<close>\<close>

definition schedule_type_of :: "string \<Rightarrow> schedule_type" where
  "schedule_type_of s = (if s = ''once'' then ScheduleTypeOnce else if s = ''daily'' then ScheduleTypeDaily
     else if s = ''weekly'' then ScheduleTypeWeekly else ScheduleTypeOther s)"

definition decode_schedule :: "json option \<Rightarrow> (message_request \<times> create_scheduled_publish_command) option" where
  "decode_schedule body =
     (case fields_of body of None \<Rightarrow> None | Some kvs \<Rightarrow>
      (case (decode_message kvs, text_field ''deviceId'' kvs, text_field ''name'' kvs, text_field ''scheduleType'' kvs,
             decode_field ''runAt'' json_time None kvs, text_field ''timeOfDay'' kvs,
             decode_field ''weekdays'' json_ints [] kvs, text_field ''timezone'' kvs) of
         (Some m, Some dev, Some name, Some typ, Some at, Some tod, Some days, Some tz) \<Rightarrow>
           Some (m, \<lparr>cs_AdminUserID = [], cs_DeviceID = dev, cs_Name = name, cs_Topic = mr_Topic m, cs_PayloadText = mr_Payload m,
                     cs_QoS = mr_QoS m, cs_Retain = mr_Retain m, cs_ScheduleType = schedule_type_of typ, cs_RunAt = at,
                     cs_TimeOfDay = tod, cs_Weekdays = days, cs_Timezone = tz\<rparr>)
       | _ \<Rightarrow> None))"

definition decode_quick_action :: "json option \<Rightarrow> (message_request \<times> create_quick_action_command) option" where
  "decode_quick_action body =
     (case fields_of body of None \<Rightarrow> None | Some kvs \<Rightarrow>
      (case (decode_message kvs, text_field ''deviceId'' kvs, text_field ''name'' kvs) of
         (Some m, Some dev, Some name) \<Rightarrow>
           Some (m, \<lparr>cq_AdminUserID = [], cq_DeviceID = dev, cq_Name = name, cq_Topic = mr_Topic m, cq_PayloadText = mr_Payload m,
                     cq_QoS = mr_QoS m, cq_Retain = mr_Retain m\<rparr>)
       | _ \<Rightarrow> None))"

definition bad_encoding :: "message_request \<Rightarrow> bool" where
  "bad_encoding m \<longleftrightarrow> mr_PayloadEncoding m \<noteq> [] \<and> mr_PayloadEncoding m \<noteq> ''utf8'' \<and> mr_PayloadEncoding m \<noteq> ''json''"

section \<open>Facts\<close>

lemma pageParams_bounds: "pageParams r = (p, ps) \<Longrightarrow> 1 \<le> p \<and> p \<le> 9223372036854775807 \<and> 1 \<le> ps \<and> ps \<le> 200"
  using NormalizePage_bounds [of "Atoi_value (rq_Query r ''page'')" "Atoi_value (rq_Query r ''pageSize'')" p ps]
    Atoi_value_int64 [of "rq_Query r ''page''"]
  by (auto simp: pageParams_def NormalizePage_def Let_def int64_def split: if_splits)



end
