(* ===== verification/Api.thy ===== *)
theory Api
  imports Requests
begin

text \<open>
  The HTTP interface (\<open>internal/api/router.go\<close>): the table of routes, the session check before all but two of them, one
  handler per route, and how a result or an error becomes a response. The services are the fields of \<open>deps\<close>, as in the
  program; \<open>chi\<close> is used for matching paths, which \<open>match_path\<close> writes out.
\<close>

section \<open>Responses\<close>

datatype payload =
    PError string string string
  | PUserInfo admin_user_dto
  | PLogin admin_user_dto
  | PDevices "device_dto page"
  | PDevice device_dto
  | PTopics "observed_topic_dto page"
  | PMessages "message_dto page"
  | PPublished publish_result
  | PCommands "publish_command_dto page"
  | PTasks "scheduled_publish_task_dto page"
  | PTask scheduled_publish_task_dto
  | PActions "quick_action_dto page"
  | PAction quick_action_dto
  | PExecuted quick_action_execute_result
  | PAlerts "system_alert page"
  | PDeviceTypes "device_type_dto list"
  | PHealth
  | PPlain string

datatype cookie = SetToken string string time | ClearToken string

record http_response =
  rp_Status :: nat
  rp_Cookies :: "cookie list"
  rp_Payload :: "payload option"

definition writeJSON :: "nat \<Rightarrow> payload \<Rightarrow> http_response" where
  "writeJSON status p = \<lparr>rp_Status = status, rp_Cookies = [], rp_Payload = Some p\<rparr>"

definition error_status :: "go_error \<Rightarrow> nat" where
  "error_status err =
     (if ErrorCode err = ''unauthorized'' then 401 else if as_app_error err \<noteq> None then 400 else 500)"

definition writeError :: "http_request \<Rightarrow> go_error \<Rightarrow> http_response" where
  "writeError r err = writeJSON (error_status err) (PError (ErrorCode err) (ErrorMessage err) (rq_RequestID r))"

definition writeResult :: "http_request \<Rightarrow> ('a \<Rightarrow> payload) \<Rightarrow> 'a result \<Rightarrow> http_response" where
  "writeResult r enc res = (case res of Inl err \<Rightarrow> writeError r err | Inr x \<Rightarrow> writeJSON 200 (enc x))"

definition no_content :: "cookie list \<Rightarrow> http_response" where
  "no_content cookies = \<lparr>rp_Status = 204, rp_Cookies = cookies, rp_Payload = None\<rparr>"

section \<open>Dependencies\<close>

record 'w deps =
  dp_Login :: "string \<Rightarrow> string \<Rightarrow> ('w, admin_user_dto \<times> string \<times> time) eio"
  dp_Logout :: "string \<Rightarrow> ('w, unit) eio"
  dp_ValidateSession :: "string \<Rightarrow> ('w, admin_user_dto) eio"
  dp_ListDevices :: "device_filter \<Rightarrow> ('w, device_dto page) eio"
  dp_GetDevice :: "string \<Rightarrow> ('w, device_dto) eio"
  dp_ChangeDeviceType :: "change_device_type_command \<Rightarrow> ('w, device_dto) eio"
  dp_ListDeviceTypes :: "('w, device_type_dto list) eio"
  dp_ListDeviceTopics :: "string \<Rightarrow> topic_filter \<Rightarrow> ('w, observed_topic_dto page) eio"
  dp_ListTopics :: "topic_filter \<Rightarrow> ('w, observed_topic_dto page) eio"
  dp_QueryMessages :: "message_filter \<Rightarrow> ('w, message_dto page) eio"
  dp_Publish :: "publish_command \<Rightarrow> ('w, publish_result) eio"
  dp_ListPublishCommands :: "command_filter \<Rightarrow> ('w, publish_command_dto page) eio"
  dp_CreateScheduledPublish :: "create_scheduled_publish_command \<Rightarrow> ('w, scheduled_publish_task_dto) eio"
  dp_ListScheduledPublishes :: "scheduled_publish_filter \<Rightarrow> ('w, scheduled_publish_task_dto page) eio"
  dp_CancelScheduledPublish :: "string \<Rightarrow> ('w, scheduled_publish_task_dto) eio"
  dp_CreateQuickAction :: "create_quick_action_command \<Rightarrow> ('w, quick_action_dto) eio"
  dp_ListQuickActions :: "quick_action_filter \<Rightarrow> ('w, quick_action_dto page) eio"
  dp_DeleteQuickAction :: "string \<Rightarrow> ('w, unit) eio"
  dp_ExecuteQuickAction :: "string \<Rightarrow> string \<Rightarrow> ('w, quick_action_execute_result) eio"
  dp_ListAlerts :: "alert_filter \<Rightarrow> ('w, system_alert page) eio"
  dp_Realtime :: "(http_request \<Rightarrow> ('w, http_response) state) option"
  dp_SessionCookie :: string

definition tokenFromCookie :: "'w deps \<Rightarrow> http_request \<Rightarrow> string" where
  "tokenFromCookie d r = (case rq_Cookie r (dp_SessionCookie d) of None \<Rightarrow> [] | Some v \<Rightarrow> v)"

text \<open>\<open>x, err := m(); writeResult(w, r, x, err)\<close>\<close>

definition respond :: "http_request \<Rightarrow> ('a \<Rightarrow> payload) \<Rightarrow> ('w, 'a) eio \<Rightarrow> ('w, http_response) state" where
  "respond r enc m = State_Monad.bind m (\<lambda>res. ret (writeResult r enc res))"

definition invalid_json :: go_error where
  "invalid_json = InvalidInput ''invalid_json'' ''request body must be valid JSON''"

definition unsupported_encoding :: go_error where
  "unsupported_encoding = InvalidInput ''unsupported_payload_encoding'' ''payloadEncoding must be utf8 or json''"

section \<open>Handlers\<close>

definition h_login :: "'w deps \<Rightarrow> http_request \<Rightarrow> ('w, http_response) state" where
  "h_login d r =
     (case decode_login (rq_Body r) of None \<Rightarrow> ret (writeError r invalid_json) | Some (username, password) \<Rightarrow>
      State_Monad.bind (dp_Login d username password) (\<lambda>res. case res of
        Inl err \<Rightarrow> ret (writeError r err)
      | Inr (user, token, expiresAt) \<Rightarrow>
          ret ((writeJSON 200 (PLogin user))\<lparr>rp_Cookies := [SetToken (dp_SessionCookie d) token expiresAt]\<rparr>)))"

definition h_logout :: "'w deps \<Rightarrow> admin_user_dto \<Rightarrow> http_request \<Rightarrow> ('w, http_response) state" where
  "h_logout d user r =
     State_Monad.bind (dp_Logout d (tokenFromCookie d r)) (\<lambda>res. case res of
       Inl err \<Rightarrow> ret (writeError r err) | Inr _ \<Rightarrow> ret (no_content [ClearToken (dp_SessionCookie d)]))"

definition h_me :: "'w deps \<Rightarrow> admin_user_dto \<Rightarrow> http_request \<Rightarrow> ('w, http_response) state" where
  "h_me d user r = ret (writeJSON 200 (PUserInfo user))"

definition h_listDevices :: "'w deps \<Rightarrow> admin_user_dto \<Rightarrow> http_request \<Rightarrow> ('w, http_response) state" where
  "h_listDevices d user r = (let (p, ps) = pageParams r in
     respond r PDevices (dp_ListDevices d \<lparr>df_Status = rq_Query r ''status'', df_Type = rq_Query r ''type'', df_Query = rq_Query r ''q'',
       df_Page = p, df_PageSize = ps\<rparr>))"

definition h_getDevice :: "'w deps \<Rightarrow> string \<Rightarrow> admin_user_dto \<Rightarrow> http_request \<Rightarrow> ('w, http_response) state" where
  "h_getDevice d deviceID user r = respond r PDevice (dp_GetDevice d deviceID)"

definition h_changeDeviceType :: "'w deps \<Rightarrow> string \<Rightarrow> admin_user_dto \<Rightarrow> http_request \<Rightarrow> ('w, http_response) state" where
  "h_changeDeviceType d deviceID user r =
     (case decode_type (rq_Body r) of None \<Rightarrow> ret (writeError r invalid_json) | Some typ \<Rightarrow>
      respond r PDevice (dp_ChangeDeviceType d \<lparr>cdt_DeviceID = deviceID, cdt_Type = typ, cdt_ActorID = au_ID user\<rparr>))"

definition h_listDeviceTopics :: "'w deps \<Rightarrow> string \<Rightarrow> admin_user_dto \<Rightarrow> http_request \<Rightarrow> ('w, http_response) state" where
  "h_listDeviceTopics d deviceID user r = (let (p, ps) = pageParams r in
     respond r PTopics (dp_ListDeviceTopics d deviceID
       \<lparr>tf_Direction = rq_Query r ''direction'', tf_Query = rq_Query r ''q'', tf_Page = p, tf_PageSize = ps\<rparr>))"

definition h_listTopics :: "'w deps \<Rightarrow> admin_user_dto \<Rightarrow> http_request \<Rightarrow> ('w, http_response) state" where
  "h_listTopics d user r = (let (p, ps) = pageParams r in
     respond r PTopics (dp_ListTopics d
       \<lparr>tf_Direction = rq_Query r ''direction'', tf_Query = rq_Query r ''q'', tf_Page = p, tf_PageSize = ps\<rparr>))"

definition h_queryMessages :: "'w deps \<Rightarrow> admin_user_dto \<Rightarrow> http_request \<Rightarrow> ('w, http_response) state" where
  "h_queryMessages d user r =
     (let (p, ps) = pageParams r in
      case parseOptionalTime (rq_Query r ''from'') of
        Inl _ \<Rightarrow> ret (writeError r (InvalidInput ''invalid_from'' ''from must be RFC3339 time''))
      | Inr from_at \<Rightarrow>
      (case parseOptionalTime (rq_Query r ''to'') of
        Inl _ \<Rightarrow> ret (writeError r (InvalidInput ''invalid_to'' ''to must be RFC3339 time''))
      | Inr to_at \<Rightarrow>
      respond r PMessages (dp_QueryMessages d \<lparr>mf_DeviceID = rq_Query r ''deviceId'', mf_Topic = rq_Query r ''topic'',
        mf_From = from_at, mf_To = to_at, mf_Page = p, mf_PageSize = ps\<rparr>)))"

definition h_publish :: "'w deps \<Rightarrow> admin_user_dto \<Rightarrow> http_request \<Rightarrow> ('w, http_response) state" where
  "h_publish d user r =
     (case decode_publish (rq_Body r) of None \<Rightarrow> ret (writeError r invalid_json) | Some m \<Rightarrow>
      if bad_encoding m then ret (writeError r unsupported_encoding)
      else respond r PPublished (dp_Publish d \<lparr>cmd_AdminUserID = au_ID user, cmd_Topic = mr_Topic m, cmd_PayloadText = mr_Payload m,
        cmd_QoS = mr_QoS m, cmd_Retain = mr_Retain m\<rparr>))"

definition h_listCommands :: "'w deps \<Rightarrow> admin_user_dto \<Rightarrow> http_request \<Rightarrow> ('w, http_response) state" where
  "h_listCommands d user r = (let (p, ps) = pageParams r in
     respond r PCommands (dp_ListPublishCommands d
       \<lparr>cf_Topic = rq_Query r ''topic'', cf_Status = rq_Query r ''status'', cf_Page = p, cf_PageSize = ps\<rparr>))"

definition h_listScheduledPublishes :: "'w deps \<Rightarrow> admin_user_dto \<Rightarrow> http_request \<Rightarrow> ('w, http_response) state" where
  "h_listScheduledPublishes d user r = (let (p, ps) = pageParams r in
     respond r PTasks (dp_ListScheduledPublishes d
       \<lparr>sf_DeviceID = rq_Query r ''deviceId'', sf_Status = rq_Query r ''status'', sf_Page = p, sf_PageSize = ps\<rparr>))"

definition h_createScheduledPublish :: "'w deps \<Rightarrow> admin_user_dto \<Rightarrow> http_request \<Rightarrow> ('w, http_response) state" where
  "h_createScheduledPublish d user r =
     (case decode_schedule (rq_Body r) of None \<Rightarrow> ret (writeError r invalid_json) | Some (m, cmd) \<Rightarrow>
      if bad_encoding m then ret (writeError r unsupported_encoding)
      else respond r PTask (dp_CreateScheduledPublish d (cmd\<lparr>cs_AdminUserID := au_ID user\<rparr>)))"

definition h_cancelScheduledPublish :: "'w deps \<Rightarrow> string \<Rightarrow> admin_user_dto \<Rightarrow> http_request \<Rightarrow> ('w, http_response) state" where
  "h_cancelScheduledPublish d taskID user r = respond r PTask (dp_CancelScheduledPublish d taskID)"

definition h_listQuickActions :: "'w deps \<Rightarrow> admin_user_dto \<Rightarrow> http_request \<Rightarrow> ('w, http_response) state" where
  "h_listQuickActions d user r = (let (p, ps) = pageParams r in
     respond r PActions (dp_ListQuickActions d \<lparr>qf_DeviceID = rq_Query r ''deviceId'', qf_Page = p, qf_PageSize = ps\<rparr>))"

definition h_createQuickAction :: "'w deps \<Rightarrow> admin_user_dto \<Rightarrow> http_request \<Rightarrow> ('w, http_response) state" where
  "h_createQuickAction d user r =
     (case decode_quick_action (rq_Body r) of None \<Rightarrow> ret (writeError r invalid_json) | Some (m, cmd) \<Rightarrow>
      if bad_encoding m then ret (writeError r unsupported_encoding)
      else respond r PAction (dp_CreateQuickAction d (cmd\<lparr>cq_AdminUserID := au_ID user\<rparr>)))"

definition h_deleteQuickAction :: "'w deps \<Rightarrow> string \<Rightarrow> admin_user_dto \<Rightarrow> http_request \<Rightarrow> ('w, http_response) state" where
  "h_deleteQuickAction d actionID user r =
     State_Monad.bind (dp_DeleteQuickAction d actionID) (\<lambda>res. case res of
       Inl err \<Rightarrow> ret (writeError r err) | Inr _ \<Rightarrow> ret (no_content []))"

definition h_executeQuickAction :: "'w deps \<Rightarrow> string \<Rightarrow> admin_user_dto \<Rightarrow> http_request \<Rightarrow> ('w, http_response) state" where
  "h_executeQuickAction d actionID user r = respond r PExecuted (dp_ExecuteQuickAction d actionID (au_ID user))"

definition h_listAlerts :: "'w deps \<Rightarrow> admin_user_dto \<Rightarrow> http_request \<Rightarrow> ('w, http_response) state" where
  "h_listAlerts d user r = (let (p, ps) = pageParams r in
     respond r PAlerts (dp_ListAlerts d
       \<lparr>af_Level = rq_Query r ''level'', af_Status = rq_Query r ''status'', af_Page = p, af_PageSize = ps\<rparr>))"

definition h_listDeviceTypes :: "'w deps \<Rightarrow> admin_user_dto \<Rightarrow> http_request \<Rightarrow> ('w, http_response) state" where
  "h_listDeviceTypes d user r = respond r PDeviceTypes (dp_ListDeviceTypes d)"

section \<open>The table of routes\<close>

datatype segment = Lit string | Param

datatype endpoint =
    ELogin | ELogout | EMe | EListDevices | EGetDevice | EChangeDeviceType | EListDeviceTopics | EListTopics | EQueryMessages
  | EPublish | EListScheduled | ECreateScheduled | ECancelScheduled | EListQuickActions | ECreateQuickAction
  | EDeleteQuickAction | EExecuteQuickAction | EListCommands | EListAlerts | EListDeviceTypes | ERealtime | EHealth

definition api :: "segment list \<Rightarrow> segment list" where
  "api segs = Lit ''api'' # segs"

definition routes :: "bool \<Rightarrow> (string \<times> segment list \<times> endpoint) list" where
  "routes realtime =
    [(''POST'', api [Lit ''auth'', Lit ''login''], ELogin),
     (''POST'', api [Lit ''auth'', Lit ''logout''], ELogout),
     (''GET'', api [Lit ''me''], EMe),
     (''GET'', api [Lit ''devices''], EListDevices),
     (''GET'', api [Lit ''devices'', Param], EGetDevice),
     (''PATCH'', api [Lit ''devices'', Param, Lit ''type''], EChangeDeviceType),
     (''GET'', api [Lit ''devices'', Param, Lit ''topics''], EListDeviceTopics),
     (''GET'', api [Lit ''topics''], EListTopics),
     (''GET'', api [Lit ''messages''], EQueryMessages),
     (''POST'', api [Lit ''publish''], EPublish),
     (''GET'', api [Lit ''scheduled-publishes''], EListScheduled),
     (''POST'', api [Lit ''scheduled-publishes''], ECreateScheduled),
     (''POST'', api [Lit ''scheduled-publishes'', Param, Lit ''cancel''], ECancelScheduled),
     (''GET'', api [Lit ''quick-actions''], EListQuickActions),
     (''POST'', api [Lit ''quick-actions''], ECreateQuickAction),
     (''DELETE'', api [Lit ''quick-actions'', Param], EDeleteQuickAction),
     (''POST'', api [Lit ''quick-actions'', Param, Lit ''execute''], EExecuteQuickAction),
     (''GET'', api [Lit ''commands''], EListCommands),
     (''GET'', api [Lit ''alerts''], EListAlerts),
     (''GET'', api [Lit ''device-types''], EListDeviceTypes)]
    @ (if realtime then [(''GET'', api [Lit ''realtime''], ERealtime)] else [])
    @ [(''GET'', [Lit ''healthz''], EHealth)]"

text \<open>A parameter takes one segment of the path; the last segment of a path may not be empty.\<close>

fun match_path :: "segment list \<Rightarrow> string list \<Rightarrow> string list option" where
  "match_path [] [] = Some []"
| "match_path (Lit s # ps) (x # xs) = (if s = x then match_path ps xs else None)"
| "match_path (Param # ps) (x # xs) = (if xs = [] \<and> x = [] then None else map_option ((#) x) (match_path ps xs))"
| "match_path _ _ = None"

datatype routing = Found endpoint "string list" | MethodNotAllowed | NotFound

definition route :: "bool \<Rightarrow> http_request \<Rightarrow> routing" where
  "route realtime r =
     (let hits = filter (\<lambda>(m, pat, e). match_path pat (rq_Path r) \<noteq> None) (routes realtime) in
      case find (\<lambda>(m, pat, e). m = rq_Method r) hits of
        Some (m, pat, e) \<Rightarrow> Found e (the (match_path pat (rq_Path r)))
      | None \<Rightarrow> if hits = [] then NotFound else MethodNotAllowed)"

text \<open>A route with a parameter is found with exactly one value, so that taking the head of the values is safe.\<close>

fun_cases match_path_Some: "match_path (Lit s # ps) xs = Some vs"

lemma match_path_length: "match_path pat xs = Some vs \<Longrightarrow> length vs = length (filter (\<lambda>s. s = Param) pat)"
proof (induction pat arbitrary: xs vs)
  case Nil
  then show ?case by (cases xs) auto
next
  case (Cons p pat)
  show ?case
  proof (cases p)
    case (Lit s)
    then show ?thesis using Cons by (auto elim!: match_path_Some split: if_splits)
  next
    case Param
    then show ?thesis using Cons by (cases xs; cases "match_path pat (tl xs)") (auto split: if_splits)
  qed
qed

lemma route_params:
  assumes "route realtime r = Found e vs"
  shows "length vs = (if e \<in> {EGetDevice, EChangeDeviceType, EListDeviceTopics, ECancelScheduled, EDeleteQuickAction, EExecuteQuickAction}
    then 1 else 0)"
proof -
  obtain m pat where "(m, pat, e) \<in> set (routes realtime)" "match_path pat (rq_Path r) = Some vs"
    using assms by (auto simp: route_def Let_def find_Some_iff in_set_conv_nth split: option.splits if_splits dest!: nth_mem)
  moreover have "\<forall>(m, pat, e) \<in> set (routes realtime). length (filter (\<lambda>s. s = Param) pat)
      = (if e \<in> {EGetDevice, EChangeDeviceType, EListDeviceTopics, ECancelScheduled, EDeleteQuickAction, EExecuteQuickAction} then 1 else 0)"
    by (cases realtime) (simp_all add: routes_def api_def)
  ultimately show ?thesis using match_path_length by fastforce
qed

section \<open>Serving a request\<close>

definition requireAuth :: "'w deps \<Rightarrow> (admin_user_dto \<Rightarrow> http_request \<Rightarrow> ('w, http_response) state) \<Rightarrow> http_request \<Rightarrow>
    ('w, http_response) state" where
  "requireAuth d handler r =
     State_Monad.bind (dp_ValidateSession d (tokenFromCookie d r)) (\<lambda>res. case res of
       Inl _ \<Rightarrow> ret (writeError r unauthorized) | Inr user \<Rightarrow> handler user r)"

fun protected_handler :: "'w deps \<Rightarrow> endpoint \<Rightarrow> string list \<Rightarrow> admin_user_dto \<Rightarrow> http_request \<Rightarrow>
    ('w, http_response) state" where
  "protected_handler d ELogout _ = h_logout d"
| "protected_handler d EMe _ = h_me d"
| "protected_handler d EListDevices _ = h_listDevices d"
| "protected_handler d EGetDevice ps = h_getDevice d (hd ps)"
| "protected_handler d EChangeDeviceType ps = h_changeDeviceType d (hd ps)"
| "protected_handler d EListDeviceTopics ps = h_listDeviceTopics d (hd ps)"
| "protected_handler d EListTopics _ = h_listTopics d"
| "protected_handler d EQueryMessages _ = h_queryMessages d"
| "protected_handler d EPublish _ = h_publish d"
| "protected_handler d EListScheduled _ = h_listScheduledPublishes d"
| "protected_handler d ECreateScheduled _ = h_createScheduledPublish d"
| "protected_handler d ECancelScheduled ps = h_cancelScheduledPublish d (hd ps)"
| "protected_handler d EListQuickActions _ = h_listQuickActions d"
| "protected_handler d ECreateQuickAction _ = h_createQuickAction d"
| "protected_handler d EDeleteQuickAction ps = h_deleteQuickAction d (hd ps)"
| "protected_handler d EExecuteQuickAction ps = h_executeQuickAction d (hd ps)"
| "protected_handler d EListCommands _ = h_listCommands d"
| "protected_handler d EListAlerts _ = h_listAlerts d"
| "protected_handler d EListDeviceTypes _ = h_listDeviceTypes d"
| "protected_handler d e _ = (\<lambda>user r. case dp_Realtime d of
     None \<Rightarrow> ret \<lparr>rp_Status = 404, rp_Cookies = [], rp_Payload = Some (PPlain ''404 page not found'')\<rparr> | Some h \<Rightarrow> h r)"

definition NewRouter :: "'w deps \<Rightarrow> 'w deps" where
  "NewRouter d = (if dp_SessionCookie d = [] then d\<lparr>dp_SessionCookie := ''mqtter_session''\<rparr> else d)"

definition serve :: "'w deps \<Rightarrow> http_request \<Rightarrow> ('w, http_response) state" where
  "serve deps r =
     (let d = NewRouter deps in
      case route (dp_Realtime d \<noteq> None) r of
        NotFound \<Rightarrow> ret \<lparr>rp_Status = 404, rp_Cookies = [], rp_Payload = Some (PPlain ''404 page not found'')\<rparr>
      | MethodNotAllowed \<Rightarrow> ret \<lparr>rp_Status = 405, rp_Cookies = [], rp_Payload = None\<rparr>
      | Found ELogin _ \<Rightarrow> h_login d r
      | Found EHealth _ \<Rightarrow> ret (writeJSON 200 PHealth)
      | Found e ps \<Rightarrow> requireAuth d (protected_handler d e ps) r)"

section \<open>What a client can see\<close>

text \<open>
  The responses of the router itself: a payload with 200, nothing with 204, an error with 400 and 401, and with 500 only the
  fixed text that hides the cause.
\<close>

definition good_response :: "http_request \<Rightarrow> http_response \<Rightarrow> bool" where
  "good_response r resp \<longleftrightarrow>
     (case rp_Status resp of s \<Rightarrow>
        s = 200 \<and> (\<exists>p. rp_Payload resp = Some p \<and> (\<forall>c m i. p \<noteq> PError c m i))
      \<or> s = 204 \<and> rp_Payload resp = None
      \<or> s = 400 \<and> (\<exists>c m. rp_Payload resp = Some (PError c m (rq_RequestID r)) \<and> c \<noteq> ''unauthorized'')
      \<or> s = 401 \<and> (\<exists>m. rp_Payload resp = Some (PError ''unauthorized'' m (rq_RequestID r)))
      \<or> s = 404 \<or> s = 405
      \<or> s = 500 \<and> rp_Payload resp = Some (PError ''internal_error'' ''internal server error'' (rq_RequestID r)))"

lemma good_error: "good_response r (writeError r err)"
  by (cases "as_app_error err")
    (auto simp: good_response_def writeError_def writeJSON_def error_status_def ErrorCode_def ErrorMessage_def)

lemma good_ok: "(\<And>c m i. p \<noteq> PError c m i) \<Longrightarrow> good_response r (writeJSON 200 p)"
  by (auto simp: good_response_def writeJSON_def)

lemma good_result: "(\<And>x c m i. enc x \<noteq> PError c m i) \<Longrightarrow> good_response r (writeResult r enc res)"
  by (cases res) (auto simp: writeResult_def good_error good_ok)

lemma good_no_content: "good_response r (no_content cookies)"
  by (simp add: good_response_def no_content_def)

definition answers :: "http_request \<Rightarrow> ('w, http_response) state \<Rightarrow> bool" where
  "answers r m \<longleftrightarrow> (\<forall>w. good_response r (fst (run_state m w)))"

lemma answers_ret: "good_response r x \<Longrightarrow> answers r (ret x)"
  by (simp add: answers_def)

lemma answers_bind: "(\<And>x. answers r (k x)) \<Longrightarrow> answers r (State_Monad.bind m k)"
  by (auto simp: answers_def split: prod.split)

lemma answers_respond: "(\<And>x c m i. enc x \<noteq> PError c m i) \<Longrightarrow> answers r (respond r enc m)"
  unfolding respond_def by (intro answers_bind answers_ret good_result)

lemmas handler_defs = h_login_def h_logout_def h_me_def h_listDevices_def h_getDevice_def h_changeDeviceType_def h_listDeviceTopics_def
  h_listTopics_def h_queryMessages_def h_publish_def h_listCommands_def h_listScheduledPublishes_def h_createScheduledPublish_def
  h_cancelScheduledPublish_def h_listQuickActions_def h_createQuickAction_def h_deleteQuickAction_def h_executeQuickAction_def
  h_listAlerts_def h_listDeviceTypes_def

lemma login_cookie_good: "good_response r ((writeJSON 200 (PLogin user))\<lparr>rp_Cookies := cs\<rparr>)"
  by (simp add: good_response_def writeJSON_def)

lemma login_answers: "answers r (h_login d r)"
  unfolding h_login_def
  by (auto intro!: answers_bind answers_ret good_error login_cookie_good split: option.split sum.split)

lemma protected_answers:
  "dp_Realtime d = None \<or> e \<notin> {ELogin, EHealth, ERealtime} \<Longrightarrow> answers r (protected_handler d e ps user r)"
  by (cases e)
    (auto simp: handler_defs Let_def good_response_def
      intro!: answers_bind answers_ret answers_respond good_error good_ok good_no_content split: option.split sum.split prod.split)

text \<open>
  C27. What a client can see. Whatever the services answer, a response of the router has one of seven status codes; 200 comes with a
  result and 204 with nothing, 400 and 401 come with the code and message of a domain error under the request's id, and a failure of
  any other kind is a 500 with a fixed text, so that the cause never reaches the client. The exception is the WebSocket endpoint of the
  hub, when there is one.
\<close>

theorem response_shape:
  "rp_Status (fst (run_state (serve d r) w)) \<in> {200, 204, 400, 401, 404, 405, 500} \<and> good_response r (fst (run_state (serve d r) w))
   \<or> (\<exists>h ps. dp_Realtime d = Some h \<and> route True r = Found ERealtime ps)"
proof -
  have real: "dp_Realtime (NewRouter d) = dp_Realtime d" by (simp add: NewRouter_def)
  have auth: "answers r (requireAuth (NewRouter d) (protected_handler (NewRouter d) e ps) r)"
    if "dp_Realtime d = None \<or> e \<notin> {ELogin, EHealth, ERealtime}" for e ps
    unfolding requireAuth_def using protected_answers [of "NewRouter d" e] that
    by (intro answers_bind) (auto simp: real good_error answers_ret split: sum.split)
  have "answers r (serve d r) \<or> (\<exists>h ps. dp_Realtime d = Some h \<and> route True r = Found ERealtime ps)"
  proof (cases "route (dp_Realtime d \<noteq> None) r")
    case (Found e ps)
    show ?thesis
    proof (cases "e = ELogin \<or> e = EHealth")
      case True
      then show ?thesis using Found by (auto simp: serve_def Let_def real answers_ret good_ok login_answers)
    next
      case False
      then have "serve d r = requireAuth (NewRouter d) (protected_handler (NewRouter d) e ps) r"
        using Found by (cases e) (simp_all add: serve_def Let_def real del: protected_handler.simps)
      moreover have "dp_Realtime d = None \<or> e \<notin> {ELogin, EHealth, ERealtime} \<or> e = ERealtime \<and> dp_Realtime d \<noteq> None"
        using False by blast
      ultimately show ?thesis using auth Found by (cases "dp_Realtime d") auto
    qed
  qed (auto simp: serve_def Let_def real good_response_def intro!: answers_ret)
  then show ?thesis unfolding answers_def good_response_def by blast
qed

text \<open>A protected endpoint is served only to a valid session.\<close>

lemma serve_protected:
  assumes "route (dp_Realtime d \<noteq> None) r = Found e ps" "e \<noteq> ELogin" "e \<noteq> EHealth" "dp_SessionCookie d \<noteq> []"
  shows "serve d r = requireAuth d (protected_handler d e ps) r"
  using assms by (cases e) (simp_all add: serve_def NewRouter_def)

end
