(* ===== verification/Config.thy ===== *)
theory Config
  imports GoParse
begin

text \<open>
  The settings (\<open>internal/config/config.go\<close>), read from the environment. \<open>env\<close> is \<open>os.Getenv\<close>: the empty string for a variable that is not
  set.
\<close>

record app_config =
  cfg_DatabaseURL :: string
  cfg_HTTPAddr :: string
  cfg_MQTTAddr :: string
  cfg_BrokerStorePath :: string
  cfg_IngestTimeout :: int
  cfg_SchedulerInterval :: int
  cfg_MaxPayloadBytes :: int
  cfg_SessionCookieName :: string
  cfg_SessionTTL :: int
  cfg_BootstrapUsername :: string
  cfg_BootstrapPassword :: string

definition getenv :: "(string \<Rightarrow> string) \<Rightarrow> string \<Rightarrow> string \<Rightarrow> string" where
  "getenv env key fallback = (if env key \<noteq> [] then env key else fallback)"

definition intEnv :: "(string \<Rightarrow> string) \<Rightarrow> string \<Rightarrow> int \<Rightarrow> int" where
  "intEnv env key fallback =
     (if env key = [] then fallback else (case Atoi (env key) of None \<Rightarrow> fallback | Some parsed \<Rightarrow> parsed))"

definition durationEnv :: "(string \<Rightarrow> string) \<Rightarrow> string \<Rightarrow> int \<Rightarrow> int" where
  "durationEnv env key fallback =
     (if env key = [] then fallback else (case ParseDuration (env key) of None \<Rightarrow> fallback | Some parsed \<Rightarrow> parsed))"

definition LoadFromEnv :: "(string \<Rightarrow> string) \<Rightarrow> app_config" where
  "LoadFromEnv env = \<lparr>
     cfg_DatabaseURL = getenv env ''MQTTER_DATABASE_URL'' [],
     cfg_HTTPAddr = getenv env ''MQTTER_HTTP_ADDR'' '':8080'',
     cfg_MQTTAddr = getenv env ''MQTTER_MQTT_ADDR'' '':1883'',
     cfg_BrokerStorePath = getenv env ''MQTTER_BROKER_STORE_PATH'' ''data/broker-pebble'',
     cfg_IngestTimeout = durationEnv env ''MQTTER_INGEST_TIMEOUT'' (2 * second),
     cfg_SchedulerInterval = durationEnv env ''MQTTER_SCHEDULER_INTERVAL'' (10 * second),
     cfg_MaxPayloadBytes = intEnv env ''MQTTER_MAX_PAYLOAD_BYTES'' (256 * 1024),
     cfg_SessionCookieName = getenv env ''MQTTER_SESSION_COOKIE'' ''mqtter_session'',
     cfg_SessionTTL = durationEnv env ''MQTTER_SESSION_TTL'' (24 * hour),
     cfg_BootstrapUsername = getenv env ''MQTTER_BOOTSTRAP_ADMIN_USERNAME'' [],
     cfg_BootstrapPassword = getenv env ''MQTTER_BOOTSTRAP_ADMIN_PASSWORD'' []\<rparr>"

text \<open>The names of the cookie and the addresses are never empty, and a number that was set is the one that is used.\<close>

lemma config_names: "cfg_SessionCookieName (LoadFromEnv env) \<noteq> []" "cfg_HTTPAddr (LoadFromEnv env) \<noteq> []"
    "cfg_MQTTAddr (LoadFromEnv env) \<noteq> []" "cfg_BrokerStorePath (LoadFromEnv env) \<noteq> []"
  by (simp_all add: LoadFromEnv_def getenv_def)

lemma intEnv_set: "int64 n \<Longrightarrow> env key = Itoa n \<Longrightarrow> intEnv env key fallback = n"
  by (simp add: intEnv_def Atoi_Itoa)

text \<open>
  Durations in the environment. A variable set to a whole number of nanoseconds, microseconds, milliseconds, seconds, minutes or hours that
  fits 64 bits yields exactly that duration, whatever the fallback.
\<close>

theorem duration_setting_exact:
  assumes "env key = Itoa n @ u" "unit_of u = Some unit" "0 \<le> n" "n * unit \<le> 9223372036854775807"
  shows "durationEnv env key fallback = n * unit"
proof -
  have "env key \<noteq> []" using assms(1) by simp
  then show ?thesis using ParseDuration_whole [OF assms(2-4)] assms(1) by (simp add: durationEnv_def)
qed

theorem duration_setting_exact_witness:
  "durationEnv (\<lambda>_. Itoa 12 @ ''h'') ''MQTTER_SESSION_TTL'' (24 * hour) = 12 * hour"
proof (rule duration_setting_exact)
  show "unit_of ''h'' = Some hour" by code_simp
qed (simp_all add: duration_defs)

end
