(* ===== verification/App.thy ===== *)
theory App
  imports Api Config
begin

text \<open>
  The application (\<open>internal/app/app.go\<close>, \<open>internal/broker/server.go\<close>, \<open>cmd/mqtter\<close>): which service gets which repository and
  setting, the order of start-up and shutdown, and the properties of the whole: what a request does to the database.
\<close>

section \<open>Wiring\<close>

text \<open>
  What the application takes from outside the repository: the password hasher, the time-zone database, PostgreSQL's pattern match and sort order,
  and the WebSocket endpoint of the hub.
\<close>

record externals =
  ex_hasher :: "world password_hasher"
  ex_tzdb :: "string \<Rightarrow> location option"
  ex_ilike :: "string \<Rightarrow> string \<Rightarrow> bool"
  ex_collate :: "string \<Rightarrow> string"
  ex_realtime :: "(http_request \<Rightarrow> (world, http_response) state) option"

definition app_deps :: "externals \<Rightarrow> app_config \<Rightarrow> world deps" where
  "app_deps ex cfg =
     (let auth = app_auth_service (ex_hasher ex) (cfg_SessionTTL cfg);
          deviceSvc = app_device_service (ex_ilike ex) (ex_collate ex);
          messageSvc = app_message_service;
          publishSvc = app_publish_service (ex_ilike ex) (cfg_IngestTimeout cfg) (cfg_MaxPayloadBytes cfg);
          scheduledSvc = app_scheduled_service (ex_ilike ex) (cfg_IngestTimeout cfg) (cfg_MaxPayloadBytes cfg);
          quickActionSvc = app_quick_action_service (ex_ilike ex) (cfg_IngestTimeout cfg) (cfg_MaxPayloadBytes cfg)
      in \<lparr>dp_Login = Login auth, dp_Logout = Logout auth, dp_ValidateSession = ValidateSession auth,
          dp_ListDevices = DeviceService_ListDevices deviceSvc, dp_GetDevice = DeviceService_GetDevice deviceSvc,
          dp_ChangeDeviceType = DeviceService_ChangeDeviceType deviceSvc, dp_ListDeviceTypes = DeviceService_ListDeviceTypes deviceSvc,
          dp_ListDeviceTopics = DeviceService_ListDeviceTopics deviceSvc, dp_ListTopics = DeviceService_ListTopics deviceSvc,
          dp_QueryMessages = MessageService_QueryMessages messageSvc,
          dp_Publish = PublishService_Publish publishSvc, dp_ListPublishCommands = PublishService_ListPublishCommands publishSvc,
          dp_CreateScheduledPublish = CreateScheduledPublish (ex_tzdb ex) scheduledSvc,
          dp_ListScheduledPublishes = ListScheduledPublishes scheduledSvc, dp_CancelScheduledPublish = CancelScheduledPublish scheduledSvc,
          dp_CreateQuickAction = QuickActionService_Create quickActionSvc, dp_ListQuickActions = QuickActionService_List quickActionSvc,
          dp_DeleteQuickAction = QuickActionService_Delete quickActionSvc, dp_ExecuteQuickAction = ExecuteQuickAction quickActionSvc,
          dp_ListAlerts = AlertService_ListAlerts app_alert_service, dp_Realtime = ex_realtime ex,
          dp_SessionCookie = cfg_SessionCookieName cfg\<rparr>)"

definition app_scheduler :: "externals \<Rightarrow> app_config \<Rightarrow> world scheduled_publish_scheduler" where
  "app_scheduler ex cfg = NewScheduledPublishScheduler
     (app_scheduled_service (ex_ilike ex) (cfg_IngestTimeout cfg) (cfg_MaxPayloadBytes cfg)) (cfg_SchedulerInterval cfg)"

definition app_serve :: "externals \<Rightarrow> app_config \<Rightarrow> http_request \<Rightarrow> (world, http_response) state" where
  "app_serve ex cfg = serve (app_deps ex cfg)"

section \<open>Start-up and shutdown\<close>

text \<open>
  The resources the process holds, and what the environment answers to the calls that open them. The migrations are a parameter here: \<open>Migrations\<close>
  shows what they do to a database that has no tables yet.
\<close>

record process =
  pr_world :: world
  pr_store :: bool
  pr_mqtt :: bool
  pr_http :: bool
  pr_scheduler :: bool

record environment =
  en_capabilities :: broker_caps
  en_connect :: "string \<Rightarrow> go_error option"
  en_migrate :: "(world, unit) eio"
  en_mkdir :: "string \<Rightarrow> go_error option"
  en_pebble :: "string \<Rightarrow> go_error option"
  en_hook :: "go_error option"
  en_listen :: "string \<Rightarrow> go_error option"
  en_serve :: "go_error option"

definition on_world :: "(world, 'a) state \<Rightarrow> (process, 'a) state" where
  "on_world m = State (\<lambda>p. case run_state m (pr_world p) of (x, w) \<Rightarrow> (x, p\<lparr>pr_world := w\<rparr>))"

definition set_process :: "(process \<Rightarrow> process) \<Rightarrow> (process, unit) state" where
  "set_process f = State (\<lambda>p. ((), f p))"

definition answer :: "go_error option \<Rightarrow> ('w, unit) eio" where
  "answer e = check (case e of None \<Rightarrow> Inr () | Some err \<Rightarrow> Inl err)"

text \<open>\<open>m\<close>, and the store closed when it fails.\<close>

definition or_close_store :: "(process, 'a) eio \<Rightarrow> (process, 'a) eio" where
  "or_close_store m = State_Monad.bind m (\<lambda>r. case r of
     Inl err \<Rightarrow> State_Monad.bind (set_process (\<lambda>p. p\<lparr>pr_store := False\<rparr>)) (\<lambda>_. fail err) | Inr x \<Rightarrow> ok x)"

definition store_New :: "environment \<Rightarrow> string \<Rightarrow> (process, unit) eio" where
  "store_New env databaseURL =
     (if TrimSpace databaseURL = [] then fail (ForeignError ''database url is required'')
      else ebind (answer (en_connect env databaseURL)) (\<lambda>_. lift (set_process (\<lambda>p. p\<lparr>pr_store := True\<rparr>))))"

record mqtt_server =
  sv_Capabilities :: broker_caps
  sv_Hook :: hook

definition NewServer :: "environment \<Rightarrow> broker_config \<Rightarrow> broker_ingestor \<Rightarrow> (process, mqtt_server) eio" where
  "NewServer env cfg ingestor =
     (let cfg = server_defaults cfg in
      ebind (answer (en_mkdir env (bc_StorePath cfg))) (\<lambda>_.
      ebind (answer (en_pebble env (bc_StorePath cfg))) (\<lambda>_.
      State_Monad.bind (on_world (NewHook clock_now new_id ingestor None None)) (\<lambda>h.
      ebind (answer (en_hook env)) (\<lambda>_.
      ebind (answer (en_listen env (bc_MQTTAddr cfg))) (\<lambda>_.
      ok \<lparr>sv_Capabilities = server_caps (en_capabilities env) cfg, sv_Hook = h\<rparr>))))))"

definition broker_config_of :: "app_config \<Rightarrow> broker_config" where
  "broker_config_of cfg = \<lparr>bc_MQTTAddr = cfg_MQTTAddr cfg, bc_StorePath = cfg_BrokerStorePath cfg,
     bc_MaxPayloadBytes = cfg_MaxPayloadBytes cfg, bc_MaxClients = 0\<rparr>"

record application =
  ap_broker :: mqtt_server
  ap_deps :: "world deps"
  ap_ingestor :: "world ingestor"
  ap_scheduler :: "world scheduled_publish_scheduler"

definition New :: "externals \<Rightarrow> environment \<Rightarrow> app_config \<Rightarrow> (process, application) eio" where
  "New ex env cfg =
     ebind (store_New env (cfg_DatabaseURL cfg)) (\<lambda>_.
     ebind (or_close_store (on_world (en_migrate env))) (\<lambda>_.
     State_Monad.bind (on_world (State (\<lambda>w. ((), w\<lparr>w_hub := NewHub 128\<rparr>)))) (\<lambda>_.
     ebind (or_close_store (on_world (AuthService_BootstrapAdmin (app_auth_service (ex_hasher ex) (cfg_SessionTTL cfg))
              (cfg_BootstrapUsername cfg) (cfg_BootstrapPassword cfg)))) (\<lambda>_.
     ebind (or_close_store (NewServer env (broker_config_of cfg)
              (app_broker_ingestor (cfg_IngestTimeout cfg) (cfg_MaxPayloadBytes cfg)))) (\<lambda>b.
     ok \<lparr>ap_broker = b, ap_deps = app_deps ex cfg, ap_ingestor = app_ingestor (cfg_IngestTimeout cfg) (cfg_MaxPayloadBytes cfg),
         ap_scheduler = app_scheduler ex cfg\<rparr>)))))"

text \<open>
  \<open>Run\<close>: \<open>stop\<close> is what its \<open>select\<close> sees first: the context done, or the end of \<open>ListenAndServe\<close> with its error (\<open>ErrServerClosed\<close> is
  no error). What the requests, the broker's clients and the scheduler do meanwhile is \<open>serving\<close>; it changes the world only.
\<close>

datatype stop_reason = ContextDone | HTTPStopped "go_error option"

definition server_closed :: go_error where
  "server_closed = ForeignError ''http: Server closed''"

definition close_all :: "(process, unit) state" where
  "close_all = set_process (\<lambda>p. p\<lparr>pr_store := False, pr_mqtt := False, pr_http := False\<rparr>)"

definition Run :: "environment \<Rightarrow> application \<Rightarrow> (world, unit) state \<Rightarrow> stop_reason \<Rightarrow> (process, unit) eio" where
  "Run env a serving stop =
     ebind (on_world (Ingestor_MarkStaleOnline (ap_ingestor a))) (\<lambda>_.
     ebind (or_close_store (answer (en_serve env))) (\<lambda>_.
     State_Monad.bind (set_process (\<lambda>p. p\<lparr>pr_mqtt := True, pr_scheduler := True, pr_http := True\<rparr>)) (\<lambda>_.
     State_Monad.bind (on_world serving) (\<lambda>_.
     State_Monad.bind close_all (\<lambda>_.
     case stop of
       ContextDone \<Rightarrow> State_Monad.bind (set_process (\<lambda>p. p\<lparr>pr_scheduler := False\<rparr>)) (\<lambda>_. ok ())
     | HTTPStopped None \<Rightarrow> ok ()
     | HTTPStopped (Some err) \<Rightarrow> if err = server_closed then ok () else fail err)))))"

text \<open>\<open>main\<close>: the exit code.\<close>

definition main_exit :: "externals \<Rightarrow> environment \<Rightarrow> app_config \<Rightarrow> (world, unit) state \<Rightarrow> stop_reason \<Rightarrow> (process, nat) state" where
  "main_exit ex env cfg serving stop =
     State_Monad.bind (ebind (New ex env cfg) (\<lambda>a. Run env a serving stop)) (\<lambda>r. ret (case r of Inl _ \<Rightarrow> 1 | Inr _ \<Rightarrow> 0))"

text \<open>
  \<open>mqtter-migrate\<close>: connect, migrate, make the partition of the current month. \<open>os.Exit\<close> does not run the deferred \<open>Close\<close>.
\<close>

definition migrate_main :: "environment \<Rightarrow> app_config \<Rightarrow> (process, nat) state" where
  "migrate_main env cfg =
     State_Monad.bind
       (ebind (store_New env (cfg_DatabaseURL cfg)) (\<lambda>_.
        ebind (on_world (en_migrate env)) (\<lambda>_.
        ebind (on_world (State_Monad.bind clock_now EnsureMessagePartition)) (\<lambda>_.
        lift (set_process (\<lambda>p. p\<lparr>pr_store := False\<rparr>))))))
       (\<lambda>r. ret (case r of Inl _ \<Rightarrow> 1 | Inr _ \<Rightarrow> 0))"

section \<open>Requests to the application\<close>

lemma app_deps_simps [simp]:
  "dp_Login (app_deps ex cfg) = Login (app_auth_service (ex_hasher ex) (cfg_SessionTTL cfg))"
  "dp_Logout (app_deps ex cfg) = Logout (app_auth_service (ex_hasher ex) (cfg_SessionTTL cfg))"
  "dp_ValidateSession (app_deps ex cfg) = ValidateSession (app_auth_service (ex_hasher ex) (cfg_SessionTTL cfg))"
  "dp_Publish (app_deps ex cfg) = PublishService_Publish (app_publish_service (ex_ilike ex) (cfg_IngestTimeout cfg) (cfg_MaxPayloadBytes cfg))"
  "dp_Realtime (app_deps ex cfg) = ex_realtime ex"
  by (simp_all add: app_deps_def Let_def)

lemma NewRouter_simps [simp]:
  "dp_Login (NewRouter d) = dp_Login d" "dp_Logout (NewRouter d) = dp_Logout d" "dp_ValidateSession (NewRouter d) = dp_ValidateSession d"
  "dp_Publish (NewRouter d) = dp_Publish d" "dp_Realtime (NewRouter d) = dp_Realtime d"
  by (simp_all add: NewRouter_def)

text \<open>The token a request carries to the application.\<close>

definition app_token :: "externals \<Rightarrow> app_config \<Rightarrow> http_request \<Rightarrow> string" where
  "app_token ex cfg r = tokenFromCookie (NewRouter (app_deps ex cfg)) r"

definition app_route :: "externals \<Rightarrow> http_request \<Rightarrow> routing" where
  "app_route ex r = route (ex_realtime ex \<noteq> None) r"

lemma app_serve_cases:
  assumes "run_state (app_serve ex cfg r) w = (resp, w')"
  obtains (unrouted) "app_route ex r = NotFound \<or> app_route ex r = MethodNotAllowed" "rp_Status resp = 404 \<or> rp_Status resp = 405" "w' = w"
  | (health) ps where "app_route ex r = Found EHealth ps" "resp = writeJSON 200 PHealth" "w' = w"
  | (login) ps where "app_route ex r = Found ELogin ps" "run_state (h_login (NewRouter (app_deps ex cfg)) r) w = (resp, w')"
  | (refused) e ps err where "app_route ex r = Found e ps" "e \<noteq> ELogin" "resp = writeError r unauthorized"
      "run_state (ValidateSession (app_auth_service (ex_hasher ex) (cfg_SessionTTL cfg)) (app_token ex cfg r)) w = (Inl err, w')"
  | (granted) e ps user w1 where "app_route ex r = Found e ps" "e \<noteq> ELogin" "e \<noteq> EHealth"
      "run_state (ValidateSession (app_auth_service (ex_hasher ex) (cfg_SessionTTL cfg)) (app_token ex cfg r)) w = (Inr user, w1)"
      "run_state (protected_handler (NewRouter (app_deps ex cfg)) e ps user r) w1 = (resp, w')"
proof (cases "app_route ex r")
  case (Found e ps)
  show ?thesis
  proof (cases "e = ELogin \<or> e = EHealth")
    case True
    then show ?thesis using assms Found health login by (auto simp: app_serve_def serve_def app_route_def)
  next
    case False
    have auth: "run_state (requireAuth (NewRouter (app_deps ex cfg)) (protected_handler (NewRouter (app_deps ex cfg)) e ps) r) w = (resp, w')"
      using assms Found False
      by (cases e) (simp_all add: app_serve_def serve_def app_route_def Let_def del: protected_handler.simps)
    obtain v w1 where v: "run_state (ValidateSession (app_auth_service (ex_hasher ex) (cfg_SessionTTL cfg)) (app_token ex cfg r)) w = (v, w1)"
      by (cases "run_state (ValidateSession (app_auth_service (ex_hasher ex) (cfg_SessionTTL cfg)) (app_token ex cfg r)) w")
    show ?thesis
    proof (cases v)
      case (Inl err)
      then show ?thesis using auth v Found False by (intro refused) (auto simp: requireAuth_def app_token_def)
    next
      case (Inr user)
      then show ?thesis using auth v Found False by (intro granted) (auto simp: requireAuth_def app_token_def)
    qed
  qed
qed (use assms unrouted in \<open>auto simp: app_serve_def serve_def app_route_def\<close>)

lemma validate_reads: "leaves (\<lambda>w. (w_db w, w_sent w, w_hub w)) (ValidateSession (app_auth_service h ttl) token)"
proof -
  have "leaves (\<lambda>w. (w_db w, w_sent w, w_hub w)) (FindSession token now)" "leaves (\<lambda>w. (w_db w, w_sent w, w_hub w)) (GetAdminByID i)" for now i
    by (auto simp: state_io_rel_def FindSession_def GetAdminByID_def exec_pool_def Let_def split: option.splits sum.splits)
  then show ?thesis
    unfolding ValidateSession_def app_auth_service_simps store_auth_def auth_repository.simps
    by (intro io_rules preorder_frame clock_leaves) simp_all
qed

text \<open>
  C7. No access without a session. A request that is not a login and carries no token of an unexpired session changes neither the
  database nor the messages sent nor the hub, whatever its method, path and body, and is answered with 401, 404 or 405;
  only the health check is answered with 200.
\<close>

theorem no_access_without_session:
  assumes "run_state (app_serve ex cfg r) w = (resp, w')" "\<And>ps. app_route ex r \<noteq> Found ELogin ps"
    and "\<forall>s \<in> sessions_view w. ses_Token s = app_token ex cfg r \<longrightarrow> ses_ExpiresAt s \<le> w_clock w (w_ticks w)"
  shows "w_db w' = w_db w \<and> w_sent w' = w_sent w \<and> w_hub w' = w_hub w
    \<and> (rp_Status resp \<in> {401, 404, 405} \<or> rp_Status resp = 200 \<and> rp_Payload resp = Some PHealth)"
  using assms(1)
proof (cases rule: app_serve_cases)
  case (refused e ps err)
  then show ?thesis
    using leavesD [OF validate_reads refused(4)]
    by (simp add: writeError_def writeJSON_def error_status_def unauthorized_def)
next
  case (granted e ps user w1)
  from granted(4) show ?thesis by (rule authn.validate_run) (use assms(3) in auto)
qed (use assms(2) in \<open>auto simp: writeJSON_def\<close>)



section \<open>Resources\<close>

lemma on_world_parts [simp]:
  "pr_store (snd (run_state (on_world m) p)) = pr_store p" "pr_mqtt (snd (run_state (on_world m) p)) = pr_mqtt p"
  "pr_http (snd (run_state (on_world m) p)) = pr_http p" "pr_scheduler (snd (run_state (on_world m) p)) = pr_scheduler p"
  by (simp_all add: on_world_def split: prod.split)

lemma on_world_store: "run_state (on_world m) p = (x, p') \<Longrightarrow> pr_store p' = pr_store p"
  by (metis on_world_parts(1) snd_conv)

lemma on_world_run: "run_state m (pr_world p) = (x, w) \<Longrightarrow> run_state (on_world m) p = (x, p\<lparr>pr_world := w\<rparr>)"
  by (simp add: on_world_def)

lemma run_set_process [simp]: "run_state (set_process f) p = ((), f p)"
  by (simp add: set_process_def)

lemma run_answer [simp]: "run_state (answer e) p = (case e of None \<Rightarrow> Inr () | Some err \<Rightarrow> Inl err, p)"
  by (simp add: answer_def)

text \<open>The step leaves the pool open exactly when it succeeds.\<close>

definition opens :: "(process, 'a) eio \<Rightarrow> process \<Rightarrow> bool" where
  "opens m p = (case run_state m p of (r, q) \<Rightarrow> pr_store q = (\<exists>x. r = Inr x))"

lemma opens_ebind:
  assumes "opens m p" "\<And>x q. pr_store q \<Longrightarrow> opens (k x) q"
  shows "opens (ebind m k) p"
  using assms by (cases "run_state m p"; cases "fst (run_state m p)") (auto simp: opens_def)

lemma opens_bind: "pr_store p \<Longrightarrow> (\<And>x q. pr_store q \<Longrightarrow> opens (k x) q) \<Longrightarrow> opens (State_Monad.bind (on_world m) k) p"
  by (cases "run_state m (pr_world p)") (fastforce simp: opens_def on_world_def)

lemma opens_ok: "pr_store p \<Longrightarrow> opens (ok x) p"
  by (simp add: opens_def)

lemma opens_or_close:
  assumes "pr_store p" "\<And>x q. run_state m p = (x, q) \<Longrightarrow> pr_store q = pr_store p"
  shows "opens (or_close_store m) p"
  using assms by (cases "run_state m p"; cases "fst (run_state m p)") (auto simp: opens_def or_close_store_def)

lemma opens_store_New: "\<not> pr_store p \<Longrightarrow> opens (store_New env url) p"
  by (auto simp: opens_def store_New_def split: option.splits)

lemma NewServer_store: "run_state (NewServer env cfg ing) p = (r, p') \<Longrightarrow> pr_store p' = pr_store p"
  by (auto simp: NewServer_def Let_def split: option.splits sum.splits prod.splits dest!: on_world_store)

lemma New_store:
  assumes "run_state (New ex env cfg) p = (r, p')" "\<not> pr_store p"
  shows "pr_store p' \<longleftrightarrow> (\<exists>a. r = Inr a)"
proof -
  have "opens (New ex env cfg) p"
    unfolding New_def
    by (rule opens_ebind opens_bind opens_ok opens_or_close opens_store_New assms(2) | assumption | erule on_world_store | erule NewServer_store)+
  then show ?thesis using assms(1) by (simp add: opens_def)
qed

lemma Run_store:
  fixes env a serving stop p
  defines "p2 \<equiv> snd (run_state (Run env a serving stop) p)"
  assumes "pr_store p"
  shows "pr_store p2 = (\<exists>e. fst (run_state (Ingestor_MarkStaleOnline (ap_ingestor a)) (pr_world p)) = Inl e)
    \<and> (\<not> pr_store p2 \<longrightarrow> (\<exists>e. en_serve env = Some e) \<or> \<not> pr_mqtt p2 \<and> \<not> pr_http p2)"
proof -
  obtain m w where m: "run_state (Ingestor_MarkStaleOnline (ap_ingestor a)) (pr_world p) = (m, w)"
    by (cases "run_state (Ingestor_MarkStaleOnline (ap_ingestor a)) (pr_world p)")
  obtain u w2 where s: "run_state serving w = (u, w2)" by (cases "run_state serving w")
  note marked = on_world_run [OF m]
  show ?thesis
  proof (cases m)
    case (Inl e)
    then show ?thesis unfolding p2_def Run_def run_ebind marked using m assms(2) by simp
  next
    case (Inr x)
    show ?thesis
    proof (cases "en_serve env")
      case None
      show ?thesis
        unfolding p2_def Run_def run_ebind marked Inr m
        using None assms(2) s
        by (simp add: or_close_store_def close_all_def on_world_def split: stop_reason.split option.split)
    next
      case (Some e)
      then show ?thesis
        unfolding p2_def Run_def run_ebind marked Inr m using assms(2) by (simp add: or_close_store_def)
    qed
  qed
qed

text \<open>
  C28. The database pool is released. A start-up that fails has closed the pool, and a run that ends, for whatever reason, has closed it, the
  broker and the HTTP server, with one exception: when marking the stale devices fails at the start of the run, the pool stays open.
\<close>

theorem store_released:
  assumes "run_state (New ex env cfg) p = (r, p1)" "\<not> pr_store p" "\<not> pr_mqtt p" "\<not> pr_http p"
  shows "case r of
      Inl e \<Rightarrow> \<not> pr_store p1
    | Inr a \<Rightarrow> \<forall>serving stop. let p2 = snd (run_state (Run env a serving stop) p1) in
        pr_store p2 = (\<exists>e. fst (run_state (Ingestor_MarkStaleOnline (ap_ingestor a)) (pr_world p1)) = Inl e)
        \<and> (\<not> pr_store p2 \<longrightarrow> (\<exists>e. en_serve env = Some e) \<or> \<not> pr_mqtt p2 \<and> \<not> pr_http p2)"
proof (cases r)
  case (Inl e)
  then show ?thesis using New_store [OF assms(1,2)] by simp
next
  case (Inr a)
  then have p1: "pr_store p1" using New_store [OF assms(1,2)] by simp
  show ?thesis unfolding Inr sum.case Let_def using Run_store [OF p1] by blast
qed

section \<open>Requests at concrete values\<close>

definition house :: externals where
  "house = \<lparr>ex_hasher = plain_hasher, ex_tzdb = (\<lambda>_. None), ex_ilike = (\<lambda>_ _. True), ex_collate = (\<lambda>x. x),
     ex_realtime = None\<rparr>"

definition house_config :: app_config where
  "house_config = \<lparr>cfg_DatabaseURL = ''db'', cfg_HTTPAddr = '':8080'', cfg_MQTTAddr = '':1883'', cfg_BrokerStorePath = ''p'',
     cfg_IngestTimeout = 1000, cfg_SchedulerInterval = 1000, cfg_MaxPayloadBytes = 100, cfg_SessionCookieName = ''s'',
     cfg_SessionTTL = 60 * second, cfg_BootstrapUsername = [], cfg_BootstrapPassword = []\<rparr>"

definition asked :: "string \<Rightarrow> string list \<Rightarrow> string option \<Rightarrow> json option \<Rightarrow> http_request" where
  "asked method path token body = \<lparr>rq_Method = method, rq_Path = ''api'' # path, rq_Query = (\<lambda>_. []),
     rq_Cookie = (\<lambda>n. if n = ''s'' then token else None), rq_Body = body, rq_RequestID = ''r''\<rparr>"

abbreviation me_request :: "string option \<Rightarrow> http_request" where
  "me_request token \<equiv> asked ''GET'' [''me''] token None"

definition login_request :: http_request where
  "login_request = asked ''POST'' [''auth'', ''login''] None (Some (JObject [(''username'', JString ''admin''), (''password'', JString ''p'')]))"

definition publish_request :: http_request where
  "publish_request = asked ''POST'' [''publish''] (Some ''n0'')
     (Some (JObject [(''topic'', JString ''t''), (''payload'', JString ''m''), (''qos'', JNumber 1)]))"

lemma asked_routes:
  "app_route house (me_request token) = Found EMe []" "app_route house login_request = Found ELogin []"
  "app_route house publish_request = Found EPublish []"
  by (simp_all add: app_route_def house_def asked_def login_request_def publish_request_def route_def routes_def api_def Let_def)

lemma house_simps [simp]:
  "dp_SessionCookie (NewRouter (app_deps house house_config)) = ''s''" "ex_hasher house = plain_hasher"
  "cfg_SessionTTL house_config = 60 * second" "ex_realtime house = None" "ex_ilike house = (\<lambda>_ _. True)"
  "cfg_IngestTimeout house_config = 1000" "cfg_MaxPayloadBytes house_config = 100"
  by (simp_all add: NewRouter_def app_deps_def house_def house_config_def Let_def)

lemma decoded:
  "decode_login (rq_Body login_request) = Some (''admin'', ''p'')"
  "decode_publish (rq_Body publish_request) = Some \<lparr>mr_Topic = ''t'', mr_Payload = ''m'', mr_PayloadEncoding = [], mr_QoS = 1, mr_Retain = False\<rparr>"
  by code_simp+

theorem no_access_without_session_witness:
  "\<exists>resp w'. run_state (app_serve house house_config (me_request None)) login_world = (resp, w') \<and> w_db w' = w_db login_world
     \<and> rp_Status resp \<in> {401, 404, 405}"
proof -
  obtain resp w' where run: "run_state (app_serve house house_config (me_request None)) login_world = (resp, w')"
    by (cases "run_state (app_serve house house_config (me_request None)) login_world")
  have "\<forall>s \<in> sessions_view login_world. ses_Token s = app_token house house_config (me_request None)
      \<longrightarrow> ses_ExpiresAt s \<le> w_clock login_world (w_ticks login_world)" by (simp add: logged_in_facts)
  from no_access_without_session [OF run _ this] have "w_db w' = w_db login_world"
    "rp_Status resp \<in> {401, 404, 405} \<or> rp_Payload resp = Some PHealth" by (auto simp: asked_routes)
  moreover have "rp_Payload resp \<noteq> Some PHealth"
    using run by (cases rule: app_serve_cases) (auto simp: asked_routes writeError_def writeJSON_def h_me_def)
  ultimately show ?thesis using run by blast
qed


lemma validated_world:
  obtains w where "run_state (ValidateSession login_service ''n0'') logged_in = (Inr \<lparr>au_ID = ''u1'', au_Username = ''admin'', au_Role = ''admin''\<rparr>, w)"
    "answering w" "w_ids w (w_idn w) \<notin> c_id ` set (db_commands (w_db w))"
proof -
  have "answering (snd (run_state (ValidateSession login_service ''n0'') logged_in))"
    "db_commands (w_db (snd (run_state (ValidateSession login_service ''n0'') logged_in))) = []"
    by (simp_all add: logged_in_def login_defs ValidateSession_def FindSession_def GetAdminByID_def answering_def)
  then show ?thesis
    using that token_accepted by (metis empty_iff image_empty list.set(1) snd_conv)
qed


text \<open>An environment in which the directory of the broker cannot be made.\<close>

definition full_disk :: environment where
  "full_disk = \<lparr>en_capabilities = \<lparr>cap_MaximumQos = 2, cap_MaximumPacketSize = 0, cap_MaximumClients = 0\<rparr>, en_connect = (\<lambda>_. None), en_migrate = ok (), en_mkdir = (\<lambda>_. Some (ForeignError ''no space'')), en_pebble = (\<lambda>_. None),
     en_hook = None, en_listen = (\<lambda>_. None), en_serve = None\<rparr>"

definition not_started :: process where
  "not_started = \<lparr>pr_world = login_world, pr_store = False, pr_mqtt = False, pr_http = False, pr_scheduler = False\<rparr>"

theorem store_released_witness:
  "\<exists>e p. run_state (New house full_disk house_config) not_started = (Inl e, p) \<and> \<not> pr_store p"
proof -
  have trim: "TrimSpace ''db'' = ''db''" "TrimSpace [] = []" by code_simp+
  have "\<exists>e. fst (run_state (New house full_disk house_config) not_started) = Inl e"
    by (simp add: New_def store_New_def full_disk_def house_config_def not_started_def trim or_close_store_def on_world_def
        AuthService_BootstrapAdmin_def NewServer_def server_defaults_def broker_config_of_def)
  then obtain e p where run: "run_state (New house full_disk house_config) not_started = (Inl e, p)"
    by (metis prod.collapse)
  show ?thesis using store_released [OF run] run by (simp add: not_started_def)
qed

end
