(* ===== verification/Migrations.thy ===== *)
theory Migrations
  imports AppError "HOL-Library.List_Lexorder" "HOL-Library.Char_ord"
begin

text \<open>
  Schema migrations (\<open>internal/storage/postgres/migrations.go\<close>). What a script does to the schema and the data is
  PostgreSQL's business: \<open>run_sql\<close> maps the text of a script to a function on databases that may fail. The program's part is
  which scripts run, in which order, in which transactions, and what it records.
\<close>

section \<open>The database during a migration\<close>

text \<open>
  The versions recorded in \<open>schema_migrations\<close> (none when the table does not exist) beside the rest of the
  database, the open transaction, and the fate of every statement.
\<close>

type_synonym 'd versioned = "string list option \<times> 'd"

record 'd migration_world =
  g_db :: "'d versioned"
  g_tx :: "'d versioned option"
  g_fate :: "nat \<Rightarrow> go_error option"
  g_stmts :: nat

definition g_exec :: "('d versioned \<Rightarrow> ('a \<times> 'd versioned) result) \<Rightarrow> ('d migration_world, 'a) eio" where
  "g_exec f = State (\<lambda>w.
     let n = g_stmts w; w1 = w\<lparr>g_stmts := Suc n\<rparr> in
     case g_fate w n of Some e \<Rightarrow> (Inl e, w1) | None \<Rightarrow>
       (case f (g_db w) of Inl e \<Rightarrow> (Inl e, w1) | Inr (x, d) \<Rightarrow> (Inr x, w1\<lparr>g_db := d\<rparr>)))"

definition g_begin :: "('d migration_world, unit) eio" where
  "g_begin = State (\<lambda>w.
     let n = g_stmts w; w1 = w\<lparr>g_stmts := Suc n\<rparr> in
     case g_fate w n of Some e \<Rightarrow> (Inl e, w1) | None \<Rightarrow> (Inr (), w1\<lparr>g_tx := Some (g_db w)\<rparr>))"

definition g_exec_tx :: "('d versioned \<Rightarrow> ('a \<times> 'd versioned) result) \<Rightarrow> ('d migration_world, 'a) eio" where
  "g_exec_tx f = State (\<lambda>w.
     let n = g_stmts w; w1 = w\<lparr>g_stmts := Suc n\<rparr> in
     case g_tx w of None \<Rightarrow> (Inl (ForeignError ''tx is closed''), w) | Some t \<Rightarrow>
       (case g_fate w n of Some e \<Rightarrow> (Inl e, w1) | None \<Rightarrow>
         (case f t of Inl e \<Rightarrow> (Inl e, w1) | Inr (x, d) \<Rightarrow> (Inr x, w1\<lparr>g_tx := Some d\<rparr>))))"

definition g_commit :: "('d migration_world, unit) eio" where
  "g_commit = State (\<lambda>w.
     let n = g_stmts w; w1 = w\<lparr>g_stmts := Suc n\<rparr> in
     case g_tx w of None \<Rightarrow> (Inl (ForeignError ''tx is closed''), w) | Some t \<Rightarrow>
       (case g_fate w n of Some e \<Rightarrow> (Inl e, w1\<lparr>g_tx := None\<rparr>) | None \<Rightarrow> (Inr (), w1\<lparr>g_db := t, g_tx := None\<rparr>)))"

definition g_rollback :: "('d migration_world, unit) state" where
  "g_rollback = State (\<lambda>w. ((), w\<lparr>g_tx := None\<rparr>))"

section \<open>Applying the migrations\<close>

definition has_sql_suffix :: "string \<Rightarrow> bool" where
  "has_sql_suffix name \<longleftrightarrow> 4 \<le> length name \<and> drop (length name - 4) name = ''.sql''"

text \<open>The entries of the embedded directory: name, whether it is a directory, contents.\<close>

type_synonym entry = "string \<times> bool \<times> string"

definition migration_names :: "entry list \<Rightarrow> string list" where
  "migration_names entries = sort (map fst (filter (\<lambda>(name, dir, _). \<not> dir \<and> has_sql_suffix name) entries))"

definition read_file :: "entry list \<Rightarrow> string \<Rightarrow> string result" where
  "read_file entries name =
     (case find (\<lambda>(n, dir, _). n = name \<and> \<not> dir) entries of
        None \<Rightarrow> Inl (ForeignError ''file does not exist'') | Some (_, _, text) \<Rightarrow> Inr text)"

definition isMigrationApplied :: "string \<Rightarrow> ('d migration_world, bool) eio" where
  "isMigrationApplied version =
     ebind (g_exec (\<lambda>(vs, d). Inr ((), (case vs of None \<Rightarrow> Some [] | Some l \<Rightarrow> Some l), d))) (\<lambda>_.
     g_exec (\<lambda>(vs, d). case vs of None \<Rightarrow> Inl (ForeignError ''relation schema_migrations does not exist'')
                        | Some l \<Rightarrow> Inr (version \<in> set l, vs, d)))"

text \<open>\<open>INSERT INTO schema_migrations (version) VALUES ($1)\<close>, with the primary key of the table.\<close>

definition record_version :: "string \<Rightarrow> 'd versioned \<Rightarrow> (unit \<times> 'd versioned) result" where
  "record_version name v =
     (case v of (None, d) \<Rightarrow> Inl (ForeignError ''relation schema_migrations does not exist'')
      | (Some l, d) \<Rightarrow> if name \<in> set l then Inl (ForeignError ''duplicate key value violates unique constraint'')
                       else Inr ((), Some (l @ [name]), d))"

definition run_script :: "(string \<Rightarrow> 'd versioned \<Rightarrow> 'd versioned result) \<Rightarrow> string \<Rightarrow> 'd versioned \<Rightarrow> (unit \<times> 'd versioned) result" where
  "run_script run_sql text v = map_sum id (\<lambda>v'. ((), v')) (run_sql text v)"

definition apply_one :: "(string \<Rightarrow> 'd versioned \<Rightarrow> 'd versioned result) \<Rightarrow> entry list \<Rightarrow> string \<Rightarrow> ('d migration_world, unit) eio" where
  "apply_one run_sql entries name =
     ebind (isMigrationApplied name) (\<lambda>applied.
     if applied then ok ()
     else ebind (check (read_file entries name)) (\<lambda>text.
       ebind g_begin (\<lambda>_.
       State_Monad.bind (g_exec_tx (run_script run_sql text)) (\<lambda>r. case r of
         Inl err \<Rightarrow> State_Monad.bind g_rollback (\<lambda>_. fail (FmtWrap (''apply migration '' @ name) err))
       | Inr _ \<Rightarrow> State_Monad.bind (g_exec_tx (record_version name)) (\<lambda>r. case r of
           Inl err \<Rightarrow> State_Monad.bind g_rollback (\<lambda>_. fail err)
         | Inr _ \<Rightarrow> g_commit)))))"

fun apply_names :: "(string \<Rightarrow> 'd versioned \<Rightarrow> 'd versioned result) \<Rightarrow> entry list \<Rightarrow> string list \<Rightarrow> ('d migration_world, unit) eio" where
  "apply_names run_sql entries [] = ok ()"
| "apply_names run_sql entries (name # names) =
     ebind (apply_one run_sql entries name) (\<lambda>_. apply_names run_sql entries names)"

definition ApplyMigrations :: "(string \<Rightarrow> 'd versioned \<Rightarrow> 'd versioned result) \<Rightarrow> entry list result \<Rightarrow> ('d migration_world, unit) eio" where
  "ApplyMigrations run_sql dir =
     ebind (check dir) (\<lambda>entries. apply_names run_sql entries (migration_names entries))"

section \<open>The reference\<close>

text \<open>
  What applying a list of migrations means, without statements, transactions and failures of the server: each version that
  is not recorded has its script run and is recorded.
\<close>

definition created :: "'d versioned \<Rightarrow> 'd versioned" where
  "created v = (case v of (None, d) \<Rightarrow> (Some [], d) | _ \<Rightarrow> v)"

definition migrate_one :: "(string \<Rightarrow> 'd versioned \<Rightarrow> 'd versioned result) \<Rightarrow> entry list \<Rightarrow> string \<Rightarrow> 'd versioned \<Rightarrow> 'd versioned option" where
  "migrate_one run_sql entries name v =
     (case created v of (vs, d) \<Rightarrow>
      if name \<in> set (the vs) then Some (vs, d)
      else (case read_file entries name of Inl _ \<Rightarrow> None | Inr text \<Rightarrow>
        (case run_sql text (vs, d) of Inl _ \<Rightarrow> None | Inr v' \<Rightarrow>
          (case record_version name v' of Inl _ \<Rightarrow> None | Inr (_, v'') \<Rightarrow> Some v''))))"

fun migrate :: "(string \<Rightarrow> 'd versioned \<Rightarrow> 'd versioned result) \<Rightarrow> entry list \<Rightarrow> string list \<Rightarrow> 'd versioned \<Rightarrow> 'd versioned option" where
  "migrate run_sql entries [] v = Some v"
| "migrate run_sql entries (name # names) v =
     (case migrate_one run_sql entries name v of None \<Rightarrow> None | Some v' \<Rightarrow> migrate run_sql entries names v')"

text \<open>A script does not touch \<open>schema_migrations\<close> beyond creating it.\<close>

definition keeps_versions :: "(string \<Rightarrow> 'd versioned \<Rightarrow> 'd versioned result) \<Rightarrow> bool" where
  "keeps_versions run_sql \<longleftrightarrow> (\<forall>text l d v'. run_sql text (Some l, d) = Inr v' \<longrightarrow> fst v' = Some l)"

section \<open>The program against the reference\<close>

lemmas migration_effects = apply_one_def isMigrationApplied_def g_exec_def g_begin_def g_exec_tx_def g_commit_def g_rollback_def
  run_script_def migrate_one_def created_def

lemma apply_one_ok:
  assumes "run_state (apply_one run_sql entries name) w = (Inr (), w')"
  shows "migrate_one run_sql entries name (g_db w) = Some (g_db w')"
  using assms by (cases "g_db w")
    (auto simp: migration_effects Let_def split: option.splits sum.splits if_splits prod.splits)

lemma apply_one_error:
  assumes "run_state (apply_one run_sql entries name) w = (Inl e, w')"
  shows "g_db w' = g_db w \<or> g_db w' = created (g_db w)"
  using assms by (cases "g_db w")
    (auto simp: migration_effects Let_def split: option.splits sum.splits if_splits prod.splits)

lemma apply_one_answers:
  assumes "\<And>n. g_fate w n = None" "migrate_one run_sql entries name (g_db w) = Some v"
  shows "\<exists>w'. run_state (apply_one run_sql entries name) w = (Inr (), w') \<and> g_db w' = v \<and> (\<forall>n. g_fate w' n = None)"
  using assms by (cases "g_db w")
    (auto simp: migration_effects Let_def split: option.splits sum.splits if_splits prod.splits)

lemma apply_names_prefix:
  assumes "run_state (apply_names run_sql entries names) w = (r, w')"
  shows "\<exists>k v. k \<le> length names \<and> migrate run_sql entries (take k names) (g_db w) = Some v
     \<and> (case r of Inr _ \<Rightarrow> k = length names \<and> g_db w' = v | Inl _ \<Rightarrow> k < length names \<and> (g_db w' = v \<or> g_db w' = created v))"
  using assms
proof (induction names arbitrary: w)
  case (Cons name names)
  obtain r1 w1 where one: "run_state (apply_one run_sql entries name) w = (r1, w1)" by (cases "run_state (apply_one run_sql entries name) w")
  show ?case
  proof (cases r1)
    case (Inl e)
    then have "r = Inl e" "w' = w1" using Cons.prems one by simp_all
    then show ?thesis using apply_one_error [OF one [unfolded Inl]] by (intro exI [of _ 0] exI [of _ "g_db w"]) simp
  next
    case (Inr u)
    have first: "migrate_one run_sql entries name (g_db w) = Some (g_db w1)" using apply_one_ok one Inr by simp
    have "run_state (apply_names run_sql entries names) w1 = (r, w')" using Cons.prems one Inr by simp
    from Cons.IH [OF this] obtain k v where "k \<le> length names" "migrate run_sql entries (take k names) (g_db w1) = Some v"
      "case r of Inr _ \<Rightarrow> k = length names \<and> g_db w' = v | Inl _ \<Rightarrow> k < length names \<and> (g_db w' = v \<or> g_db w' = created v)" by blast
    then show ?thesis using first by (intro exI [of _ "Suc k"] exI [of _ v]) (simp split: sum.splits)
  qed
qed auto

lemma apply_names_answers:
  assumes "\<And>n. g_fate w n = None" "migrate run_sql entries names (g_db w) = Some v"
  shows "\<exists>w'. run_state (apply_names run_sql entries names) w = (Inr (), w') \<and> g_db w' = v"
  using assms
proof (induction names arbitrary: w)
  case (Cons name names)
  from Cons.prems(2) obtain v1 where v1: "migrate_one run_sql entries name (g_db w) = Some v1" "migrate run_sql entries names v1 = Some v"
    by (auto split: option.splits)
  obtain w1 where w1: "run_state (apply_one run_sql entries name) w = (Inr (), w1)" "g_db w1 = v1" "\<forall>n. g_fate w1 n = None"
    using apply_one_answers [OF Cons.prems(1) v1(1)] by blast
  obtain w' where "run_state (apply_names run_sql entries names) w1 = (Inr (), w')" "g_db w' = v"
    using Cons.IH [of w1] w1 v1(2) by blast
  then show ?case using w1(1) by (intro exI [of _ w']) simp
qed simp

section \<open>Repeating a migration\<close>

definition recorded :: "'d versioned \<Rightarrow> string set" where
  "recorded v = (case fst v of None \<Rightarrow> {} | Some l \<Rightarrow> set l)"

lemma migrate_one_records:
  assumes "migrate_one run_sql entries name v = Some v'" "keeps_versions run_sql"
  shows "fst v' \<noteq> None \<and> recorded v' = insert name (recorded v)"
proof -
  obtain l d where c: "created v = (Some l, d)" "recorded v = set l"
    by (cases v; cases "fst v") (auto simp: created_def recorded_def)
  show ?thesis
  proof (cases "name \<in> set l")
    case True
    then have "v' = (Some l, d)" using assms(1) c(1) by (simp add: migrate_one_def)
    then show ?thesis using c(2) True by (auto simp: recorded_def)
  next
    case False
    then obtain script v1 u where s: "run_sql script (Some l, d) = Inr v1" "record_version name v1 = Inr (u, v')"
      using assms(1) c(1) by (auto simp: migrate_one_def split: sum.splits)
    then have "fst v1 = Some l" using assms(2) unfolding keeps_versions_def by blast
    then have "v' = (Some (l @ [name]), snd v1)" using s(2) False by (cases v1) (simp add: record_version_def)
    then show ?thesis using c(2) by (auto simp: recorded_def)
  qed
qed

lemma migrate_records:
  assumes "migrate run_sql entries names v = Some v'" "keeps_versions run_sql"
  shows "set names \<subseteq> recorded v' \<and> recorded v \<subseteq> recorded v' \<and> (names \<noteq> [] \<or> fst v \<noteq> None \<longrightarrow> fst v' \<noteq> None)"
  using assms(1)
proof (induction names arbitrary: v)
  case (Cons name names)
  from Cons.prems obtain v1 where v1: "migrate_one run_sql entries name v = Some v1" "migrate run_sql entries names v1 = Some v'"
    by (auto split: option.splits)
  from Cons.IH [OF v1(2)] migrate_one_records [OF v1(1) assms(2)] show ?case by auto
qed simp

lemma migrate_one_done: "fst v \<noteq> None \<Longrightarrow> name \<in> recorded v \<Longrightarrow> migrate_one run_sql entries name v = Some v"
  by (cases v) (auto simp: migrate_one_def created_def recorded_def)

lemma migrate_done: "fst v \<noteq> None \<Longrightarrow> set names \<subseteq> recorded v \<Longrightarrow> migrate run_sql entries names v = Some v"
  by (induction names) (simp_all add: migrate_one_done)

lemma migrate_append:
  "migrate run_sql entries (xs @ ys) v = (case migrate run_sql entries xs v of None \<Rightarrow> None | Some v' \<Rightarrow> migrate run_sql entries ys v')"
  by (induction xs arbitrary: v) (simp_all split: option.split)

lemma migrate_created: "names \<noteq> [] \<Longrightarrow> migrate run_sql entries names (created v) = migrate run_sql entries names v"
proof -
  have "created (created v) = created v" by (cases v; cases "fst v") (auto simp: created_def)
  then show "names \<noteq> [] \<Longrightarrow> ?thesis" by (cases names) (simp_all add: migrate_one_def)
qed

lemma migrate_resumes:
  assumes "migrate run_sql entries (take k names) v = Some v'" "keeps_versions run_sql" "k < length names"
    and "u = v' \<or> u = created v'"
  shows "migrate run_sql entries names u = migrate run_sql entries names v"
proof -
  have ne: "names \<noteq> []" using assms(3) by auto
  have again: "migrate run_sql entries names v' = migrate run_sql entries names v"
  proof (cases "k = 0")
    case False
    then have "migrate run_sql entries (take k names) v' = Some v'"
      using migrate_records [OF assms(1,2)] ne by (intro migrate_done) simp_all
    then have "migrate run_sql entries (take k names @ drop k names) v' = migrate run_sql entries (take k names @ drop k names) v"
      unfolding migrate_append using assms(1) by simp
    then show ?thesis by simp
  qed (use assms(1) in simp)
  then show ?thesis using assms(4) migrate_created [OF ne] by metis
qed

text \<open>
  C14. Migrations against their meaning. When the server answers every statement, applying the migrations succeeds with a
  database exactly when the reference gives that database: the \<open>.sql\<close> files in the order of their names, each one's script run and
  its version recorded unless it was recorded before.
\<close>

theorem migrations_match_reference:
  assumes "\<And>n. g_fate w n = None"
  shows "(\<exists>w'. run_state (ApplyMigrations run_sql (Inr entries)) w = (Inr (), w') \<and> g_db w' = v)
     \<longleftrightarrow> migrate run_sql entries (migration_names entries) (g_db w) = Some v"
proof
  assume "\<exists>w'. run_state (ApplyMigrations run_sql (Inr entries)) w = (Inr (), w') \<and> g_db w' = v"
  then obtain w' where "run_state (apply_names run_sql entries (migration_names entries)) w = (Inr (), w')" "g_db w' = v"
    by (auto simp: ApplyMigrations_def)
  then show "migrate run_sql entries (migration_names entries) (g_db w) = Some v" using apply_names_prefix by fastforce
next
  assume "migrate run_sql entries (migration_names entries) (g_db w) = Some v"
  then show "\<exists>w'. run_state (ApplyMigrations run_sql (Inr entries)) w = (Inr (), w') \<and> g_db w' = v"
    using apply_names_answers [of w run_sql entries "migration_names entries" v] assms by (auto simp: ApplyMigrations_def)
qed

text \<open>
  C30. An interrupted migration can be repeated. Wherever a run of the migrations fails, a later run on the database it left
  behind that succeeds ends in the very database that an undisturbed run would have made: no script is run twice and none is left out.
\<close>

theorem interrupted_migration_resumes:
  assumes "run_state (ApplyMigrations run_sql (Inr entries)) w = (Inl e, w1)" "g_db w2 = g_db w1"
    and "run_state (ApplyMigrations run_sql (Inr entries)) w2 = (Inr (), w3)" "keeps_versions run_sql"
  shows "migrate run_sql entries (migration_names entries) (g_db w) = Some (g_db w3)"
proof -
  let ?names = "migration_names entries"
  have "run_state (apply_names run_sql entries ?names) w = (Inl e, w1)" using assms(1) by (simp add: ApplyMigrations_def)
  from apply_names_prefix [OF this] obtain k v where k: "k < length ?names" "migrate run_sql entries (take k ?names) (g_db w) = Some v"
    "g_db w1 = v \<or> g_db w1 = created v" by auto
  have "run_state (apply_names run_sql entries ?names) w2 = (Inr (), w3)" using assms(3) by (simp add: ApplyMigrations_def)
  from apply_names_prefix [OF this] have "migrate run_sql entries ?names (g_db w2) = Some (g_db w3)" by auto
  then show ?thesis using migrate_resumes [OF k(2) assms(4) k(1,3)] assms(2) by simp
qed

section \<open>Two scripts\<close>

text \<open>A directory with two scripts and a note, on a database that logs the scripts it runs.\<close>

definition two_scripts :: "entry list" where
  "two_scripts = [(''002.sql'', False, ''B''), (''001.sql'', False, ''A''), (''notes'', False, [])]"

definition log_sql :: "string \<Rightarrow> string list versioned \<Rightarrow> string list versioned result" where
  "log_sql s v = Inr (fst v, snd v @ [s])"

definition fresh_db :: "(nat \<Rightarrow> go_error option) \<Rightarrow> string list migration_world" where
  "fresh_db fate = \<lparr>g_db = (None, []), g_tx = None, g_fate = fate, g_stmts = 0\<rparr>"

lemma two_scripts_facts: "migration_names two_scripts = [''001.sql'', ''002.sql'']" "keeps_versions log_sql"
proof -
  show "migration_names two_scripts = [''001.sql'', ''002.sql'']" by code_simp
qed (simp add: keeps_versions_def log_sql_def)

lemma read_scripts: "read_file two_scripts ''001.sql'' = Inr ''A''" "read_file two_scripts ''002.sql'' = Inr ''B''"
  by (simp_all add: read_file_def two_scripts_def)

lemma two_scripts_migrated:
  "migrate log_sql two_scripts [''001.sql'', ''002.sql''] (None, []) = Some (Some [''001.sql'', ''002.sql''], [''A'', ''B''])"
  by (simp add: migrate_one_def created_def read_scripts log_sql_def record_version_def)

theorem migrations_match_reference_witness:
  "\<exists>w'. run_state (ApplyMigrations log_sql (Inr two_scripts)) (fresh_db (\<lambda>_. None)) = (Inr (), w')
     \<and> g_db w' = (Some [''001.sql'', ''002.sql''], [''A'', ''B''])"
proof -
  have "\<And>n. g_fate (fresh_db (\<lambda>_. None)) n = None" "g_db (fresh_db (\<lambda>_. None)) = (None, [])" by (simp_all add: fresh_db_def)
  then show ?thesis using migrations_match_reference two_scripts_facts(1) two_scripts_migrated by metis
qed

theorem interrupted_migration_resumes_witness:
  "\<exists>(w1 :: string list migration_world) (w3 :: string list migration_world). g_db w1 = (Some [''001.sql''], [''A'']) \<and> g_db w3 = (Some [''001.sql'', ''002.sql''], [''A'', ''B''])
     \<and> fst (run_state (ApplyMigrations log_sql (Inr two_scripts)) (w1\<lparr>g_fate := \<lambda>_. None\<rparr>)) = Inr ()"
proof -
  let ?fate = "\<lambda>n. if n = 10 then Some DeadlineExceeded else None"
  let ?w1 = "snd (run_state (ApplyMigrations log_sql (Inr two_scripts)) (fresh_db ?fate))"
  let ?w3 = "snd (run_state (ApplyMigrations log_sql (Inr two_scripts)) (?w1\<lparr>g_fate := \<lambda>_. None\<rparr>))"
  note step = ApplyMigrations_def two_scripts_facts(1) migration_effects fresh_db_def read_scripts log_sql_def record_version_def
  have w1: "fst (run_state (ApplyMigrations log_sql (Inr two_scripts)) (fresh_db ?fate)) = Inl DeadlineExceeded"
    "g_db ?w1 = (Some [''001.sql''], [''A''])"
    by (simp_all add: step)
  have w3: "fst (run_state (ApplyMigrations log_sql (Inr two_scripts)) (?w1\<lparr>g_fate := \<lambda>_. None\<rparr>)) = Inr ()"
    by (simp add: step)
  have "migrate log_sql two_scripts (migration_names two_scripts) (g_db (fresh_db ?fate)) = Some (g_db ?w3)"
    by (rule interrupted_migration_resumes [OF _ _ _ two_scripts_facts(2), of _ _ DeadlineExceeded ?w1 "?w1\<lparr>g_fate := \<lambda>_. None\<rparr>"])
      (use w1 w3 in \<open>simp_all add: prod_eq_iff\<close>)
  moreover have "g_db (fresh_db ?fate) = (None, [])" by (simp add: fresh_db_def)
  ultimately have "Some (g_db ?w3) = Some (Some [''001.sql'', ''002.sql''], [''A'', ''B''])"
    unfolding two_scripts_facts(1) using two_scripts_migrated by simp
  then have "g_db ?w3 = (Some [''001.sql'', ''002.sql''], [''A'', ''B''])" by simp
  then show ?thesis using w1(2) w3 by blast
qed

end
