(* ===== verification/Support.thy ===== *)
theory Support
  imports GoParse Ports
begin

text \<open>
  The generator of identifiers and the password hasher (\<open>internal/service/support.go\<close>). The random bytes of \<open>crypto/rand\<close> and the functions of
  \<open>bcrypt\<close> are arguments. \<open>SystemClock\<close> is \<open>clock_now\<close> of \<open>Database\<close>.
\<close>

section \<open>Identifiers\<close>

definition hex_char :: "nat \<Rightarrow> char" where
  "hex_char n = (if n < 10 then char_of (48 + n) else char_of (87 + n))"

text \<open>\<open>hex.EncodeToString\<close>, and the bytes of a text.\<close>

definition hex_encode :: "byte list \<Rightarrow> string" where
  "hex_encode bs = concat (map (\<lambda>b. [hex_char (unat b div 16), hex_char (unat b mod 16)]) bs)"

definition text_bytes :: "string \<Rightarrow> byte list" where
  "text_bytes s = map of_char s"

text \<open>Sixteen random bytes or, when \<open>rand.Read\<close> fails, the text of the current time.\<close>

definition NewID :: "byte list option \<Rightarrow> time \<Rightarrow> string" where
  "NewID rand now = (case rand of None \<Rightarrow> hex_encode (text_bytes (rfc3339_nano now)) | Some b \<Rightarrow> hex_encode b)"

lemma hex_char_inj: "a < 16 \<Longrightarrow> b < 16 \<Longrightarrow> hex_char a = hex_char b \<longleftrightarrow> a = b"
proof -
  have "distinct (map hex_char [0..<16])" by code_simp
  then have "inj_on hex_char {0..<16}" by (simp add: distinct_map)
  then show "a < 16 \<Longrightarrow> b < 16 \<Longrightarrow> hex_char a = hex_char b \<longleftrightarrow> a = b" by (auto simp: inj_on_def)
qed

lemma hex_encode_length [simp]: "length (hex_encode bs) = 2 * length bs"
  by (induction bs) (simp_all add: hex_encode_def)

lemma byte_digits: "hex_char (unat x div 16) = hex_char (unat y div 16) \<and> hex_char (unat x mod 16) = hex_char (unat y mod 16) \<longleftrightarrow> x = y"
  for x y :: byte
proof -
  have "unat x div 16 < 16" "unat y div 16 < 16" using unsigned_less [where 'a = nat, of x] unsigned_less [where 'a = nat, of y] by (simp_all add: less_mult_imp_div_less)
  then have "hex_char (unat x div 16) = hex_char (unat y div 16) \<and> hex_char (unat x mod 16) = hex_char (unat y mod 16)
      \<longleftrightarrow> unat x div 16 = unat y div 16 \<and> unat x mod 16 = unat y mod 16" by (simp add: hex_char_inj)
  also have "\<dots> \<longleftrightarrow> unat x = unat y" by (metis div_mult_mod_eq)
  finally show ?thesis unfolding word_unat_eq_iff [of x y] .
qed

lemma hex_encode_inj: "hex_encode xs = hex_encode ys \<longleftrightarrow> xs = ys"
proof (induction xs arbitrary: ys)
  case Nil
  then show ?case using hex_encode_length [of ys] by (auto simp: hex_encode_def)
next
  case (Cons x xs)
  then show ?case using byte_digits [of x] by (cases ys) (auto simp: hex_encode_def)
qed

lemma text_bytes_inj: "text_bytes a = text_bytes b \<longleftrightarrow> a = b"
proof -
  have "inj (of_char :: char \<Rightarrow> byte)"
  proof (rule injI)
    fix a b :: char
    assume "(of_char a :: byte) = of_char b"
    then have "unat (of_nat (of_char a) :: byte) = unat (of_nat (of_char b) :: byte)" by (simp add: of_nat_of_char)
    then show "a = b" by (simp add: unsigned_of_nat take_bit_nat_eq_self)
  qed
  then show ?thesis by (simp add: text_bytes_def inj_map_eq_map)
qed

lemma pad_length: "n \<le> length (pad n v)"
  by (simp add: pad_def Let_def)

lemma rfc3339_nano_length: "20 \<le> length (rfc3339_nano t)"
proof -
  have "20 \<le> length (pad 4 y @ ''-'' @ pad 2 mo @ ''-'' @ pad 2 d @ ''T'' @ pad 2 h @ '':'' @ pad 2 mi @ '':'' @ pad 2 s @ f @ ''Z'')" for y mo d h mi s f
    using pad_length [of 4 y] pad_length [of 2 mo] pad_length [of 2 d] pad_length [of 2 h] pad_length [of 2 mi] pad_length [of 2 s] by simp
  then show ?thesis unfolding rfc3339_nano_def Let_def by (cases "date_of UTC t") (simp only: prod.case)
qed

text \<open>
  C38. Identifiers collide only when their sources do. Two identifiers are equal exactly when both come from the same sixteen random bytes or both
  from the same instant; one made of random bytes never equals one made of the time.
\<close>

theorem ids_collide_with_sources:
  assumes "r = None \<or> length (the r) = 16" "r' = None \<or> length (the r') = 16"
    and "0 \<le> t" "t < 315537897600 * second" "0 \<le> t'" "t' < 315537897600 * second"
  shows "NewID r t = NewID r' t' \<longleftrightarrow> r = r' \<and> (r = None \<longrightarrow> t = t')"
proof -
  have same: "rfc3339_nano t = rfc3339_nano t' \<longleftrightarrow> t = t'"
    by (metis Parse_RFC3339_nano [OF assms(3,4)] Parse_RFC3339_nano [OF assms(5,6)] option.inject)
  have apart: "hex_encode b \<noteq> hex_encode (text_bytes (rfc3339_nano u))" if "length b = 16" for b u
    using that rfc3339_nano_length [of u] by (auto simp: hex_encode_inj text_bytes_def)
  show ?thesis
  proof (cases r)
    case None
    then show ?thesis using assms(2) same apart [of "the r'" t]
      by (cases r') (auto simp: NewID_def hex_encode_inj text_bytes_inj)
  next
    case (Some b)
    then show ?thesis using assms(1,2) apart [of b t']
      by (cases r') (auto simp: NewID_def hex_encode_inj)
  qed
qed

theorem ids_collide_with_sources_witness:
  "NewID (Some (replicate 16 0)) 0 \<noteq> NewID None 0 \<and> NewID None 0 \<noteq> NewID None 1"
  using ids_collide_with_sources [of "Some (replicate 16 0)" None 0 0] ids_collide_with_sources [of None None 0 1] by (simp add: second_def)

section \<open>Passwords\<close>

definition bcrypt_hasher :: "(byte list \<Rightarrow> int \<Rightarrow> ('w, byte list) eio) \<Rightarrow> (byte list \<Rightarrow> byte list \<Rightarrow> unit result) \<Rightarrow> int \<Rightarrow> int \<Rightarrow>
    'w password_hasher" where
  "bcrypt_hasher generate compare_hash default_cost cost =
     \<lparr>ph_Hash = (\<lambda>password. generate (text_bytes password) (if cost = 0 then default_cost else cost)),
      ph_Compare = (\<lambda>hash password. compare_hash hash (text_bytes password))\<rparr>"

end
