(* ===== verification/Spec2Isabelle.thy ===== *)
theory Spec2Isabelle
  imports App Migrations StorePages Support
begin

text \<open>
  A verification development of mqtter: an MQTT broker that stores every message before it is routed, with a management server for devices,
  messages, publishing, schedules and quick actions. The program is the Go code under \<open>src/internal\<close> and \<open>src/cmd\<close>.

  Parts and how they interact. The embedded MQTT library calls the hook (\<open>broker/hook.go\<close>); the hook hands every event to the ingestor
  (\<open>service/ingestor.go\<close>), which validates it (\<open>domain/validation.go\<close>), records it through the repositories (\<open>ports/ports.go\<close>, implemented by
  \<open>storage/postgres/store.go\<close>) and tells the realtime hub (\<open>realtime/hub.go\<close>). An administrator talks to the router (\<open>api/router.go\<close>), which checks
  the session (\<open>service/auth.go\<close>) and calls the services for devices, messages, alerts, publishing, schedules and quick actions. Publishing goes
  through the broker and so through the hook again. The scheduler polls for due tasks and publishes them. \<open>app/app.go\<close> wires all this from the settings
  (\<open>config/config.go\<close>), \<open>cmd\<close> starts it, and \<open>storage/postgres/migrations.go\<close> prepares the database.

  Theories, from the bottom up.
  \<^item> \<open>Prelude\<close>: effects as \<open>State_Monad\<close>, fallible effects \<open>('w, 'a) eio\<close>, the error idiom \<open>ebind\<close>, frames (\<open>leaves\<close>, \<open>state_io_rel\<close>) and triples (\<open>hoare\<close>).
  \<^item> \<open>Utf8\<close>, \<open>GoStrings\<close>, \<open>Json\<close>, \<open>GoTime\<close>, \<open>GoParse\<close>: what the program uses of Go's standard library, written out: runes, trimming, numbers, the JSON scanner,
    the calendar, \<open>time.Date\<close> in a zone, durations with their \<open>float64\<close> fractions, RFC 3339.
  \<^item> \<open>AppError\<close>, \<open>Domain\<close>, \<open>Validation\<close>, \<open>Schedule\<close>: \<open>internal/domain\<close>.
  \<^item> \<open>RateLimiter\<close>, \<open>Hub\<close>: the connection limiter, and the hub with its concurrent system (publishers, subscribers and receivers step by step).
  \<^item> \<open>Database\<close>: PostgreSQL as far as the store needs it: the tables of the migrations as lists of rows with their keys, references and partitions, statements, and
    transactions; the record \<open>world\<close> with the database, the broker's state, the clock, the generators and the fate of each statement.
  \<^item> \<open>Ports\<close>, \<open>Contracts\<close>: the interfaces as records of operations, and their laws as locales.
  \<^item> \<open>Store\<close>, \<open>Integrity\<close>, \<open>StoreLaws\<close>, \<open>StorePages\<close>, \<open>Partitions\<close>, \<open>Progress\<close>: every method of the store; that all of them keep the database consistent, succeed or
    fail; the interpretations of the contracts; paging; the monthly partitions; when a method succeeds.
  \<^item> \<open>Runtime\<close>, \<open>Ingestor\<close>, \<open>Broker\<close>: the ingestor and the hook, and the properties of a packet's whole way.
  \<^item> \<open>Publishing\<close>, \<open>Scheduling\<close>, \<open>Auth\<close>, \<open>QuickActions\<close>, \<open>Queries\<close>, \<open>Support\<close>: \<open>internal/service\<close> and \<open>internal/jobs\<close>.
  \<^item> \<open>Migrations\<close>: \<open>ApplyMigrations\<close> against a reference that knows neither statements nor failures.
  \<^item> \<open>Requests\<close>, \<open>Api\<close>: what the router reads from a request, and the router.
  \<^item> \<open>Config\<close>, \<open>App\<close>: the settings, the wiring, start-up, run and shutdown, and the properties of requests to the whole application.

  How the code is written. A struct is a record, an enumeration a datatype (open string types have a constructor for other values), a Go \<open>int\<close> an \<open>int\<close> with
  \<open>wrap64\<close> where a product can overflow, a byte an \<open>8 word\<close>, a string its list of bytes, an instant the nanoseconds since year 1. An interface value is a record of
  functions; \<open>nil\<close> is \<open>None\<close>. A method with effects is a function over the world; \<open>(T, error)\<close> is a sum. Calls are composed in the order of the code, the
  reading of the clock and the drawing of identifiers included, since the world numbers them. A \<open>context\<close> is the function that answers \<open>ctx.Err()\<close>.

  Failures. \<open>w_fate\<close> decides for every statement whether the server answers it, \<open>w_mqtt\<close> whether the broker takes a message, \<open>w_expired\<close> when a deadline
  has passed. All three are arbitrary in every property unless a hypothesis says otherwise, so each property covers every pattern of failures.

  Concurrency. The hub is a step relation in which publishers visit subscribers one by one. The scheduler against the requests is \<open>sched_step\<close>: a poll, a publish, the
  record of a run, a creation, a cancellation, and any step that leaves the tasks alone; \<open>RunDue\<close> refines it. Sessions have histories of logins, logouts and checks.
  A single database method is atomic with respect to the others only where the code makes it one statement or one transaction.

  Groups of lemmas. Contracts say exactly what a successful call did and that a failed call did nothing; the services' lemmas are proved from them inside the locales
  \<open>ingesting\<close>, \<open>alerting\<close>, \<open>publishing\<close>, \<open>scheduling\<close>, \<open>authentication\<close> and \<open>quick_actions\<close>, and reach the program through the interpretations on the store. \<open>_run\<close> lemmas are the case
  analyses of an operation's runs. The properties stand right after the text that numbers them; a theorem named \<open>_witness\<close> applies the property of that name to concrete values.

  Loops. The scheduler's loop is a \<open>partial_function\<close> and its return is a theorem; every other loop is structural or has a termination proof. There is no fuel.

  Parameters: the time-zone database, PostgreSQL's \<open>ILIKE\<close> and the collation of its sorting, \<open>bcrypt\<close>, random bytes, what a migration script does, the answers of
  the environment at start-up, the WebSocket endpoint, and HTTP and JSON syntax: a request comes with its path segments, query, cookies and the JSON value of its body.

  Not modelled: the MQTT library's own protocol and its persistent store, the WebSocket upgrade and writes of the hub's \<open>ServeHTTP\<close>, the request-id,
  real-ip and recoverer middlewares, the text of JSON responses, logging, signals, the content of the SQL scripts beyond the tables and constraints, and the web
  frontend, which is not Go and keeps no state of the system.
\<close>

end
